(* ===== verification/Prelude.thy ===== *)
theory Prelude
  imports Main
begin

text \<open>
  What every component shares: the exceptions the services throw and the result type of a
  call that may throw, the sum of a quantity over the rows of a list, the reachability of
  a step relation with the locale of its invariants, and the JavaScript \<open>Map\<close> and \<open>join\<close>.
\<close>

section \<open>Exceptions and results\<close>

text \<open>
  A thrown value is an \<open>Inl\<close>. \<open>Error\<close> stands for a plain \<open>Error\<close> or a library error with its
  message, the others are the Nest exceptions the services throw by name.
\<close>

datatype exn =
    Error string
  | BadRequestException string
  | UnauthorizedException string
  | NotFoundException string
  | ConflictException string

type_synonym 'a result = "exn + 'a"

named_theorems inv_intros "introduction rules of the component invariants"
named_theorems handler_defs "definitions of the message handlers"

text \<open>A statement whose fault is \<open>Some e\<close> throws \<open>e\<close>, otherwise it runs.\<close>

definition attempt :: "exn option \<Rightarrow> 'a result \<Rightarrow> 'a result" where
  "attempt fault r = (case fault of Some e \<Rightarrow> Inl e | None \<Rightarrow> r)"

lemma attempt_simps [simp]:
  "attempt None r = r"
  "attempt (Some e) r = Inl e"
  by (simp_all add: attempt_def)

lemma attempt_Inr: "attempt f r = Inr x \<longleftrightarrow> f = None \<and> r = Inr x"
  by (cases f) auto

text \<open>What an RPC handler hands back to the consumer: a value that is sent to the caller, or a
  \<open>Nack\<close> whose flag says whether the message is put back on its queue.\<close>

datatype 'a reply = Reply 'a | Nack bool

section \<open>Sums over rows\<close>

definition sum_of :: "('r \<Rightarrow> int) \<Rightarrow> 'r list \<Rightarrow> int" where
  "sum_of f rs = sum_list (map f rs)"

lemma sum_of_simps [simp]:
  "sum_of f [] = 0"
  "sum_of f (r # rs) = f r + sum_of f rs"
  "sum_of f (rs @ ts) = sum_of f rs + sum_of f ts"
  by (simp_all add: sum_of_def)

lemma sum_of_nonneg: "(\<And>r. r \<in> set rs \<Longrightarrow> 0 \<le> f r) \<Longrightarrow> 0 \<le> sum_of f rs"
  by (induction rs) auto

lemma sum_of_ge_member:
  assumes "r \<in> set rs" and "\<And>r. r \<in> set rs \<Longrightarrow> 0 \<le> f r"
  shows "f r \<le> sum_of f rs"
  using assms
proof (induction rs)
  case (Cons a rs)
  then show ?case
    using sum_of_nonneg [of rs f] by (cases "r = a") fastforce+
qed simp

lemma sum_of_cong: "(\<And>r. r \<in> set rs \<Longrightarrow> f r = g r) \<Longrightarrow> sum_of f rs = sum_of g rs"
  by (induction rs) auto

section \<open>Reachability and invariants\<close>

text \<open>
  A component with interleaving is an initial predicate and a labelled step relation; what
  holds of every reachable state is proved once, in the locale of an inductive invariant.
\<close>

inductive reachable :: "('s \<Rightarrow> bool) \<Rightarrow> ('s \<Rightarrow> 'e \<Rightarrow> 's \<Rightarrow> bool) \<Rightarrow> 's \<Rightarrow> bool"
  for init :: "'s \<Rightarrow> bool" and step :: "'s \<Rightarrow> 'e \<Rightarrow> 's \<Rightarrow> bool" where
  reachable_init: "init s \<Longrightarrow> reachable init step s"
| reachable_step: "reachable init step s \<Longrightarrow> step s e t \<Longrightarrow> reachable init step t"

locale inductive_invariant =
  fixes init :: "'s \<Rightarrow> bool" and step :: "'s \<Rightarrow> 'e \<Rightarrow> 's \<Rightarrow> bool" and inv :: "'s \<Rightarrow> bool"
  assumes holds_initially: "init s \<Longrightarrow> inv s"
    and kept_by_step: "inv s \<Longrightarrow> step s e t \<Longrightarrow> inv t"
begin

lemma holds_when_reachable: "reachable init step s \<Longrightarrow> inv s"
  by (induction rule: reachable.induct) (auto intro: holds_initially kept_by_step)

end

section \<open>The JavaScript Map\<close>

text \<open>\<open>new Map(entries)\<close>: of several entries with one key the last one stays.\<close>

definition js_Map :: "('k \<times> 'v) list \<Rightarrow> 'k \<Rightarrow> 'v option" where
  "js_Map entries = fold (\<lambda>(k, v) m. m(k \<mapsto> v)) entries (\<lambda>_. None)"

lemma js_Map_map_of: "js_Map entries = map_of (rev entries)"
proof -
  have "fold (\<lambda>(k, v) m. m(k \<mapsto> v)) entries m = m ++ map_of (rev entries)" for m :: "'a \<Rightarrow> 'b option"
    by (induction entries arbitrary: m) (auto simp: map_add_def fun_eq_iff split: option.splits)
  then show ?thesis by (simp add: js_Map_def)
qed

lemma js_Map_SomeD: "js_Map entries k = Some v \<Longrightarrow> (k, v) \<in> set entries"
  by (auto simp: js_Map_map_of dest: map_of_SomeD)

lemma js_Map_None_iff: "js_Map entries k = None \<longleftrightarrow> k \<notin> fst ` set entries"
  by (simp add: js_Map_map_of map_of_eq_None_iff)

section \<open>Strings\<close>

text \<open>\<open>xs.join(', ')\<close>\<close>

fun join_comma :: "string list \<Rightarrow> string" where
  "join_comma [] = ''''"
| "join_comma [x] = x"
| "join_comma (x # xs) = x @ '', '' @ join_comma xs"

text \<open>A count interpolated in a template string.\<close>

fun string_of_nat :: "nat \<Rightarrow> string" where
  "string_of_nat n = (if n < 10 then [''0123456789'' ! n]
     else string_of_nat (n div 10) @ [''0123456789'' ! (n mod 10)])"

declare string_of_nat.simps [simp del]

section \<open>Configuration\<close>

text \<open>\<open>configService.get(key, fallback)\<close> for a string, given what the environment holds.\<close>

definition config_string :: "string option \<Rightarrow> string \<Rightarrow> string" where
  "config_string env fallback = (case env of Some v \<Rightarrow> v | None \<Rightarrow> fallback)"

text \<open>\<open>process.env.X || fallback\<close>: an empty string counts as unset.\<close>

definition env_or :: "string option \<Rightarrow> string \<Rightarrow> string" where
  "env_or env fallback = (case env of None \<Rightarrow> fallback | Some v \<Rightarrow> if v = [] then fallback else v)"

end
