(* ===== verification/JS_Number.thy ===== *)
theory JS_Number
  imports Prelude Complex_Main
begin

text \<open>
  The JavaScript \<open>number\<close>: an IEEE 754 double. A finite double is kept as the rational it
  denotes (the sign of zero, which nothing in the services observes, is not), and every
  arithmetic operation rounds the exact result to the nearest double, ties to even.
  \<open>js_add\<close>, \<open>js_mul\<close>, the comparisons and \<open>Number.isInteger\<close> are the operations the services use.
\<close>

section \<open>Rounding\<close>

datatype js_number = NaN | PosInf | NegInf | Fin rat

function ilog2 :: "int \<Rightarrow> int" where
  "ilog2 n = (if n < 2 then 0 else 1 + ilog2 (n div 2))"
  by pat_completeness auto
termination
  by (relation "measure nat") auto

declare ilog2.simps [simp del]

text \<open>The binary exponent of a positive rational: \<open>2 ^ flog2 q \<le> q < 2 ^ (flog2 q + 1)\<close>.\<close>

definition flog2 :: "rat \<Rightarrow> int" where
  "flog2 q = (if 1 \<le> q then ilog2 \<lfloor>q\<rfloor>
     else let m = \<lceil>inverse q\<rceil> in if m \<le> 1 then 0 else - 1 - ilog2 (m - 1))"

text \<open>Round to the nearest integer, ties to the even one.\<close>

definition rne :: "rat \<Rightarrow> int" where
  "rne x = (let f = \<lfloor>x\<rfloor>; d = x - of_int f in
     if d < 1 / 2 then f else if 1 / 2 < d then f + 1 else if even f then f else f + 1)"

text \<open>The exponent of the last of the 53 significand bits, no smaller than that of subnormals.\<close>

definition ulp_exp :: "rat \<Rightarrow> int" where
  "ulp_exp q = max (flog2 \<bar>q\<bar> - 52) (- 1074)"

definition pow2 :: "int \<Rightarrow> rat" where
  "pow2 e = (if 0 \<le> e then 2 ^ nat e else inverse (2 ^ nat (- e)))"

definition max_finite :: rat where
  "max_finite = (2 ^ 53 - 1) * 2 ^ 971"

definition round_double :: "rat \<Rightarrow> js_number" where
  "round_double q = (if q = 0 then Fin 0 else
     let p = pow2 (ulp_exp q); r = of_int (rne (q / p)) * p in
     if max_finite < r then PosInf else if r < - max_finite then NegInf else Fin r)"

section \<open>Operations\<close>

fun js_add :: "js_number \<Rightarrow> js_number \<Rightarrow> js_number" where
  "js_add (Fin a) (Fin b) = round_double (a + b)"
| "js_add NaN _ = NaN"
| "js_add _ NaN = NaN"
| "js_add PosInf NegInf = NaN"
| "js_add NegInf PosInf = NaN"
| "js_add PosInf _ = PosInf"
| "js_add _ PosInf = PosInf"
| "js_add NegInf _ = NegInf"
| "js_add _ NegInf = NegInf"

definition js_sign_inf :: "bool \<Rightarrow> js_number" where
  "js_sign_inf pos = (if pos then PosInf else NegInf)"

fun js_mul :: "js_number \<Rightarrow> js_number \<Rightarrow> js_number" where
  "js_mul (Fin a) (Fin b) = round_double (a * b)"
| "js_mul NaN _ = NaN"
| "js_mul _ NaN = NaN"
| "js_mul (Fin a) PosInf = (if a = 0 then NaN else js_sign_inf (0 < a))"
| "js_mul (Fin a) NegInf = (if a = 0 then NaN else js_sign_inf (a < 0))"
| "js_mul PosInf (Fin b) = (if b = 0 then NaN else js_sign_inf (0 < b))"
| "js_mul NegInf (Fin b) = (if b = 0 then NaN else js_sign_inf (b < 0))"
| "js_mul PosInf PosInf = PosInf"
| "js_mul PosInf NegInf = NegInf"
| "js_mul NegInf PosInf = NegInf"
| "js_mul NegInf NegInf = PosInf"

fun js_lt :: "js_number \<Rightarrow> js_number \<Rightarrow> bool" where
  "js_lt (Fin a) (Fin b) = (a < b)"
| "js_lt NaN _ = False"
| "js_lt _ NaN = False"
| "js_lt NegInf y = (y \<noteq> NegInf)"
| "js_lt x PosInf = (x \<noteq> PosInf)"
| "js_lt _ _ = False"

definition js_le :: "js_number \<Rightarrow> js_number \<Rightarrow> bool" where
  "js_le x y = (x \<noteq> NaN \<and> y \<noteq> NaN \<and> (x = y \<or> js_lt x y))"

text \<open>\<open>Number.isInteger\<close>\<close>

fun js_isInteger :: "js_number \<Rightarrow> bool" where
  "js_isInteger (Fin q) = (of_int \<lfloor>q\<rfloor> = q)"
| "js_isInteger _ = False"

definition js_int :: "int \<Rightarrow> js_number" where
  "js_int n = Fin (of_int n)"

section \<open>Exactness on the integers a double holds\<close>

lemma ilog2_nonneg: "0 \<le> ilog2 n"
  by (induction n rule: ilog2.induct) (subst ilog2.simps, auto)

lemma ilog2_bounds: "0 < n \<Longrightarrow> 2 ^ nat (ilog2 n) \<le> n \<and> n < 2 ^ Suc (nat (ilog2 n))"
proof (induction n rule: ilog2.induct)
  case (1 n)
  show ?case
  proof (cases "n < 2")
    case True
    with 1 show ?thesis by (simp add: ilog2.simps)
  next
    case False
    then have "2 ^ nat (ilog2 (n div 2)) \<le> n div 2 \<and> n div 2 < 2 ^ Suc (nat (ilog2 (n div 2)))"
      using 1 by simp
    moreover have "nat (ilog2 n) = Suc (nat (ilog2 (n div 2)))"
      using False ilog2_nonneg [of "n div 2"] by (subst ilog2.simps) (simp add: nat_add_distrib)
    ultimately show ?thesis by (simp, linarith)
  qed
qed

lemma ilog2_less:
  assumes "0 < n" and "n < 2 ^ k"
  shows "ilog2 n < int k"
proof -
  have "(2::int) ^ nat (ilog2 n) < 2 ^ k"
    using ilog2_bounds [OF assms(1)] assms(2) by linarith
  then have "nat (ilog2 n) < k"
    by (rule power_less_imp_less_exp [rotated]) simp
  then show ?thesis by simp
qed

lemma rne_of_int [simp]: "rne (of_int n) = n"
  by (simp add: rne_def)

lemma pow2_nonpos: "e \<le> 0 \<Longrightarrow> pow2 e = inverse (2 ^ nat (- e))"
  by (auto simp: pow2_def)

lemma pow2_pos [simp]: "0 < pow2 e"
  by (simp add: pow2_def)

lemma flog2_of_int: "0 < n \<Longrightarrow> flog2 (of_int n) = ilog2 n"
  by (simp add: flog2_def)

lemma max_finite_large: "(2 ^ 53 :: rat) < max_finite"
  by (simp add: max_finite_def)

lemma round_double_eqI:
  assumes "ulp_exp q = e" and "rne (q / pow2 e) = m" and "of_int m * pow2 e = r"
    and "q \<noteq> 0" and "\<bar>r\<bar> \<le> 2 ^ 53"
  shows "round_double q = Fin r"
  using assms max_finite_large by (auto simp: round_double_def Let_def)

lemma round_double_int:
  assumes "\<bar>n\<bar> < 2 ^ 53"
  shows "round_double (of_int n) = Fin (of_int n)"
proof (cases "n = 0")
  case False
  define e where "e = ulp_exp (of_int n)"
  have "ilog2 \<bar>n\<bar> < 53"
    using False assms ilog2_less [of "\<bar>n\<bar>" 53] by simp
  moreover have "flog2 \<bar>of_int n\<bar> = ilog2 \<bar>n\<bar>"
    using False flog2_of_int [of "\<bar>n\<bar>"] by simp
  ultimately have e: "e \<le> 0"
    unfolding e_def ulp_exp_def by simp
  have q: "of_int n / pow2 e = (of_int (n * 2 ^ nat (- e)) :: rat)"
    using e by (simp add: pow2_nonpos divide_inverse)
  show ?thesis
  proof (rule round_double_eqI)
    show "ulp_exp (of_int n) = e" by (simp add: e_def)
    show "rne (of_int n / pow2 e) = n * 2 ^ nat (- e)" by (simp only: q rne_of_int)
    show "of_int (n * 2 ^ nat (- e)) * pow2 e = (of_int n :: rat)"
      using e by (simp add: pow2_nonpos)
    show "(of_int n :: rat) \<noteq> 0" using False by simp
    have "(of_int \<bar>n\<bar> :: rat) \<le> of_int (2 ^ 53)"
      using assms by (simp only: of_int_le_iff)
    then show "\<bar>of_int n :: rat\<bar> \<le> 2 ^ 53" by simp
  qed
qed (simp add: round_double_def)

lemma js_add_int: "\<bar>m + n\<bar> < 2 ^ 53 \<Longrightarrow> js_add (js_int m) (js_int n) = js_int (m + n)"
  using round_double_int [of "m + n"] by (simp add: js_int_def)

lemma js_mul_int: "\<bar>m * n\<bar> < 2 ^ 53 \<Longrightarrow> js_mul (js_int m) (js_int n) = js_int (m * n)"
  using round_double_int [of "m * n"] by (simp add: js_int_def)

lemma js_int_simps [simp]:
  "js_isInteger (js_int n)"
  "js_lt (js_int m) (js_int n) \<longleftrightarrow> m < n"
  "js_le (js_int m) (js_int n) \<longleftrightarrow> m \<le> n"
  "js_int m = js_int n \<longleftrightarrow> m = n"
  by (auto simp: js_int_def js_le_def)

lemma js_isIntegerE: "js_isInteger x \<Longrightarrow> (\<And>n. x = js_int n \<Longrightarrow> thesis) \<Longrightarrow> thesis"
  by (cases x) (simp_all add: js_int_def, metis)

section \<open>Evaluating a rounding\<close>

lemma floor_rat_numeral [simp]:
  "\<lfloor>(numeral a / numeral b :: rat)\<rfloor> = numeral a div numeral b"
  "\<lfloor>(1 / numeral b :: rat)\<rfloor> = 1 div numeral b"
  "\<lfloor>(- (numeral a / numeral b) :: rat)\<rfloor> = (- numeral a) div numeral b"
  using floor_divide_of_int_eq [of "numeral a" "numeral b", where 'a = rat]
    floor_divide_of_int_eq [of 1 "numeral b", where 'a = rat]
    floor_divide_of_int_eq [of "- numeral a" "numeral b", where 'a = rat]
  by simp_all

lemmas double_eval = ulp_exp_def flog2_def ilog2.simps pow2_def rne_def Let_def ceiling_def

lemma round_tenth: "round_double (1 / 10) = Fin (3602879701896397 / 36028797018963968)"
  by (rule round_double_eqI [where e = "-56" and m = 7205759403792794])
    (simp_all add: double_eval)

end
