(* ===== verification/Tables.thy ===== *)
theory Tables
  imports JS_Number
begin

text \<open>
  The databases of the services: a table is the list of its rows, and the statements the
  services issue through TypeORM are given by their effect on the rows, with the constraints
  the migrations declare (a unique column refuses a duplicate, an \<open>integer\<close> column holds 32
  bits and raises \<open>integer out of range\<close> beyond them). A transaction returns the new tables
  or rolls back. The locales \<open>row_store\<close> and \<open>unique_store\<close> are the interface the services
  use, look up by key and save, with the laws their proofs need.
\<close>

section \<open>Statements on one table\<close>

definition find_row :: "('r \<Rightarrow> 'k) \<Rightarrow> 'k \<Rightarrow> 'r list \<Rightarrow> 'r option" where
  "find_row key k rows = find (\<lambda>r. key r = k) rows"

definition insert_row :: "('r \<Rightarrow> 'k) \<Rightarrow> 'r \<Rightarrow> 'r list \<Rightarrow> 'r list result" where
  "insert_row key r rows =
     (if key r \<in> set (map key rows)
      then Inl (Error ''duplicate key value violates unique constraint'')
      else Inr (rows @ [r]))"

definition update_rows :: "('r \<Rightarrow> 'k) \<Rightarrow> 'k \<Rightarrow> ('r \<Rightarrow> 'r) \<Rightarrow> 'r list \<Rightarrow> 'r list" where
  "update_rows key k f rows = map (\<lambda>r. if key r = k then f r else r) rows"

lemma find_row_simps [simp]:
  "find_row key k [] = None"
  "find_row key k (r # rows) = (if key r = k then Some r else find_row key k rows)"
  by (simp_all add: find_row_def)

lemma find_row_SomeD: "find_row key k rows = Some r \<Longrightarrow> r \<in> set rows \<and> key r = k"
  by (induction rows) (auto split: if_splits)

lemma find_row_None_iff: "find_row key k rows = None \<longleftrightarrow> k \<notin> key ` set rows"
  by (induction rows) auto

lemma find_row_notin: "k \<notin> key ` set rows \<Longrightarrow> find_row key k rows = None"
  by (simp add: find_row_None_iff)

lemma find_row_append:
  "find_row key k (rows @ ts) =
     (case find_row key k rows of Some r \<Rightarrow> Some r | None \<Rightarrow> find_row key k ts)"
  by (induction rows) auto

lemma find_row_member: "distinct (map key rows) \<Longrightarrow> r \<in> set rows \<Longrightarrow> find_row key (key r) rows = Some r"
  by (induction rows) (auto simp: image_iff)

lemma insert_row_Inr:
  "insert_row key r rows = Inr rows' \<longleftrightarrow> key r \<notin> key ` set rows \<and> rows' = rows @ [r]"
  by (auto simp: insert_row_def)

lemma insert_row_fresh: "key r \<notin> key ` set rows \<Longrightarrow> insert_row key r rows = Inr (rows @ [r])"
  by (simp add: insert_row_def)

lemma distinct_insert_row:
  "distinct (map key rows) \<Longrightarrow> insert_row key r rows = Inr rows' \<Longrightarrow> distinct (map key rows')"
  by (auto simp: insert_row_Inr)

lemma update_rows_keys:
  "(\<And>r. key (f r) = key r) \<Longrightarrow> map key (update_rows key k f rows) = map key rows"
  by (induction rows) (auto simp: update_rows_def)

lemma find_row_update:
  "(\<And>r. key (f r) = key r) \<Longrightarrow> find_row key k' (update_rows key k f rows) =
     (if k' = k then map_option f (find_row key k rows) else find_row key k' rows)"
  by (induction rows) (auto simp: update_rows_def)

lemma update_rows_absent: "k \<notin> key ` set rows \<Longrightarrow> update_rows key k f rows = rows"
  by (induction rows) (auto simp: update_rows_def)

lemma set_update_rows: "r \<in> set (update_rows key k f rows) \<Longrightarrow>
    (\<exists>r0 \<in> set rows. key r0 = k \<and> r = f r0) \<or> (r \<in> set rows \<and> key r \<noteq> k)"
  by (auto simp: update_rows_def split: if_splits)

lemma update_rows_twice:
  "(\<And>r. key (f r) = key r) \<Longrightarrow>
     update_rows key k g (update_rows key k f rows) = update_rows key k (g \<circ> f) rows"
  by (induction rows) (auto simp: update_rows_def)

text \<open>Where the key is unique, an update replaces one summand of a sum over the rows.\<close>

lemma sum_of_update:
  assumes "distinct (map key rows)" and "find_row key k rows = Some r"
  shows "sum_of g (update_rows key k f rows) = sum_of g rows - g r + g (f r)"
  using assms
proof (induction rows)
  case (Cons a rows)
  show ?case
  proof (cases "key a = k")
    case True
    with Cons.prems have "k \<notin> key ` set rows" and "a = r" by auto
    with True show ?thesis
      using update_rows_absent [of k key rows f] by (simp add: update_rows_def)
  next
    case False
    with Cons show ?thesis by (simp add: update_rows_def)
  qed
qed simp

section \<open>Integer columns\<close>

text \<open>The value of an expression stored in, or computed on, an \<open>integer\<close> column.\<close>

definition int4_max :: int where
  "int4_max = 2147483647"

definition int4 :: "int \<Rightarrow> int result" where
  "int4 n = (if - int4_max - 1 \<le> n \<and> n \<le> int4_max then Inr n
     else Inl (Error ''integer out of range''))"

lemma int4_Inr: "int4 n = Inr m \<longleftrightarrow> m = n \<and> - int4_max - 1 \<le> n \<and> n \<le> int4_max"
  by (auto simp: int4_def)

lemma int4_ok: "0 \<le> n \<Longrightarrow> n \<le> int4_max \<Longrightarrow> int4 n = Inr n"
  by (simp add: int4_def int4_max_def)

text \<open>Assignment of a numeric value to an \<open>integer\<close> column rounds, ties away from zero.\<close>

definition pg_round :: "rat \<Rightarrow> int" where
  "pg_round q = (if 0 \<le> q then \<lfloor>q + 1 / 2\<rfloor> else - \<lfloor>1 / 2 - q\<rfloor>)"

lemma pg_round_of_int [simp]: "pg_round (of_int n) = n"
  by (simp add: pg_round_def floor_eq_iff)

text \<open>A number bound to a parameter that is compared with an integer expression.\<close>

fun int4_param :: "js_number \<Rightarrow> int result" where
  "int4_param (Fin q) = (if of_int \<lfloor>q\<rfloor> = q then int4 \<lfloor>q\<rfloor>
     else Inl (Error ''invalid input syntax for type integer''))"
| "int4_param _ = Inl (Error ''invalid input syntax for type integer'')"

lemma int4_param_js_int [simp]: "int4_param (js_int n) = int4 n"
  by (simp add: js_int_def)

section \<open>Transactions\<close>

text \<open>\<open>dataSource.transaction\<close>: the callback works on the tables; if it throws, the tables are
  those of before.\<close>

fun transaction :: "('db \<Rightarrow> 'e + 'a \<times> 'db) \<Rightarrow> 'db \<Rightarrow> ('e + 'a) \<times> 'db" where
  "transaction body db = (case body db of Inl e \<Rightarrow> (Inl e, db) | Inr (a, db') \<Rightarrow> (Inr a, db'))"

lemma transaction_rollback: "fst (transaction body db) = Inl e \<Longrightarrow> snd (transaction body db) = db"
  by (auto split: sum.splits prod.splits)

section \<open>The interface of a repository\<close>

text \<open>
  \<open>findOne\<close> by a column and \<open>save\<close> of a new row. \<open>row_store\<close> holds without a unique constraint,
  as for payments; \<open>unique_store\<close> adds what the unique column of users, products, stock items
  and reservations gives: a second row with a key is refused and the first one stays.
\<close>

locale row_store =
  fixes key :: "'r \<Rightarrow> 'k"
    and findOne :: "'k \<Rightarrow> 'db \<Rightarrow> 'r option"
    and save :: "'r \<Rightarrow> 'db \<Rightarrow> 'db result"
  assumes find_key: "findOne k db = Some r \<Longrightarrow> key r = k"
    and save_fresh: "findOne (key r) db = None \<Longrightarrow> \<exists>db'. save r db = Inr db'"
    and find_saved: "save r db = Inr db' \<Longrightarrow> findOne (key r) db = None \<Longrightarrow> findOne (key r) db' = Some r"
    and find_other: "save r db = Inr db' \<Longrightarrow> k \<noteq> key r \<Longrightarrow> findOne k db' = findOne k db"
    and find_first: "save r db = Inr db' \<Longrightarrow> findOne k db = Some r0 \<Longrightarrow> findOne k db' = Some r0"
begin

lemma save_keeps_known: "save r db = Inr db' \<Longrightarrow> findOne k db \<noteq> None \<Longrightarrow> findOne k db' = findOne k db"
  by (auto dest: find_first)

lemma save_then_known: "save r db = Inr db' \<Longrightarrow> findOne (key r) db' \<noteq> None"
  by (cases "findOne (key r) db") (auto dest: find_saved find_first)

end

locale unique_store = row_store +
  assumes save_refused: "findOne (key r) db \<noteq> None \<Longrightarrow> \<exists>e. save r db = Inl e"
begin

lemma save_iff_fresh: "(\<exists>db'. save r db = Inr db') \<longleftrightarrow> findOne (key r) db = None"
  using save_refused [of r db] save_fresh [of r db] by fastforce

lemma saved_is_found: "save r db = Inr db' \<Longrightarrow> findOne (key r) db' = Some r"
  using save_iff_fresh [of r db] by (blast intro: find_saved)

lemma save_twice_refused: "save r db = Inr db' \<Longrightarrow> key r' = key r \<Longrightarrow> \<exists>e. save r' db' = Inl e"
  using save_refused [of r' db'] saved_is_found [of r db db'] by auto

end

text \<open>A table with a unique column provides the interface, whatever the row type.\<close>

lemma unique_table_store: "unique_store key (find_row key) (insert_row key)"
  by unfold_locales
    (auto simp: insert_row_def find_row_None_iff find_row_notin find_row_append
      dest: find_row_SomeD split: if_splits option.splits)

text \<open>A table without one, where \<open>save\<close> always appends.\<close>

definition append_row :: "'r \<Rightarrow> 'r list \<Rightarrow> 'r list result" where
  "append_row r rows = Inr (rows @ [r])"

lemma plain_table_store: "row_store key (find_row key) append_row"
  by unfold_locales
    (auto simp: append_row_def find_row_append dest: find_row_SomeD split: option.splits)

end
