(* ===== verification/Inventory.thy ===== *)
theory Inventory
  imports Tables
begin

text \<open>
  The inventory service: stock rows with an available and a reserved quantity, one reservation
  per order, and the three RPC handlers \<open>reserve\<close>, \<open>confirm\<close> and \<open>release\<close> of
  \<open>inventory-service/src/inventory/inventory.service.ts\<close>. A handler reads the reservation
  outside its transaction and then runs the transaction; the two halves are separate
  definitions, so that the concurrency theory can interleave them.
\<close>

section \<open>Data\<close>

datatype ReservationStatus = RESERVED | CONFIRMED | RELEASED

record ReservedItem =
  item_productId :: string
  item_quantity :: js_number

text \<open>The generated columns \<open>id\<close> and \<open>createdAt\<close> of the two tables are never read and are left out.\<close>

record Reservation =
  res_orderId :: string
  res_items :: "ReservedItem list"
  res_status :: ReservationStatus

record StockItem =
  stock_productId :: string
  availableQuantity :: int
  reservedQuantity :: int

record InventoryDB =
  stock_items :: "StockItem list"
  reservations :: "Reservation list"

definition empty_inventory :: InventoryDB where
  "empty_inventory = \<lparr>stock_items = [], reservations = []\<rparr>"

record ReserveRequest =
  req_orderId :: string
  req_items :: "ReservedItem list"

record RpcResult =
  success :: bool
  reason :: "string option"

datatype inventory_exn = InsufficientStockError string | DatabaseError exn

text \<open>
  What may go wrong in the database while a handler runs: the lookup of the reservation
  rejects, or the statements of the \<open>k\<close>-th item of the transaction reject (after the items,
  saving the reservation, and after that the commit).
\<close>

record inventory_faults =
  lookup_fault :: "exn option"
  tx_fault :: "nat option"

definition no_faults :: inventory_faults where
  "no_faults = \<lparr>lookup_fault = None, tx_fault = None\<rparr>"

definition DEFAULT_STOCK_QUANTITY :: int where
  "DEFAULT_STOCK_QUANTITY = 1000"

abbreviation connection_lost :: exn where
  "connection_lost \<equiv> Error ''Connection terminated''"

abbreviation findReservation :: "string \<Rightarrow> InventoryDB \<Rightarrow> Reservation option" where
  "findReservation oid db \<equiv> find_row res_orderId oid (reservations db)"

abbreviation findStock :: "string \<Rightarrow> InventoryDB \<Rightarrow> StockItem option" where
  "findStock pid db \<equiv> find_row stock_productId pid (stock_items db)"

section \<open>Reserving\<close>

definition ensureStockExists :: "string \<Rightarrow> InventoryDB \<Rightarrow> InventoryDB result" where
  "ensureStockExists pid db = (case findStock pid db of
     Some _ \<Rightarrow> Inr db
   | None \<Rightarrow> (case insert_row stock_productId
         \<lparr>stock_productId = pid, availableQuantity = DEFAULT_STOCK_QUANTITY, reservedQuantity = 0\<rparr>
         (stock_items db) of
       Inl e \<Rightarrow> Inl e
     | Inr rows \<Rightarrow> Inr (db\<lparr>stock_items := rows\<rparr>)))"

text \<open>
  \<open>UPDATE stock_items SET "reservedQuantity" = "reservedQuantity" + n WHERE "productId" = pid
  AND "availableQuantity" - "reservedQuantity" >= n\<close>, with the number of rows it affected.
\<close>

definition reserve_update :: "string \<Rightarrow> js_number \<Rightarrow> InventoryDB \<Rightarrow> (nat \<times> InventoryDB) result" where
  "reserve_update pid n db = (case int4_param n of
     Inl e \<Rightarrow> Inl e
   | Inr q \<Rightarrow> (case findStock pid db of
       None \<Rightarrow> Inr (0, db)
     | Some s \<Rightarrow> (case int4 (availableQuantity s - reservedQuantity s) of
         Inl e \<Rightarrow> Inl e
       | Inr free \<Rightarrow> (if free < q then Inr (0, db)
           else case int4 (reservedQuantity s + q) of
             Inl e \<Rightarrow> Inl e
           | Inr r \<Rightarrow> Inr (1, db\<lparr>stock_items :=
               update_rows stock_productId pid (\<lambda>s. s\<lparr>reservedQuantity := r\<rparr>) (stock_items db)\<rparr>)))))"

definition reserve_item :: "bool \<Rightarrow> ReservedItem \<Rightarrow> InventoryDB \<Rightarrow> inventory_exn + InventoryDB" where
  "reserve_item fault item db = (let quantity = item_quantity item in
     if \<not> js_isInteger quantity \<or> js_le quantity (js_int 0)
     then Inl (InsufficientStockError (item_productId item))
     else if fault then Inl (DatabaseError connection_lost)
     else case ensureStockExists (item_productId item) db of
       Inl e \<Rightarrow> Inl (DatabaseError e)
     | Inr db1 \<Rightarrow> (case reserve_update (item_productId item) quantity db1 of
         Inl e \<Rightarrow> Inl (DatabaseError e)
       | Inr (affected, db2) \<Rightarrow>
           (if affected = 0 then Inl (InsufficientStockError (item_productId item)) else Inr db2)))"

text \<open>The loop over the items; the first argument counts down to the fault, if there is one.\<close>

fun reserve_items :: "nat option \<Rightarrow> ReservedItem list \<Rightarrow> InventoryDB \<Rightarrow>
    inventory_exn + (nat option \<times> InventoryDB)" where
  "reserve_items fault [] db = Inr (fault, db)"
| "reserve_items fault (item # items) db = (case reserve_item (fault = Some 0) item db of
     Inl e \<Rightarrow> Inl e
   | Inr db' \<Rightarrow> reserve_items (map_option (\<lambda>k. k - 1) fault) items db')"

definition reserve_body :: "nat option \<Rightarrow> ReserveRequest \<Rightarrow> InventoryDB \<Rightarrow> inventory_exn + unit \<times> InventoryDB" where
  "reserve_body fault request db = (case reserve_items fault (req_items request) db of
     Inl e \<Rightarrow> Inl e
   | Inr (fault', db1) \<Rightarrow> (case attempt (map_option (\<lambda>_. connection_lost) fault')
         (insert_row res_orderId
           \<lparr>res_orderId = req_orderId request, res_items = req_items request, res_status = RESERVED\<rparr>
           (reservations db1)) of
       Inl e \<Rightarrow> Inl (DatabaseError e)
     | Inr rows \<Rightarrow> Inr ((), db1\<lparr>reservations := rows\<rparr>)))"

text \<open>The transaction of \<open>reserve\<close> and what the \<open>catch\<close> makes of its exceptions.\<close>

definition reserve_tx :: "nat option \<Rightarrow> ReserveRequest \<Rightarrow> InventoryDB \<Rightarrow> RpcResult \<times> InventoryDB" where
  "reserve_tx fault request db = (case transaction (reserve_body fault request) db of
     (Inr _, db') \<Rightarrow> (\<lparr>success = True, reason = None\<rparr>, db')
   | (Inl (InsufficientStockError pid), db') \<Rightarrow>
       (\<lparr>success = False, reason = Some (''insufficient_stock:'' @ pid)\<rparr>, db')
   | (Inl (DatabaseError _), db') \<Rightarrow> (\<lparr>success = False, reason = Some ''internal_error''\<rparr>, db'))"

definition reserve :: "inventory_faults \<Rightarrow> ReserveRequest \<Rightarrow> bool \<Rightarrow> InventoryDB \<Rightarrow>
    RpcResult reply \<times> InventoryDB" where
  "reserve faults request redelivered db =
     (if redelivered then (Nack False, db)
      else case attempt (lookup_fault faults) (Inr (findReservation (req_orderId request) db)) of
        Inl _ \<Rightarrow> (Reply \<lparr>success = False, reason = Some ''internal_error''\<rparr>, db)
      | Inr (Some existing) \<Rightarrow>
          (Reply \<lparr>success = res_status existing \<noteq> RELEASED, reason = None\<rparr>, db)
      | Inr None \<Rightarrow> (case reserve_tx (tx_fault faults) request db of (r, db') \<Rightarrow> (Reply r, db')))"

section \<open>Confirming and releasing\<close>

text \<open>
  \<open>manager.decrement(StockItem, {productId}, column, n)\<close>: a value that is not a number is
  refused, otherwise \<open>column - n\<close> is stored. The column is given by its reader and writer.
\<close>

definition decrement :: "(StockItem \<Rightarrow> int) \<Rightarrow> (int \<Rightarrow> StockItem \<Rightarrow> StockItem) \<Rightarrow> string \<Rightarrow> js_number \<Rightarrow>
    InventoryDB \<Rightarrow> InventoryDB result" where
  "decrement get put pid n db = (case n of
     Fin q \<Rightarrow> (case findStock pid db of
         None \<Rightarrow> Inr db
       | Some s \<Rightarrow> (case int4 (pg_round (of_int (get s) - q)) of
           Inl e \<Rightarrow> Inl e
         | Inr v \<Rightarrow> Inr (db\<lparr>stock_items :=
             update_rows stock_productId pid (put v) (stock_items db)\<rparr>)))
   | NaN \<Rightarrow> Inl (Error ''Value is not a number'')
   | _ \<Rightarrow> Inl (Error ''column infinity does not exist''))"

abbreviation decrement_available :: "string \<Rightarrow> js_number \<Rightarrow> InventoryDB \<Rightarrow> InventoryDB result" where
  "decrement_available \<equiv> decrement availableQuantity (\<lambda>v s. s\<lparr>availableQuantity := v\<rparr>)"

abbreviation decrement_reserved :: "string \<Rightarrow> js_number \<Rightarrow> InventoryDB \<Rightarrow> InventoryDB result" where
  "decrement_reserved \<equiv> decrement reservedQuantity (\<lambda>v s. s\<lparr>reservedQuantity := v\<rparr>)"

fun confirm_items :: "nat option \<Rightarrow> ReservedItem list \<Rightarrow> InventoryDB \<Rightarrow> (nat option \<times> InventoryDB) result" where
  "confirm_items fault [] db = Inr (fault, db)"
| "confirm_items fault (item # items) db =
     (if fault = Some 0 then Inl connection_lost
      else case decrement_available (item_productId item) (item_quantity item) db of
        Inl e \<Rightarrow> Inl e
      | Inr db1 \<Rightarrow> (case decrement_reserved (item_productId item) (item_quantity item) db1 of
          Inl e \<Rightarrow> Inl e
        | Inr db2 \<Rightarrow> confirm_items (map_option (\<lambda>k. k - 1) fault) items db2))"

fun release_items :: "nat option \<Rightarrow> ReservedItem list \<Rightarrow> InventoryDB \<Rightarrow> (nat option \<times> InventoryDB) result" where
  "release_items fault [] db = Inr (fault, db)"
| "release_items fault (item # items) db =
     (if fault = Some 0 then Inl connection_lost
      else case decrement_reserved (item_productId item) (item_quantity item) db of
        Inl e \<Rightarrow> Inl e
      | Inr db1 \<Rightarrow> release_items (map_option (\<lambda>k. k - 1) fault) items db1)"

text \<open>\<open>reservation.status = st; manager.save(Reservation, reservation)\<close>, unless a fault remains.\<close>

definition save_status :: "nat option \<Rightarrow> string \<Rightarrow> ReservationStatus \<Rightarrow> InventoryDB \<Rightarrow> (unit \<times> InventoryDB) result" where
  "save_status fault oid st db = attempt (map_option (\<lambda>_. connection_lost) fault)
     (Inr ((), db\<lparr>reservations :=
        update_rows res_orderId oid (\<lambda>r. r\<lparr>res_status := st\<rparr>) (reservations db)\<rparr>))"

definition confirm_body :: "nat option \<Rightarrow> Reservation \<Rightarrow> InventoryDB \<Rightarrow> (unit \<times> InventoryDB) result" where
  "confirm_body fault reservation db = (case confirm_items fault (res_items reservation) db of
     Inl e \<Rightarrow> Inl e
   | Inr (fault', db1) \<Rightarrow> save_status fault' (res_orderId reservation) CONFIRMED db1)"

definition release_body :: "nat option \<Rightarrow> Reservation \<Rightarrow> InventoryDB \<Rightarrow> (unit \<times> InventoryDB) result" where
  "release_body fault reservation db = (case release_items fault (res_items reservation) db of
     Inl e \<Rightarrow> Inl e
   | Inr (fault', db1) \<Rightarrow> save_status fault' (res_orderId reservation) RELEASED db1)"

definition rpc_of_tx :: "'a result \<Rightarrow> RpcResult" where
  "rpc_of_tx r = (case r of Inl _ \<Rightarrow> \<lparr>success = False, reason = Some ''internal_error''\<rparr>
     | Inr _ \<Rightarrow> \<lparr>success = True, reason = None\<rparr>)"

definition confirm_tx :: "nat option \<Rightarrow> Reservation \<Rightarrow> InventoryDB \<Rightarrow> RpcResult \<times> InventoryDB" where
  "confirm_tx fault reservation db = apfst rpc_of_tx (transaction (confirm_body fault reservation) db)"

definition release_tx :: "nat option \<Rightarrow> Reservation \<Rightarrow> InventoryDB \<Rightarrow> RpcResult \<times> InventoryDB" where
  "release_tx fault reservation db = apfst rpc_of_tx (transaction (release_body fault reservation) db)"

definition confirm :: "inventory_faults \<Rightarrow> string \<Rightarrow> bool \<Rightarrow> InventoryDB \<Rightarrow> RpcResult reply \<times> InventoryDB" where
  "confirm faults oid redelivered db =
     (if redelivered then (Nack False, db)
      else case attempt (lookup_fault faults) (Inr (findReservation oid db)) of
        Inl _ \<Rightarrow> (Reply \<lparr>success = False, reason = Some ''internal_error''\<rparr>, db)
      | Inr None \<Rightarrow> (Reply \<lparr>success = False, reason = Some ''reservation_not_found''\<rparr>, db)
      | Inr (Some reservation) \<Rightarrow>
          (if res_status reservation = CONFIRMED
           then (Reply \<lparr>success = True, reason = None\<rparr>, db)
           else apfst Reply (confirm_tx (tx_fault faults) reservation db)))"

definition release :: "inventory_faults \<Rightarrow> string \<Rightarrow> bool \<Rightarrow> InventoryDB \<Rightarrow> RpcResult reply \<times> InventoryDB" where
  "release faults oid redelivered db =
     (if redelivered then (Nack False, db)
      else case attempt (lookup_fault faults) (Inr (findReservation oid db)) of
        Inl _ \<Rightarrow> (Reply \<lparr>success = False, reason = Some ''internal_error''\<rparr>, db)
      | Inr None \<Rightarrow> (Reply \<lparr>success = True, reason = None\<rparr>, db)
      | Inr (Some reservation) \<Rightarrow>
          (if res_status reservation \<noteq> RESERVED
           then (Reply \<lparr>success = True, reason = None\<rparr>, db)
           else apfst Reply (release_tx (tx_fault faults) reservation db)))"

end
