(* ===== verification/Inventory_Correct.thy ===== *)
theory Inventory_Correct
  imports Inventory
begin

text \<open>
  Lemmas of the inventory statements: what a client sees of a product (\<open>avail\<close>, \<open>resv\<close>; a
  product without a row looks like the row \<open>ensureStockExists\<close> would seed), when the item loop
  of \<open>reserve\<close> goes through and what it does to the stock, the same for the loops of \<open>confirm\<close>
  and \<open>release\<close>, and that a database fault makes every transaction throw.
\<close>

section \<open>The stock as its clients see it\<close>

definition qty :: "js_number \<Rightarrow> int" where
  "qty n = (case n of Fin q \<Rightarrow> \<lfloor>q\<rfloor> | _ \<Rightarrow> 0)"

definition item_valid :: "ReservedItem \<Rightarrow> bool" where
  "item_valid i \<longleftrightarrow> js_isInteger (item_quantity i) \<and> \<not> js_le (item_quantity i) (js_int 0)"

definition demand :: "string \<Rightarrow> ReservedItem list \<Rightarrow> int" where
  "demand p items = sum_of (\<lambda>i. if item_productId i = p then qty (item_quantity i) else 0) items"

definition avail :: "string \<Rightarrow> InventoryDB \<Rightarrow> int" where
  "avail p db = (case findStock p db of Some s \<Rightarrow> availableQuantity s | None \<Rightarrow> DEFAULT_STOCK_QUANTITY)"

definition resv :: "string \<Rightarrow> InventoryDB \<Rightarrow> int" where
  "resv p db = (case findStock p db of Some s \<Rightarrow> reservedQuantity s | None \<Rightarrow> 0)"

definition stock_row_ok :: "StockItem \<Rightarrow> bool" where
  "stock_row_ok s \<longleftrightarrow> 0 \<le> reservedQuantity s \<and> reservedQuantity s \<le> availableQuantity s \<and>
     availableQuantity s \<le> int4_max"

definition stock_ok :: "InventoryDB \<Rightarrow> bool" where
  "stock_ok db \<longleftrightarrow> distinct (map stock_productId (stock_items db)) \<and>
     (\<forall>s \<in> set (stock_items db). stock_row_ok s)"

lemma qty_js_int [simp]: "qty (js_int n) = n"
  by (simp add: qty_def js_int_def)

lemma item_valid_iff: "item_valid i \<longleftrightarrow> (\<exists>n > 0. item_quantity i = js_int n)"
  by (auto simp: item_valid_def elim: js_isIntegerE)

lemma item_validE:
  assumes "item_valid i"
  obtains n where "item_quantity i = js_int n" and "0 < n" and "qty (item_quantity i) = n"
  using assms by (auto simp: item_valid_iff)

lemma demand_simps [simp]:
  "demand p [] = 0"
  "demand p (i # items) = (if item_productId i = p then qty (item_quantity i) else 0) + demand p items"
  by (simp_all add: demand_def)

lemma item_valid_qty: "item_valid i \<Longrightarrow> 0 < qty (item_quantity i)"
  by (auto elim: item_validE)

lemma demand_nonneg: "\<forall>i \<in> set items. item_valid i \<Longrightarrow> 0 \<le> demand p items"
  unfolding demand_def by (rule sum_of_nonneg) (auto dest!: bspec item_valid_qty)

lemma stock_okD: "stock_ok db \<Longrightarrow> findStock p db = Some s \<Longrightarrow> stock_row_ok s"
  by (auto simp: stock_ok_def dest: find_row_SomeD)

lemma stock_ok_bounds:
  assumes "stock_ok db"
  shows "0 \<le> resv p db" and "resv p db \<le> avail p db" and "avail p db \<le> int4_max"
  using stock_okD [OF assms, of p]
  by (auto simp: resv_def avail_def stock_row_ok_def DEFAULT_STOCK_QUANTITY_def int4_max_def
      split: option.splits)

text \<open>Storing a row for a product replaces what is seen of that product only.\<close>

lemma stock_ok_update:
  assumes "stock_ok db" and "\<And>s. stock_productId (f s) = stock_productId s"
    and "\<And>s. findStock pid db = Some s \<Longrightarrow> stock_row_ok (f s)"
  shows "stock_ok (db\<lparr>stock_items := update_rows stock_productId pid f (stock_items db)\<rparr>)"
  using assms
  by (auto simp: stock_ok_def update_rows_keys find_row_member dest!: set_update_rows)

lemma seen_after_update:
  assumes "findStock pid db = Some s" and "\<And>s. stock_productId (f s) = stock_productId s"
  shows "avail p (db\<lparr>stock_items := update_rows stock_productId pid f (stock_items db)\<rparr>) =
      (if p = pid then availableQuantity (f s) else avail p db)"
    and "resv p (db\<lparr>stock_items := update_rows stock_productId pid f (stock_items db)\<rparr>) =
      (if p = pid then reservedQuantity (f s) else resv p db)"
  using assms by (simp_all add: avail_def resv_def find_row_update)

lemma seen_of_row:
  "findStock pid db = Some s \<Longrightarrow> avail pid db = availableQuantity s"
  "findStock pid db = Some s \<Longrightarrow> resv pid db = reservedQuantity s"
  by (simp_all add: avail_def resv_def)

lemma ensureStockExists_ok:
  assumes "stock_ok db"
  obtains db1 s where "ensureStockExists pid db = Inr db1" and "stock_ok db1"
    and "findStock pid db1 = Some s" and "\<And>p. avail p db1 = avail p db"
    and "\<And>p. resv p db1 = resv p db" and "reservations db1 = reservations db"
proof (cases "findStock pid db")
  case (Some s)
  then show ?thesis using that [of db s] assms by (simp add: ensureStockExists_def)
next
  case None
  let ?s = "\<lparr>stock_productId = pid, availableQuantity = DEFAULT_STOCK_QUANTITY, reservedQuantity = 0\<rparr>"
  let ?db1 = "db\<lparr>stock_items := stock_items db @ [?s]\<rparr>"
  have "ensureStockExists pid db = Inr ?db1"
    using None None [unfolded find_row_None_iff] by (simp add: ensureStockExists_def insert_row_fresh)
  moreover have "stock_ok ?db1"
    using assms None by (auto simp: stock_ok_def stock_row_ok_def find_row_None_iff
        DEFAULT_STOCK_QUANTITY_def int4_max_def)
  moreover have "findStock pid ?db1 = Some ?s"
    using None by (simp add: find_row_append)
  ultimately show ?thesis
    using that [of ?db1 ?s] None
    by (auto simp: avail_def resv_def find_row_append split: option.splits)
qed

lemma reserve_update_ok:
  assumes "stock_ok db" and "findStock pid db = Some s" and "0 < n"
  shows "n \<le> avail pid db - resv pid db \<Longrightarrow> reserve_update pid (js_int n) db =
      Inr (1, db\<lparr>stock_items := update_rows stock_productId pid
        (\<lambda>r. r\<lparr>reservedQuantity := reservedQuantity s + n\<rparr>) (stock_items db)\<rparr>)"
    and "avail pid db - resv pid db < n \<Longrightarrow> reserve_update pid (js_int n) db \<in>
      {Inr (0, db), Inl (Error ''integer out of range'')}"
proof -
  have ok: "0 \<le> reservedQuantity s" "reservedQuantity s \<le> availableQuantity s" "availableQuantity s \<le> int4_max"
    using stock_okD [OF assms(1,2)] by (auto simp: stock_row_ok_def)
  then have free: "int4 (availableQuantity s - reservedQuantity s) = Inr (availableQuantity s - reservedQuantity s)"
    by (intro int4_ok) auto
  {
    assume n: "n \<le> avail pid db - resv pid db"
    then have "int4 n = Inr n" and "int4 (reservedQuantity s + n) = Inr (reservedQuantity s + n)"
      using assms ok by (auto simp: avail_def resv_def intro!: int4_ok)
    with n free assms(2) show "reserve_update pid (js_int n) db =
      Inr (1, db\<lparr>stock_items := update_rows stock_productId pid
        (\<lambda>r. r\<lparr>reservedQuantity := reservedQuantity s + n\<rparr>) (stock_items db)\<rparr>)"
      by (simp add: reserve_update_def avail_def resv_def)
  }
  assume "avail pid db - resv pid db < n"
  with free assms(2) show "reserve_update pid (js_int n) db \<in> {Inr (0, db), Inl (Error ''integer out of range'')}"
    by (auto simp: reserve_update_def avail_def resv_def int4_def)
qed

lemma reserve_item_ok:
  assumes ok: "stock_ok db" and valid: "item_valid i"
    and enough: "qty (item_quantity i) \<le> avail (item_productId i) db - resv (item_productId i) db"
  obtains db' where "reserve_item False i db = Inr db'" and "stock_ok db'"
    and "\<And>p. avail p db' = avail p db"
    and "\<And>p. resv p db' = resv p db + (if item_productId i = p then qty (item_quantity i) else 0)"
    and "reservations db' = reservations db"
proof -
  let ?pid = "item_productId i"
  obtain n where n: "item_quantity i = js_int n" "0 < n" "qty (item_quantity i) = n"
    using valid by (rule item_validE)
  obtain db1 s where db1: "ensureStockExists ?pid db = Inr db1" "stock_ok db1"
    "findStock ?pid db1 = Some s" "\<And>p. avail p db1 = avail p db" "\<And>p. resv p db1 = resv p db"
    "reservations db1 = reservations db"
    using ok by (rule ensureStockExists_ok [where pid = ?pid]) blast
  let ?f = "\<lambda>r. r\<lparr>reservedQuantity := reservedQuantity s + n\<rparr>"
  let ?db2 = "db1\<lparr>stock_items := update_rows stock_productId ?pid ?f (stock_items db1)\<rparr>"
  have le: "n \<le> avail ?pid db1 - resv ?pid db1"
    using enough n db1 by simp
  have "reserve_update ?pid (js_int n) db1 = Inr (1, ?db2)"
    using reserve_update_ok(1) [OF db1(2,3) n(2) le] .
  then have "reserve_item False i db = Inr ?db2"
    using n db1 by (simp add: reserve_item_def Let_def)
  moreover have "stock_ok ?db2"
    using db1 le n stock_okD [OF db1(2,3)]
    by (intro stock_ok_update) (auto simp: stock_row_ok_def avail_def resv_def)
  moreover have "avail p ?db2 = avail p db" for p
    using seen_after_update(1) [OF db1(3), of ?f p] db1(4) [of p] seen_of_row(1) [OF db1(3)]
    by (cases "p = ?pid") simp_all
  moreover have "resv p ?db2 = resv p db + (if ?pid = p then qty (item_quantity i) else 0)" for p
    using seen_after_update(2) [OF db1(3), of ?f p] db1(5) [of p] seen_of_row(2) [OF db1(3)] n
    by (cases "p = ?pid") simp_all
  ultimately show ?thesis
    using that [of ?db2] db1(6) by simp
qed

lemma reserve_item_fails:
  assumes "stock_ok db"
    and "\<not> item_valid i \<or> avail (item_productId i) db - resv (item_productId i) db < qty (item_quantity i)"
  shows "\<exists>e. reserve_item fault i db = Inl e"
proof (cases "item_valid i \<and> \<not> fault")
  case True
  then obtain n where n: "item_quantity i = js_int n" "0 < n" "qty (item_quantity i) = n"
    by (auto elim: item_validE)
  obtain db1 s where db1: "ensureStockExists (item_productId i) db = Inr db1" "stock_ok db1"
    "findStock (item_productId i) db1 = Some s" "\<And>p. avail p db1 = avail p db"
    "\<And>p. resv p db1 = resv p db"
    using assms(1) by (rule ensureStockExists_ok [where pid = "item_productId i"]) blast
  show ?thesis
    using True assms(2) n db1 reserve_update_ok(2) [OF db1(2,3) n(2)]
    by (auto simp: reserve_item_def Let_def)
qed (auto simp: reserve_item_def item_valid_def Let_def)

lemma reserve_items_ok:
  assumes "stock_ok db" and "\<forall>i \<in> set items. item_valid i"
    and "\<forall>p. demand p items \<le> avail p db - resv p db"
  shows "\<exists>db'. reserve_items None items db = Inr (None, db') \<and> stock_ok db' \<and>
    (\<forall>p. avail p db' = avail p db) \<and> (\<forall>p. resv p db' = resv p db + demand p items) \<and>
    reservations db' = reservations db"
  using assms
proof (induction items arbitrary: db)
  case (Cons i items)
  have "qty (item_quantity i) \<le> avail (item_productId i) db - resv (item_productId i) db"
    using Cons.prems(3) [rule_format, of "item_productId i"] Cons.prems(2)
      demand_nonneg [of items "item_productId i"] by auto
  with Cons.prems obtain db1 where db1: "reserve_item False i db = Inr db1" "stock_ok db1"
    "\<And>p. avail p db1 = avail p db"
    "\<And>p. resv p db1 = resv p db + (if item_productId i = p then qty (item_quantity i) else 0)"
    "reservations db1 = reservations db"
    by (auto elim: reserve_item_ok)
  have "\<forall>p. demand p items \<le> avail p db1 - resv p db1"
    using Cons.prems(3) db1 by (fastforce simp: algebra_simps)
  with Cons.IH [OF db1(2)] Cons.prems(2) obtain db' where
    "reserve_items None items db1 = Inr (None, db')" "stock_ok db'" "\<forall>p. avail p db' = avail p db1"
    "\<forall>p. resv p db' = resv p db1 + demand p items" "reservations db' = reservations db1"
    by auto
  with db1 show ?case by auto
qed simp

lemma reserve_items_succeeds:
  assumes "stock_ok db" and "reserve_items fault items db = Inr (fault', db')"
  shows "(\<forall>i \<in> set items. item_valid i) \<and> (\<forall>p. demand p items \<le> avail p db - resv p db)"
  using assms
proof (induction items arbitrary: fault db)
  case Nil
  then show ?case using stock_ok_bounds(2) by (simp add: le_diff_eq)
next
  case (Cons i items)
  then obtain db1 where item: "reserve_item (fault = Some 0) i db = Inr db1"
    and rest: "reserve_items (map_option (\<lambda>k. k - 1) fault) items db1 = Inr (fault', db')"
    by (auto split: sum.splits)
  have ok: "item_valid i" "qty (item_quantity i) \<le> avail (item_productId i) db - resv (item_productId i) db"
    using item reserve_item_fails [OF Cons.prems(1), of i "fault = Some 0"] by force+
  moreover have "fault \<noteq> Some 0"
    using item ok by (auto simp: reserve_item_def item_valid_def Let_def)
  ultimately have item: "reserve_item False i db = Inr db1"
    using item by simp
  have db1: "stock_ok db1" "avail p db1 = avail p db"
    "resv p db1 = resv p db + (if item_productId i = p then qty (item_quantity i) else 0)" for p
    using item by (auto intro: reserve_item_ok [OF Cons.prems(1) ok])
  from Cons.IH [OF db1(1) rest] ok db1 show ?case
    by (fastforce simp: algebra_simps)
qed


section \<open>Decrements\<close>

lemma decrement_js_int:
  assumes "findStock pid db = Some s" and "- int4_max - 1 \<le> get s - n" and "get s - n \<le> int4_max"
  shows "decrement get put pid (js_int n) db = Inr (db\<lparr>stock_items :=
    update_rows stock_productId pid (put (get s - n)) (stock_items db)\<rparr>)"
proof -
  have "pg_round (of_int (get s) - of_int n) = get s - n"
    by (metis of_int_diff pg_round_of_int)
  with assms show ?thesis by (simp add: decrement_def js_int_def int4_def)
qed

lemma resv_pos_row:
  assumes "0 < resv pid db"
  obtains s where "findStock pid db = Some s" and "resv pid db = reservedQuantity s"
    and "avail pid db = availableQuantity s"
  using assms that by (auto simp: resv_def avail_def split: option.splits)

lemma decrement_reserved_ok:
  assumes "stock_ok db" and "0 < n" and "n \<le> resv pid db"
  obtains db' where "decrement_reserved pid (js_int n) db = Inr db'" and "stock_ok db'"
    and "\<And>p. avail p db' = avail p db"
    and "\<And>p. resv p db' = resv p db - (if pid = p then n else 0)"
    and "reservations db' = reservations db"
proof -
  from assms have "0 < resv pid db" by simp
  then obtain s where s: "findStock pid db = Some s" "resv pid db = reservedQuantity s"
    "avail pid db = availableQuantity s" by (rule resv_pos_row)
  have ok: "stock_row_ok s" using assms(1) s(1) by (rule stock_okD)
  let ?f = "\<lambda>r. r\<lparr>reservedQuantity := reservedQuantity s - n\<rparr>"
  let ?db' = "db\<lparr>stock_items := update_rows stock_productId pid ?f (stock_items db)\<rparr>"
  have "decrement_reserved pid (js_int n) db = Inr ?db'"
    using assms s ok by (intro decrement_js_int) (auto simp: stock_row_ok_def int4_max_def)
  moreover have "stock_ok ?db'"
    using assms s ok by (intro stock_ok_update) (auto simp: stock_row_ok_def)
  moreover have "avail p ?db' = avail p db" for p
    using seen_after_update(1) [OF s(1), of ?f p] s(3) by (cases "p = pid") simp_all
  moreover have "resv p ?db' = resv p db - (if pid = p then n else 0)" for p
    using seen_after_update(2) [OF s(1), of ?f p] s(2) by (cases "p = pid") simp_all
  ultimately show ?thesis using that [of ?db'] by simp
qed

lemma decrement_both_ok:
  assumes "stock_ok db" and "0 < n" and "n \<le> resv pid db"
  obtains db1 db' where "decrement_available pid (js_int n) db = Inr db1"
    and "decrement_reserved pid (js_int n) db1 = Inr db'" and "stock_ok db'"
    and "\<And>p. avail p db' = avail p db - (if pid = p then n else 0)"
    and "\<And>p. resv p db' = resv p db - (if pid = p then n else 0)"
    and "reservations db' = reservations db"
proof -
  from assms have "0 < resv pid db" by simp
  then obtain s where s: "findStock pid db = Some s" "resv pid db = reservedQuantity s"
    "avail pid db = availableQuantity s" by (rule resv_pos_row)
  have ok: "stock_row_ok s" using assms(1) s(1) by (rule stock_okD)
  let ?f = "\<lambda>r. r\<lparr>availableQuantity := availableQuantity s - n\<rparr>"
  let ?g = "\<lambda>r. r\<lparr>reservedQuantity := reservedQuantity s - n\<rparr>"
  let ?db1 = "db\<lparr>stock_items := update_rows stock_productId pid ?f (stock_items db)\<rparr>"
  let ?db' = "db\<lparr>stock_items := update_rows stock_productId pid (?g \<circ> ?f) (stock_items db)\<rparr>"
  have "decrement_available pid (js_int n) db = Inr ?db1"
    using assms s ok by (intro decrement_js_int) (auto simp: stock_row_ok_def int4_max_def)
  moreover have s1: "findStock pid ?db1 = Some (?f s)"
    using s by (simp add: find_row_update)
  have "decrement_reserved pid (js_int n) ?db1 = Inr (?db1\<lparr>stock_items :=
      update_rows stock_productId pid ?g (stock_items ?db1)\<rparr>)"
    using assms s ok decrement_js_int [OF s1, of reservedQuantity n]
    by (auto simp: stock_row_ok_def int4_max_def)
  then have "decrement_reserved pid (js_int n) ?db1 = Inr ?db'"
    by (simp add: update_rows_twice comp_def)
  moreover have "stock_ok ?db'"
    using assms s ok by (intro stock_ok_update) (auto simp: stock_row_ok_def)
  moreover have "avail p ?db' = avail p db - (if pid = p then n else 0)" for p
    using seen_after_update(1) [OF s(1), of "?g \<circ> ?f" p] s(3) by (cases "p = pid") simp_all
  moreover have "resv p ?db' = resv p db - (if pid = p then n else 0)" for p
    using seen_after_update(2) [OF s(1), of "?g \<circ> ?f" p] s(2) by (cases "p = pid") simp_all
  ultimately show ?thesis using that [of ?db1 ?db'] by simp
qed

lemma demand_head:
  assumes "\<forall>i \<in> set (i # items). item_valid i" and "\<forall>p. demand p (i # items) \<le> f p"
  shows "qty (item_quantity i) \<le> f (item_productId i)"
  using assms(2) [rule_format, of "item_productId i"] demand_nonneg [of items "item_productId i"]
    assms(1) by simp

lemma release_items_ok:
  assumes "stock_ok db" and "\<forall>i \<in> set items. item_valid i" and "\<forall>p. demand p items \<le> resv p db"
  shows "\<exists>db'. release_items None items db = Inr (None, db') \<and> stock_ok db' \<and>
    (\<forall>p. avail p db' = avail p db) \<and> (\<forall>p. resv p db' = resv p db - demand p items) \<and>
    reservations db' = reservations db"
  using assms
proof (induction items arbitrary: db)
  case (Cons i items)
  obtain n where n: "item_quantity i = js_int n" "0 < n" "qty (item_quantity i) = n"
    using Cons.prems(2) by (auto elim: item_validE)
  have "n \<le> resv (item_productId i) db"
    using demand_head [OF Cons.prems(2,3)] n by simp
  with Cons.prems(1) n obtain db1 where db1:
    "decrement_reserved (item_productId i) (js_int n) db = Inr db1" "stock_ok db1"
    "\<And>p. avail p db1 = avail p db"
    "\<And>p. resv p db1 = resv p db - (if item_productId i = p then n else 0)"
    "reservations db1 = reservations db"
    using decrement_reserved_ok by blast
  have "\<forall>p. demand p items \<le> resv p db1"
  proof
    fix p show "demand p items \<le> resv p db1"
      using Cons.prems(3) [rule_format, of p] db1(4) [of p] n by (simp split: if_splits)
  qed
  with Cons.IH [OF db1(2)] Cons.prems(2) obtain db' where
    "release_items None items db1 = Inr (None, db')" "stock_ok db'" "\<forall>p. avail p db' = avail p db1"
    "\<forall>p. resv p db' = resv p db1 - demand p items" "reservations db' = reservations db1"
    by auto
  with db1 n show ?case by simp
qed simp

lemma confirm_items_ok:
  assumes "stock_ok db" and "\<forall>i \<in> set items. item_valid i" and "\<forall>p. demand p items \<le> resv p db"
  shows "\<exists>db'. confirm_items None items db = Inr (None, db') \<and> stock_ok db' \<and>
    (\<forall>p. avail p db' = avail p db - demand p items) \<and>
    (\<forall>p. resv p db' = resv p db - demand p items) \<and> reservations db' = reservations db"
  using assms
proof (induction items arbitrary: db)
  case (Cons i items)
  obtain n where n: "item_quantity i = js_int n" "0 < n" "qty (item_quantity i) = n"
    using Cons.prems(2) by (auto elim: item_validE)
  have "n \<le> resv (item_productId i) db"
    using demand_head [OF Cons.prems(2,3)] n by simp
  with Cons.prems(1) n obtain db0 db1 where db1:
    "decrement_available (item_productId i) (js_int n) db = Inr db0"
    "decrement_reserved (item_productId i) (js_int n) db0 = Inr db1" "stock_ok db1"
    "\<And>p. avail p db1 = avail p db - (if item_productId i = p then n else 0)"
    "\<And>p. resv p db1 = resv p db - (if item_productId i = p then n else 0)"
    "reservations db1 = reservations db"
    using decrement_both_ok by blast
  have "\<forall>p. demand p items \<le> resv p db1"
  proof
    fix p show "demand p items \<le> resv p db1"
      using Cons.prems(3) [rule_format, of p] db1(5) [of p] n by (simp split: if_splits)
  qed
  with Cons.IH [OF db1(3)] Cons.prems(2) obtain db' where
    "confirm_items None items db1 = Inr (None, db')" "stock_ok db'"
    "\<forall>p. avail p db' = avail p db1 - demand p items"
    "\<forall>p. resv p db' = resv p db1 - demand p items" "reservations db' = reservations db1"
    by auto
  with db1 n show ?case by simp
qed simp

section \<open>A fault rolls the transaction back\<close>

lemma reserve_items_fault: "reserve_items fault items db = Inr (fault', db') \<Longrightarrow> fault' = None \<longleftrightarrow> fault = None"
  by (induction items arbitrary: fault db) (auto split: sum.splits)

lemma confirm_items_fault: "confirm_items fault items db = Inr (fault', db') \<Longrightarrow> fault' = None \<longleftrightarrow> fault = None"
  by (induction items arbitrary: fault db) (auto split: sum.splits if_splits)

lemma release_items_fault: "release_items fault items db = Inr (fault', db') \<Longrightarrow> fault' = None \<longleftrightarrow> fault = None"
  by (induction items arbitrary: fault db) (auto split: sum.splits if_splits)

lemma faulty_bodies_throw:
  "\<exists>e. reserve_body (Some k) request db = Inl e"
  "\<exists>e. confirm_body (Some k) reservation db = Inl e"
  "\<exists>e. release_body (Some k) reservation db = Inl e"
  by (auto simp: reserve_body_def confirm_body_def release_body_def save_status_def
      split: sum.splits option.splits
      dest!: reserve_items_fault confirm_items_fault release_items_fault)

end
