(* ===== verification/Inventory_Ledger.thy ===== *)
theory Inventory_Ledger
  imports Inventory_Correct
begin

text \<open>
  The contract of the inventory: a ledger with the stock on hand, the part of it promised to
  open reservations, and the claim of each order. The three handlers refine the three ledger
  operations, keep the invariant that ties the stock rows to the reservations, and keep the
  total of stock on hand and stock sold.
\<close>

section \<open>The invariant of the two tables\<close>

definition claimed :: "ReservationStatus \<Rightarrow> string \<Rightarrow> InventoryDB \<Rightarrow> int" where
  "claimed st p db =
     sum_of (\<lambda>r. if res_status r = st then demand p (res_items r) else 0) (reservations db)"

definition inventory_inv :: "InventoryDB \<Rightarrow> bool" where
  "inventory_inv db \<longleftrightarrow> stock_ok db \<and> distinct (map res_orderId (reservations db)) \<and>
     (\<forall>r \<in> set (reservations db). \<forall>i \<in> set (res_items r). item_valid i) \<and>
     (\<forall>p. resv p db = claimed RESERVED p db)"

definition admissible :: "ReservedItem list \<Rightarrow> (string \<Rightarrow> int) \<Rightarrow> bool" where
  "admissible items free \<longleftrightarrow> list_all item_valid items \<and>
     list_all (\<lambda>i. demand (item_productId i) items \<le> free (item_productId i)) items"

lemma demand_not_member: "p \<notin> item_productId ` set items \<Longrightarrow> demand p items = 0"
  by (induction items) auto

lemma admissible_iff:
  assumes "\<And>p. 0 \<le> free p"
  shows "admissible items free \<longleftrightarrow>
    (\<forall>i \<in> set items. item_valid i) \<and> (\<forall>p. demand p items \<le> free p)"
proof
  assume a: "admissible items free"
  have "demand p items \<le> free p" for p
    using a assms [of p] demand_not_member [of p items]
    by (cases "p \<in> item_productId ` set items") (auto simp: admissible_def list_all_iff)
  with a show "(\<forall>i \<in> set items. item_valid i) \<and> (\<forall>p. demand p items \<le> free p)"
    by (auto simp: admissible_def list_all_iff)
qed (auto simp: admissible_def list_all_iff)

lemma admissible_stock:
  "stock_ok db \<Longrightarrow> admissible items (\<lambda>p. avail p db - resv p db) \<longleftrightarrow>
    (\<forall>i \<in> set items. item_valid i) \<and> (\<forall>p. demand p items \<le> avail p db - resv p db)"
  by (rule admissible_iff) (simp add: stock_ok_bounds)

lemma inventory_inv_empty: "inventory_inv empty_inventory"
  by (simp add: inventory_inv_def stock_ok_def claimed_def resv_def empty_inventory_def)

lemma claimed_member:
  assumes "inventory_inv db" and "r \<in> set (reservations db)" and "res_status r = st"
  shows "demand p (res_items r) \<le> claimed st p db"
proof -
  have "(if res_status r = st then demand p (res_items r) else 0) \<le> claimed st p db"
    unfolding claimed_def using assms(1,2)
    by (intro sum_of_ge_member) (auto simp: inventory_inv_def intro!: demand_nonneg)
  with assms(3) show ?thesis by simp
qed

lemma claimed_set_status:
  assumes "inventory_inv db" and "findReservation oid db = Some r"
    and "reservations db' = update_rows res_orderId oid (\<lambda>r. r\<lparr>res_status := new\<rparr>) (reservations db)"
  shows "claimed st p db' = claimed st p db
    - (if res_status r = st then demand p (res_items r) else 0)
    + (if new = st then demand p (res_items r) else 0)"
  unfolding claimed_def assms(3)
  using sum_of_update [of res_orderId "reservations db" oid r] assms(1,2)
  by (auto simp: inventory_inv_def)

section \<open>The ledger\<close>

record ledger =
  on_hand :: "string \<Rightarrow> int"
  promised :: "string \<Rightarrow> int"
  claim :: "string \<Rightarrow> (ReservationStatus \<times> ReservedItem list) option"

definition ledger_of :: "InventoryDB \<Rightarrow> ledger" where
  "ledger_of db = \<lparr>on_hand = (\<lambda>p. avail p db), promised = (\<lambda>p. resv p db),
     claim = (\<lambda>oid. map_option (\<lambda>r. (res_status r, res_items r)) (findReservation oid db))\<rparr>"

definition ledger_reserve :: "string \<Rightarrow> ReservedItem list \<Rightarrow> ledger \<Rightarrow> ledger" where
  "ledger_reserve oid items l =
     (if claim l oid = None \<and> admissible items (\<lambda>p. on_hand l p - promised l p)
      then l\<lparr>promised := (\<lambda>p. promised l p + demand p items),
             claim := (claim l)(oid \<mapsto> (RESERVED, items))\<rparr>
      else l)"

definition ledger_confirm :: "string \<Rightarrow> ledger \<Rightarrow> ledger" where
  "ledger_confirm oid l = (case claim l oid of
     Some (RESERVED, items) \<Rightarrow> l\<lparr>on_hand := (\<lambda>p. on_hand l p - demand p items),
       promised := (\<lambda>p. promised l p - demand p items),
       claim := (claim l)(oid \<mapsto> (CONFIRMED, items))\<rparr>
   | _ \<Rightarrow> l)"

definition ledger_release :: "string \<Rightarrow> ledger \<Rightarrow> ledger" where
  "ledger_release oid l = (case claim l oid of
     Some (RESERVED, items) \<Rightarrow> l\<lparr>promised := (\<lambda>p. promised l p - demand p items),
       claim := (claim l)(oid \<mapsto> (RELEASED, items))\<rparr>
   | _ \<Rightarrow> l)"

section \<open>Reserve\<close>

abbreviation rpc_ok :: RpcResult where
  "rpc_ok \<equiv> \<lparr>success = True, reason = None\<rparr>"

lemma reserve_tx_admissible:
  assumes inv: "inventory_inv db" and new: "findReservation (req_orderId request) db = None"
    and adm: "admissible (req_items request) (\<lambda>p. avail p db - resv p db)"
  obtains db' where "reserve_tx None request db = (rpc_ok, db')" and "inventory_inv db'"
    and "ledger_of db' = ledger_reserve (req_orderId request) (req_items request) (ledger_of db)"
    and "\<And>p. avail p db' + claimed CONFIRMED p db' = avail p db + claimed CONFIRMED p db"
proof -
  let ?oid = "req_orderId request" and ?items = "req_items request"
  let ?r = "\<lparr>res_orderId = ?oid, res_items = ?items, res_status = RESERVED\<rparr>"
  have ok: "stock_ok db" using inv by (simp add: inventory_inv_def)
  have valid: "\<forall>i \<in> set ?items. item_valid i"
    and enough: "\<forall>p. demand p ?items \<le> avail p db - resv p db"
    using adm admissible_stock [OF ok] by simp_all
  obtain db1 where db1: "reserve_items None ?items db = Inr (None, db1)" "stock_ok db1"
    "\<forall>p. avail p db1 = avail p db" "\<forall>p. resv p db1 = resv p db + demand p ?items"
    "reservations db1 = reservations db"
    using reserve_items_ok [OF ok valid enough] by auto
  let ?db' = "db1\<lparr>reservations := reservations db @ [?r]\<rparr>"
  have seen: "avail p ?db' = avail p db1" "resv p ?db' = resv p db1" for p
    by (simp_all add: avail_def resv_def)
  have fresh: "?oid \<notin> res_orderId ` set (reservations db)"
    using new by (simp add: find_row_None_iff)
  have "reserve_tx None request db = (rpc_ok, ?db')"
    using db1 fresh by (simp add: reserve_tx_def reserve_body_def insert_row_fresh)
  moreover have "inventory_inv ?db'"
    using inv db1 seen fresh valid
    by (auto simp: inventory_inv_def stock_ok_def claimed_def)
  moreover have "ledger_of ?db' = ledger_reserve ?oid ?items (ledger_of db)"
    using adm new db1 seen
    by (auto simp: ledger_of_def ledger_reserve_def fun_eq_iff find_row_append split: option.splits)
  moreover have "avail p ?db' + claimed CONFIRMED p ?db' = avail p db + claimed CONFIRMED p db" for p
    using db1 seen by (simp add: claimed_def)
  ultimately show ?thesis using that by blast
qed

lemma reserve_tx_rejected:
  assumes "fault \<noteq> None \<or> \<not> admissible (req_items request) (\<lambda>p. avail p db - resv p db)"
    and "stock_ok db"
  shows "\<exists>why. reserve_tx fault request db = (\<lparr>success = False, reason = Some why\<rparr>, db)"
proof -
  have "\<exists>e. reserve_body fault request db = Inl e"
  proof (cases fault)
    case None
    have "reserve_items None (req_items request) db \<noteq> Inr (fault', db')" for fault' db'
      using None assms admissible_stock [OF assms(2)] reserve_items_succeeds [OF assms(2)] by blast
    then show ?thesis
      using None by (auto simp: reserve_body_def split: sum.splits)
  qed (simp add: faulty_bodies_throw)
  then show ?thesis
    by (auto simp: reserve_tx_def split: inventory_exn.splits)
qed

section \<open>Confirm and release\<close>

lemma seen_of_status_update [simp]:
  "avail p (db\<lparr>reservations := rows\<rparr>) = avail p db"
  "resv p (db\<lparr>reservations := rows\<rparr>) = resv p db"
  "stock_ok (db\<lparr>reservations := rows\<rparr>) = stock_ok db"
  by (simp_all add: avail_def resv_def stock_ok_def)

text \<open>What is known of the reservation a handler has read.\<close>

lemma open_reservation:
  assumes inv: "inventory_inv db" and found: "findReservation oid db = Some r"
    and st: "res_status r = RESERVED"
  shows "stock_ok db" and "\<forall>i \<in> set (res_items r). item_valid i"
    and "\<forall>p. demand p (res_items r) \<le> resv p db" and "res_orderId r = oid"
  using inv find_row_SomeD [OF found] claimed_member [OF inv _ st]
  by (auto simp: inventory_inv_def)

text \<open>Saving a new status keeps the invariant when the stock moved with it.\<close>

lemma set_status_inv:
  assumes inv: "inventory_inv db" and found: "findReservation oid db = Some r"
    and st: "res_status r = RESERVED" and new: "new \<noteq> RESERVED"
    and db1: "stock_ok db1" "reservations db1 = reservations db"
      "\<forall>p. resv p db1 = resv p db - demand p (res_items r)"
  shows "inventory_inv (db1\<lparr>reservations :=
    update_rows res_orderId oid (\<lambda>r. r\<lparr>res_status := new\<rparr>) (reservations db)\<rparr>)"
    (is "inventory_inv ?db'")
proof -
  have "claimed RESERVED p ?db' = claimed RESERVED p db - demand p (res_items r)" for p
    using claimed_set_status [OF inv found, of ?db' new RESERVED p] st new by simp
  moreover have "\<forall>r \<in> set (reservations ?db'). \<forall>i \<in> set (res_items r). item_valid i"
    using inv by (auto simp: inventory_inv_def dest!: set_update_rows)
  ultimately show ?thesis
    using inv db1 by (simp add: inventory_inv_def update_rows_keys)
qed

lemma confirm_tx_open:
  assumes inv: "inventory_inv db" and found: "findReservation oid db = Some r"
    and st: "res_status r = RESERVED"
  obtains db' where "confirm_tx None r db = (rpc_ok, db')" and "inventory_inv db'"
    and "ledger_of db' = ledger_confirm oid (ledger_of db)"
    and "\<And>p. avail p db' + claimed CONFIRMED p db' = avail p db + claimed CONFIRMED p db"
proof -
  note r = open_reservation [OF inv found st]
  obtain db1 where db1: "confirm_items None (res_items r) db = Inr (None, db1)" "stock_ok db1"
    "\<forall>p. avail p db1 = avail p db - demand p (res_items r)"
    "\<forall>p. resv p db1 = resv p db - demand p (res_items r)" "reservations db1 = reservations db"
    using confirm_items_ok [OF r(1-3)] by auto
  let ?db' = "db1\<lparr>reservations :=
    update_rows res_orderId oid (\<lambda>r. r\<lparr>res_status := CONFIRMED\<rparr>) (reservations db)\<rparr>"
  have "confirm_tx None r db = (rpc_ok, ?db')"
    using db1 r(4) by (simp add: confirm_tx_def confirm_body_def save_status_def rpc_of_tx_def)
  moreover have "inventory_inv ?db'"
    using db1 by (intro set_status_inv [OF inv found st]) auto
  moreover have "ledger_of ?db' = ledger_confirm oid (ledger_of db)"
    using found st db1
    by (auto simp: ledger_of_def ledger_confirm_def fun_eq_iff find_row_update)
  moreover have "avail p ?db' + claimed CONFIRMED p ?db' = avail p db + claimed CONFIRMED p db" for p
    using claimed_set_status [OF inv found, of ?db' CONFIRMED CONFIRMED p] st db1 by simp
  ultimately show ?thesis using that by blast
qed

lemma release_tx_open:
  assumes inv: "inventory_inv db" and found: "findReservation oid db = Some r"
    and st: "res_status r = RESERVED"
  obtains db' where "release_tx None r db = (rpc_ok, db')" and "inventory_inv db'"
    and "ledger_of db' = ledger_release oid (ledger_of db)"
    and "\<And>p. avail p db' + claimed CONFIRMED p db' = avail p db + claimed CONFIRMED p db"
proof -
  note r = open_reservation [OF inv found st]
  obtain db1 where db1: "release_items None (res_items r) db = Inr (None, db1)" "stock_ok db1"
    "\<forall>p. avail p db1 = avail p db"
    "\<forall>p. resv p db1 = resv p db - demand p (res_items r)" "reservations db1 = reservations db"
    using release_items_ok [OF r(1-3)] by auto
  let ?db' = "db1\<lparr>reservations :=
    update_rows res_orderId oid (\<lambda>r. r\<lparr>res_status := RELEASED\<rparr>) (reservations db)\<rparr>"
  have "release_tx None r db = (rpc_ok, ?db')"
    using db1 r(4) by (simp add: release_tx_def release_body_def save_status_def rpc_of_tx_def)
  moreover have "inventory_inv ?db'"
    using db1 by (intro set_status_inv [OF inv found st]) auto
  moreover have "ledger_of ?db' = ledger_release oid (ledger_of db)"
    using found st db1
    by (auto simp: ledger_of_def ledger_release_def fun_eq_iff find_row_update)
  moreover have "avail p ?db' + claimed CONFIRMED p ?db' = avail p db + claimed CONFIRMED p db" for p
    using claimed_set_status [OF inv found, of ?db' RELEASED CONFIRMED p] st db1 by simp
  ultimately show ?thesis using that by blast
qed

lemma faulty_tx_rolls_back:
  "confirm_tx (Some k) r db = (\<lparr>success = False, reason = Some ''internal_error''\<rparr>, db)"
  "release_tx (Some k) r db = (\<lparr>success = False, reason = Some ''internal_error''\<rparr>, db)"
  using faulty_bodies_throw(2) [of k r db] faulty_bodies_throw(3) [of k r db]
  by (auto simp: confirm_tx_def release_tx_def rpc_of_tx_def)

section \<open>The handlers\<close>

text \<open>One handler call: what was asked, with what fault, and whether the message was redelivered.\<close>

datatype inventory_call =
    ReserveCall ReserveRequest
  | ConfirmCall string
  | ReleaseCall string

fun handle_inventory :: "inventory_faults \<Rightarrow> bool \<Rightarrow> inventory_call \<Rightarrow> InventoryDB \<Rightarrow>
    RpcResult reply \<times> InventoryDB" where
  "handle_inventory f rd (ReserveCall request) db = reserve f request rd db"
| "handle_inventory f rd (ConfirmCall oid) db = confirm f oid rd db"
| "handle_inventory f rd (ReleaseCall oid) db = release f oid rd db"

text \<open>The call on the ledger, and the calls the saga never makes out of turn: confirming a
  reservation that was released.\<close>

fun ledger_call :: "inventory_call \<Rightarrow> ledger \<Rightarrow> ledger" where
  "ledger_call (ReserveCall request) = ledger_reserve (req_orderId request) (req_items request)"
| "ledger_call (ConfirmCall oid) = ledger_confirm oid"
| "ledger_call (ReleaseCall oid) = ledger_release oid"

fun in_turn :: "inventory_call \<Rightarrow> InventoryDB \<Rightarrow> bool" where
  "in_turn (ConfirmCall oid) db = (case findReservation oid db of
     Some r \<Rightarrow> res_status r \<noteq> RELEASED | None \<Rightarrow> True)"
| "in_turn _ _ = True"

definition call_effect :: "inventory_call \<Rightarrow> InventoryDB \<Rightarrow> InventoryDB \<Rightarrow> bool" where
  "call_effect c db db' \<longleftrightarrow> inventory_inv db' \<and> ledger_of db' = ledger_call c (ledger_of db) \<and>
     (\<forall>p. avail p db' + claimed CONFIRMED p db' = avail p db + claimed CONFIRMED p db)"

lemma reserve_cases:
  assumes inv: "inventory_inv db"
  shows "snd (reserve f request rd db) = db \<or>
    call_effect (ReserveCall request) db (snd (reserve f request rd db))"
    and "\<not> rd \<Longrightarrow> f = no_faults \<Longrightarrow> call_effect (ReserveCall request) db (snd (reserve f request rd db))"
proof -
  have stock: "stock_ok db" using inv by (simp add: inventory_inv_def)
  have stays: "call_effect (ReserveCall request) db db"
    if "findReservation (req_orderId request) db \<noteq> None \<or>
      \<not> admissible (req_items request) (\<lambda>p. avail p db - resv p db)"
    using that inv by (auto simp: call_effect_def ledger_reserve_def ledger_of_def)
  have tx: "fault \<noteq> None \<and> snd (reserve_tx fault request db) = db \<or>
      call_effect (ReserveCall request) db (snd (reserve_tx fault request db))"
    if fresh: "findReservation (req_orderId request) db = None" for fault
  proof (cases "fault = None \<and> admissible (req_items request) (\<lambda>p. avail p db - resv p db)")
    case True
    then obtain db' where "reserve_tx None request db = (rpc_ok, db')"
      and "call_effect (ReserveCall request) db db'"
      by (auto simp: call_effect_def intro: reserve_tx_admissible [OF inv fresh])
    with True show ?thesis by simp
  next
    case False
    then show ?thesis
      using reserve_tx_rejected [OF _ stock, of fault request] stays by auto
  qed
  show "snd (reserve f request rd db) = db \<or>
      call_effect (ReserveCall request) db (snd (reserve f request rd db))"
    using tx [of "tx_fault f"]
    by (auto simp: reserve_def attempt_def split: option.splits prod.splits)
  show "call_effect (ReserveCall request) db (snd (reserve f request rd db))"
    if "\<not> rd" and "f = no_faults"
    using that tx [of None] stays
    by (auto simp: reserve_def no_faults_def split: option.splits prod.splits)
qed

lemma confirm_cases:
  assumes inv: "inventory_inv db" and turn: "in_turn (ConfirmCall oid) db"
  shows "snd (confirm f oid rd db) = db \<or>
    call_effect (ConfirmCall oid) db (snd (confirm f oid rd db))"
    and "\<not> rd \<Longrightarrow> f = no_faults \<Longrightarrow> call_effect (ConfirmCall oid) db (snd (confirm f oid rd db))"
proof -
  have stays: "call_effect (ConfirmCall oid) db db"
    if "case findReservation oid db of Some r \<Rightarrow> res_status r \<noteq> RESERVED | None \<Rightarrow> True"
    using that inv
    by (auto simp: call_effect_def ledger_confirm_def ledger_of_def
        split: option.splits ReservationStatus.splits)
  have tx: "call_effect (ConfirmCall oid) db (snd (confirm_tx None r db))"
    if found: "findReservation oid db = Some r" and st: "res_status r = RESERVED" for r
  proof -
    obtain db' where "confirm_tx None r db = (rpc_ok, db')" and "call_effect (ConfirmCall oid) db db'"
      by (auto simp: call_effect_def intro: confirm_tx_open [OF inv found st])
    then show ?thesis by simp
  qed
  have rolled: "snd (confirm_tx (Some k) r db) = db" for k r
    by (simp add: faulty_tx_rolls_back)
  show "snd (confirm f oid rd db) = db \<or> call_effect (ConfirmCall oid) db (snd (confirm f oid rd db))"
    using turn tx rolled
    by (cases "tx_fault f"; cases "lookup_fault f"; cases "findReservation oid db")
      (auto simp: confirm_def intro: ReservationStatus.exhaust)
  show "call_effect (ConfirmCall oid) db (snd (confirm f oid rd db))" if "\<not> rd" and "f = no_faults"
    using that turn tx stays
    by (cases "findReservation oid db"; cases "res_status (the (findReservation oid db))")
      (auto simp: confirm_def no_faults_def)
qed

lemma release_cases:
  assumes inv: "inventory_inv db"
  shows "snd (release f oid rd db) = db \<or>
    call_effect (ReleaseCall oid) db (snd (release f oid rd db))"
    and "\<not> rd \<Longrightarrow> f = no_faults \<Longrightarrow> call_effect (ReleaseCall oid) db (snd (release f oid rd db))"
proof -
  have stays: "call_effect (ReleaseCall oid) db db"
    if "case findReservation oid db of Some r \<Rightarrow> res_status r \<noteq> RESERVED | None \<Rightarrow> True"
    using that inv
    by (auto simp: call_effect_def ledger_release_def ledger_of_def
        split: option.splits ReservationStatus.splits)
  have tx: "call_effect (ReleaseCall oid) db (snd (release_tx None r db))"
    if found: "findReservation oid db = Some r" and st: "res_status r = RESERVED" for r
  proof -
    obtain db' where "release_tx None r db = (rpc_ok, db')" and "call_effect (ReleaseCall oid) db db'"
      by (auto simp: call_effect_def intro: release_tx_open [OF inv found st])
    then show ?thesis by simp
  qed
  have rolled: "snd (release_tx (Some k) r db) = db" for k r
    by (simp add: faulty_tx_rolls_back)
  show "snd (release f oid rd db) = db \<or> call_effect (ReleaseCall oid) db (snd (release f oid rd db))"
    using tx rolled
    by (cases "tx_fault f"; cases "lookup_fault f"; cases "findReservation oid db")
      (auto simp: release_def)
  show "call_effect (ReleaseCall oid) db (snd (release f oid rd db))" if "\<not> rd" and "f = no_faults"
    using that tx stays
    by (cases "findReservation oid db"; cases "res_status (the (findReservation oid db))")
      (auto simp: release_def no_faults_def)
qed

lemma handle_inventory_cases:
  assumes "inventory_inv db" and "in_turn c db"
  shows "snd (handle_inventory f rd c db) = db \<or> call_effect c db (snd (handle_inventory f rd c db))"
    and "call_effect c db (snd (handle_inventory no_faults False c db))"
proof -
  show "snd (handle_inventory f rd c db) = db \<or> call_effect c db (snd (handle_inventory f rd c db))"
    using reserve_cases(1) [OF assms(1), of f _ rd] confirm_cases(1) [OF assms(1), of _ f rd]
      release_cases(1) [OF assms(1), of f _ rd] assms(2)
    by (cases c) auto
  show "call_effect c db (snd (handle_inventory no_faults False c db))"
    using reserve_cases(2) [OF assms(1), of False] confirm_cases(2) [OF assms(1), of _ False]
      release_cases(2) [OF assms(1), of False] assms(2)
    by (cases c) auto
qed


text \<open>A call that is repeated after it went through finds nothing left to do.\<close>

lemma ledger_call_idem: "ledger_call c (ledger_call c l) = ledger_call c l"
  by (cases c) (auto simp: ledger_reserve_def ledger_confirm_def ledger_release_def
      split: option.splits ReservationStatus.splits)

lemma claim_lookup:
  "claim (ledger_of db) oid = map_option (\<lambda>r. (res_status r, res_items r)) (findReservation oid db)"
  by (simp add: ledger_of_def)

lemma on_hand_lookup: "on_hand (ledger_of db) p = avail p db" "promised (ledger_of db) p = resv p db"
  by (simp_all add: ledger_of_def)

end
