(* ===== verification/Inventory_Props.thy ===== *)
theory Inventory_Props
  imports Inventory_Ledger
begin

text \<open>The properties of the inventory service, over its handlers and the ledger.\<close>

definition an_item :: "string \<Rightarrow> int \<Rightarrow> ReservedItem" where
  "an_item p n = \<lparr>item_productId = p, item_quantity = js_int n\<rparr>"

definition a_request :: "string \<Rightarrow> string \<Rightarrow> int \<Rightarrow> ReserveRequest" where
  "a_request oid p n = \<lparr>req_orderId = oid, req_items = [an_item p n]\<rparr>"

definition stock_of_5 :: InventoryDB where
  "stock_of_5 = \<lparr>stock_items = [\<lparr>stock_productId = ''scarce'', availableQuantity = 5, reservedQuantity = 0\<rparr>],
     reservations = []\<rparr>"

lemma inventory_inv_stock_of_5: "inventory_inv stock_of_5"
  by (simp add: inventory_inv_def stock_ok_def stock_row_ok_def claimed_def resv_def stock_of_5_def int4_max_def)

text \<open>A table with one order in a given state: 2 of 5 pieces claimed.\<close>

definition the_claim :: "ReservationStatus \<Rightarrow> Reservation" where
  "the_claim st = \<lparr>res_orderId = ''o1'', res_items = [an_item ''scarce'' 2], res_status = st\<rparr>"

definition stock_with :: "ReservationStatus \<Rightarrow> InventoryDB" where
  "stock_with st = \<lparr>stock_items = [\<lparr>stock_productId = ''scarce'', availableQuantity = 5,
       reservedQuantity = (if st = RESERVED then 2 else 0)\<rparr>], reservations = [the_claim st]\<rparr>"

lemma inventory_inv_stock_with: "inventory_inv (stock_with st)"
  by (simp add: inventory_inv_def stock_ok_def stock_row_ok_def claimed_def resv_def stock_with_def
      the_claim_def an_item_def int4_max_def item_valid_def)

section \<open>Invariant, refinement, conservation\<close>

lemma handle_inventory_inv:
  "inventory_inv db \<Longrightarrow> in_turn c db \<Longrightarrow> inventory_inv (snd (handle_inventory f rd c db))"
  using handle_inventory_cases(1) [of db c f rd] by (auto simp: call_effect_def)

text \<open>C6: Every handler call keeps the tables well formed, whatever it is asked, whichever statement
  fails and whether or not the message was redelivered, unless it confirms a reservation that was
  released: stock rows and reservations stay unique by key, quantities stay within their columns with
  the reserved one between zero and the available one, and the reserved quantity of a product is the
  sum of what its open reservations hold.\<close>
theorem inventory_call_keeps_inv:
  assumes "inventory_inv db" and "in_turn c db"
  shows "inventory_inv (snd (handle_inventory f rd c db))"
  using assms by (rule handle_inventory_inv)

theorem inventory_call_keeps_inv_witness:
  "inventory_inv (snd (handle_inventory no_faults False (ReserveCall (a_request ''o1'' ''scarce'' 4)) stock_of_5))"
  by (rule inventory_call_keeps_inv [OF inventory_inv_stock_of_5]) simp





text \<open>A handler call that does not succeed changes nothing: whatever statement of the
  transaction fails, and whether or not the message was redelivered, the tables are either those
  of before the call or the caller is told of success.\<close>
theorem inventory_failure_is_atomic:
  "case handle_inventory f rd c db of
     (Nack requeue, db') \<Rightarrow> db' = db \<and> rd \<and> requeue = False
   | (Reply r, db') \<Rightarrow> success r \<or> db' = db"
  by (cases c) (auto simp: reserve_def confirm_def release_def reserve_tx_def confirm_tx_def release_tx_def
      rpc_of_tx_def attempt_def split: sum.splits option.splits prod.splits inventory_exn.splits)

section \<open>Reserve\<close>

lemma reserve_outcome:
  assumes "inventory_inv db" and "findReservation (req_orderId request) db = None"
  shows "case reserve no_faults request False db of (reply, db') \<Rightarrow>
    if admissible (req_items request) (\<lambda>p. avail p db - resv p db)
    then reply = Reply \<lparr>success = True, reason = None\<rparr> \<and>
      (\<forall>p. avail p db' = avail p db \<and> resv p db' = resv p db + demand p (req_items request)) \<and>
      findReservation (req_orderId request) db' =
        Some \<lparr>res_orderId = req_orderId request, res_items = req_items request, res_status = RESERVED\<rparr>
    else db' = db \<and> (\<exists>why. reply = Reply \<lparr>success = False, reason = Some why\<rparr>)"
proof (cases "admissible (req_items request) (\<lambda>p. avail p db - resv p db)")
  case True
  obtain db' where tx: "reserve_tx None request db = (rpc_ok, db')"
    and l: "ledger_of db' = ledger_reserve (req_orderId request) (req_items request) (ledger_of db)"
    using reserve_tx_admissible [OF assms True] by metis
  have l': "claim (ledger_of db') (req_orderId request) = Some (RESERVED, req_items request)"
    "on_hand (ledger_of db') p = avail p db"
    "promised (ledger_of db') p = resv p db + demand p (req_items request)" for p
    using l True assms(2) by (simp_all add: ledger_reserve_def on_hand_lookup claim_lookup)
  obtain r where "findReservation (req_orderId request) db' = Some r"
    "res_status r = RESERVED" "res_items r = req_items request"
    using l'(1) by (auto simp: claim_lookup)
  moreover from this have "res_orderId r = req_orderId request"
    by (auto dest: find_row_SomeD)
  ultimately have "findReservation (req_orderId request) db' =
      Some \<lparr>res_orderId = req_orderId request, res_items = req_items request, res_status = RESERVED\<rparr>"
    by (cases r) simp
  then show ?thesis
    using True tx l' assms(2) by (simp add: reserve_def no_faults_def on_hand_lookup)
next
  case False
  have "stock_ok db" using assms(1) by (simp add: inventory_inv_def)
  with False show ?thesis
    using reserve_tx_rejected [of None request db] assms(2)
    by (auto simp: reserve_def no_faults_def)
qed

text \<open>C7: Reserve takes all items of an order or none: for an order without a reservation it answers
  with success exactly when every quantity is a positive whole number and the sums per product fit
  the free stock (1000 for a product seen first), and then the reserved quantities grow by exactly
  these sums and the order has an open reservation; otherwise it says why and nothing changes.\<close>
theorem reserve_all_or_nothing:
  assumes "inventory_inv db" and "findReservation (req_orderId request) db = None"
  shows "case reserve no_faults request False db of (reply, db') \<Rightarrow>
    if admissible (req_items request) (\<lambda>p. avail p db - resv p db)
    then reply = Reply \<lparr>success = True, reason = None\<rparr> \<and>
      (\<forall>p. avail p db' = avail p db \<and> resv p db' = resv p db + demand p (req_items request)) \<and>
      findReservation (req_orderId request) db' =
        Some \<lparr>res_orderId = req_orderId request, res_items = req_items request, res_status = RESERVED\<rparr>
    else db' = db \<and> (\<exists>why. reply = Reply \<lparr>success = False, reason = Some why\<rparr>)"
  using assms by (rule reserve_outcome)

theorem reserve_all_or_nothing_witness:
  "case reserve no_faults (a_request ''o1'' ''scarce'' 9) False stock_of_5 of (reply, db') \<Rightarrow>
     db' = stock_of_5 \<and> (\<exists>why. reply = Reply \<lparr>success = False, reason = Some why\<rparr>)"
proof -
  have new: "findReservation (req_orderId (a_request ''o1'' ''scarce'' 9)) stock_of_5 = None"
    by (simp add: stock_of_5_def)
  have "\<not> admissible (req_items (a_request ''o1'' ''scarce'' 9)) (\<lambda>p. avail p stock_of_5 - resv p stock_of_5)"
    by (simp add: admissible_def a_request_def an_item_def avail_def resv_def stock_of_5_def)
  with reserve_all_or_nothing [OF inventory_inv_stock_of_5 new] show ?thesis
    by (auto split: prod.splits)
qed

lemma in_turn_claim:
  "in_turn (ConfirmCall oid) db \<longleftrightarrow> (\<forall>items. claim (ledger_of db) oid \<noteq> Some (RELEASED, items))"
  by (auto simp: claim_lookup split: option.splits)

lemma in_turn_kept:
  assumes "in_turn c db" and "ledger_of db' = ledger_call c (ledger_of db)"
  shows "in_turn c db'"
proof (cases c)
  case (ConfirmCall oid)
  with assms show ?thesis
    by (auto simp: in_turn_claim ledger_confirm_def simp del: in_turn.simps
        split: option.splits prod.splits ReservationStatus.splits)
qed simp_all

lemma settled_claim_kept:
  "claim l oid = Some (st, items) \<Longrightarrow> st \<noteq> RESERVED \<Longrightarrow> claim (ledger_call c l) oid = Some (st, items)"
  by (cases c) (auto simp: ledger_reserve_def ledger_confirm_def ledger_release_def
      split: option.splits ReservationStatus.splits)

text \<open>A settled reservation stays settled: once an order's reservation is CONFIRMED or RELEASED,
  no later call of any handler in turn changes its status.\<close>
theorem settled_reservation_is_final:
  assumes "inventory_inv db" and "in_turn c db"
    and "findReservation oid db = Some r" and "res_status r \<noteq> RESERVED"
  shows "map_option res_status (findReservation oid (snd (handle_inventory f rd c db))) = Some (res_status r)"
proof -
  have claimed: "claim (ledger_of db) oid = Some (res_status r, res_items r)"
    using assms(3) by (simp add: claim_lookup)
  have "claim (ledger_of (snd (handle_inventory f rd c db))) oid = Some (res_status r, res_items r)"
    using handle_inventory_cases(1) [OF assms(1,2), of f rd] claimed
      settled_claim_kept [OF claimed assms(4), of c]
    by (auto simp: call_effect_def)
  then show ?thesis by (auto simp: claim_lookup)
qed

theorem settled_reservation_is_final_witness:
  "map_option res_status (findReservation ''o1''
     (snd (handle_inventory no_faults False (ReleaseCall ''o1'') (stock_with CONFIRMED)))) = Some CONFIRMED"
  using settled_reservation_is_final [OF inventory_inv_stock_with [of CONFIRMED], where c = "ReleaseCall ''o1''" and
      oid = "''o1''" and r = "the_claim CONFIRMED" and f = no_faults and rd = False]
  by (simp add: stock_with_def the_claim_def)

text \<open>Repeating a call is harmless: a second identical call without faults leaves stock, promises
  and claims as the first one left them.\<close>
theorem inventory_call_idempotent:
  assumes "inventory_inv db" and "in_turn c db"
  shows "ledger_of (snd (handle_inventory no_faults False c (snd (handle_inventory no_faults False c db)))) =
    ledger_of (snd (handle_inventory no_faults False c db))"
proof -
  have inv: "inventory_inv (snd (handle_inventory no_faults False c db))"
    and l: "ledger_of (snd (handle_inventory no_faults False c db)) = ledger_call c (ledger_of db)"
    using handle_inventory_cases(2) [OF assms] by (simp_all add: call_effect_def)
  have "in_turn c (snd (handle_inventory no_faults False c db))"
    using in_turn_kept [OF assms(2)] l by blast
  from handle_inventory_cases(2) [OF inv this] show ?thesis
    by (simp add: call_effect_def l ledger_call_idem)
qed

theorem inventory_call_idempotent_witness:
  "let call = handle_inventory no_faults False (ReserveCall (a_request ''o2'' ''scarce'' 3));
       db = stock_with RESERVED in
   ledger_of (snd (call (snd (call db)))) = ledger_of (snd (call db))"
  using inventory_call_idempotent [OF inventory_inv_stock_with [of RESERVED],
      of "ReserveCall (a_request ''o2'' ''scarce'' 3)"]
  by (simp add: Let_def)

text \<open>Release compensates reserve: reserving a new order and then releasing it gives every product
  its available and reserved quantities back, whether or not the reservation succeeded.\<close>
theorem release_undoes_reserve:
  assumes "inventory_inv db" and "findReservation (req_orderId request) db = None"
  shows "(let db1 = snd (reserve no_faults request False db);
      db2 = snd (release no_faults (req_orderId request) False db1)
    in inventory_inv db2 \<and> (\<forall>p. avail p db2 = avail p db \<and> resv p db2 = resv p db))"
proof -
  let ?db1 = "snd (handle_inventory no_faults False (ReserveCall request) db)"
  let ?db2 = "snd (handle_inventory no_faults False (ReleaseCall (req_orderId request)) ?db1)"
  have 1: "call_effect (ReserveCall request) db ?db1"
    by (rule handle_inventory_cases(2) [OF assms(1)]) simp
  then have 2: "call_effect (ReleaseCall (req_orderId request)) ?db1 ?db2"
    by (intro handle_inventory_cases(2)) (simp_all add: call_effect_def)
  have "ledger_of ?db2 = ledger_release (req_orderId request)
      (ledger_reserve (req_orderId request) (req_items request) (ledger_of db))"
    using 1 2 by (simp add: call_effect_def)
  moreover have "claim (ledger_of db) (req_orderId request) = None"
    using assms(2) by (simp add: claim_lookup)
  ultimately have "on_hand (ledger_of ?db2) p = on_hand (ledger_of db) p \<and>
      promised (ledger_of ?db2) p = promised (ledger_of db) p" for p
    by (simp add: ledger_release_def ledger_reserve_def)
  then have "avail p ?db2 = avail p db \<and> resv p ?db2 = resv p db" for p
    unfolding on_hand_lookup .
  moreover have "inventory_inv ?db2"
    using 2 by (simp add: call_effect_def)
  ultimately show ?thesis by (simp add: Let_def)
qed

theorem release_undoes_reserve_witness:
  "(let db1 = snd (reserve no_faults (a_request ''o2'' ''scarce'' 3) False (stock_with RESERVED));
      db2 = snd (release no_faults ''o2'' False db1)
    in resv ''scarce'' db1 = 5 \<and> resv ''scarce'' db2 = 2)"
proof -
  have "findReservation (req_orderId (a_request ''o2'' ''scarce'' 3)) (stock_with RESERVED) = None"
    by (simp add: a_request_def stock_with_def the_claim_def)
  from release_undoes_reserve [OF inventory_inv_stock_with this]
  have "let db1 = snd (reserve no_faults (a_request ''o2'' ''scarce'' 3) False (stock_with RESERVED))
    in resv ''scarce'' (snd (release no_faults ''o2'' False db1)) = resv ''scarce'' (stock_with RESERVED)"
    by (simp add: Let_def a_request_def)
  moreover have "resv ''scarce'' (stock_with RESERVED) = 2"
    by (simp add: resv_def stock_with_def)
  moreover have "resv ''scarce'' (snd (reserve no_faults (a_request ''o2'' ''scarce'' 3) False (stock_with RESERVED))) = 5"
    by code_simp
  ultimately show ?thesis by (simp add: Let_def)
qed

section \<open>Confirm and release, branch by branch\<close>

lemma claim_known:
  assumes "claim (ledger_of db') oid = Some (st, items)"
  obtains r where "findReservation oid db' = Some r" "res_orderId r = oid" "res_status r = st" "res_items r = items"
  using assms by (auto simp: claim_lookup dest: find_row_SomeD)

lemma confirm_outcome:
  assumes "inventory_inv db"
  shows "case findReservation oid db of
     None \<Rightarrow> confirm no_faults oid False db =
        (Reply \<lparr>success = False, reason = Some ''reservation_not_found''\<rparr>, db)
   | Some r \<Rightarrow> (case res_status r of
        CONFIRMED \<Rightarrow> confirm no_faults oid False db = (Reply rpc_ok, db)
      | RESERVED \<Rightarrow> (\<exists>db'. confirm no_faults oid False db = (Reply rpc_ok, db') \<and>
          findReservation oid db' = Some (r\<lparr>res_status := CONFIRMED\<rparr>) \<and>
          (\<forall>p. avail p db' = avail p db - demand p (res_items r) \<and>
               resv p db' = resv p db - demand p (res_items r)))
      | RELEASED \<Rightarrow> True)"
proof (cases "findReservation oid db")
  case (Some r)
  have "\<exists>db'. confirm no_faults oid False db = (Reply rpc_ok, db') \<and>
          findReservation oid db' = Some (r\<lparr>res_status := CONFIRMED\<rparr>) \<and>
          (\<forall>p. avail p db' = avail p db - demand p (res_items r) \<and>
               resv p db' = resv p db - demand p (res_items r))" if st: "res_status r = RESERVED"
  proof -
    obtain db' where tx: "confirm_tx None r db = (rpc_ok, db')"
      and l: "ledger_of db' = ledger_confirm oid (ledger_of db)"
      using confirm_tx_open [OF assms Some st] by metis
    have c: "claim (ledger_of db) oid = Some (RESERVED, res_items r)"
      using Some st by (simp add: claim_lookup)
    have "claim (ledger_of db') oid = Some (CONFIRMED, res_items r)"
      by (simp add: l c ledger_confirm_def)
    then obtain r' where r': "findReservation oid db' = Some r'" "res_orderId r' = oid"
      "res_status r' = CONFIRMED" "res_items r' = res_items r"
      by (rule claim_known)
    have "r' = r\<lparr>res_status := CONFIRMED\<rparr>"
      using r' find_row_SomeD [OF Some] by (cases r; cases r') simp
    moreover have "on_hand (ledger_of db') p = on_hand (ledger_of db) p - demand p (res_items r)"
      "promised (ledger_of db') p = promised (ledger_of db) p - demand p (res_items r)" for p
      by (simp_all add: l c ledger_confirm_def)
    ultimately show ?thesis
      using tx Some st r'(1) by (simp add: confirm_def no_faults_def on_hand_lookup)
  qed
  with Some show ?thesis
    by (cases "res_status r") (auto simp: confirm_def no_faults_def)
qed (simp add: confirm_def no_faults_def)

text \<open>On well-formed tables confirm answers by the state of the reservation: an unknown order is
  refused, a confirmed one is acknowledged without a second decrement, and an open one takes its
  quantities off the stock and off the reserved stock and becomes CONFIRMED.\<close>
theorem confirm_by_status:
  assumes "inventory_inv db"
  shows "case findReservation oid db of
     None \<Rightarrow> confirm no_faults oid False db =
        (Reply \<lparr>success = False, reason = Some ''reservation_not_found''\<rparr>, db)
   | Some r \<Rightarrow> (case res_status r of
        CONFIRMED \<Rightarrow> confirm no_faults oid False db = (Reply rpc_ok, db)
      | RESERVED \<Rightarrow> (\<exists>db'. confirm no_faults oid False db = (Reply rpc_ok, db') \<and>
          findReservation oid db' = Some (r\<lparr>res_status := CONFIRMED\<rparr>) \<and>
          (\<forall>p. avail p db' = avail p db - demand p (res_items r) \<and>
               resv p db' = resv p db - demand p (res_items r)))
      | RELEASED \<Rightarrow> True)"
  using assms by (rule confirm_outcome)

theorem confirm_by_status_witness:
  "\<exists>db'. confirm no_faults ''o1'' False (stock_with RESERVED) = (Reply rpc_ok, db') \<and> avail ''scarce'' db' = 3"
proof -
  have "findReservation ''o1'' (stock_with RESERVED) = Some (the_claim RESERVED)"
    "avail ''scarce'' (stock_with RESERVED) = 5"
    by (simp_all add: stock_with_def the_claim_def avail_def)
  with confirm_by_status [OF inventory_inv_stock_with, of "''o1''" RESERVED]
  show ?thesis by (auto simp: the_claim_def an_item_def)
qed

lemma release_outcome:
  assumes "inventory_inv db"
  shows "case findReservation oid db of
     None \<Rightarrow> release no_faults oid False db = (Reply rpc_ok, db)
   | Some r \<Rightarrow> (case res_status r of
        RESERVED \<Rightarrow> (\<exists>db'. release no_faults oid False db = (Reply rpc_ok, db') \<and>
          findReservation oid db' = Some (r\<lparr>res_status := RELEASED\<rparr>) \<and>
          (\<forall>p. avail p db' = avail p db \<and> resv p db' = resv p db - demand p (res_items r)))
      | _ \<Rightarrow> release no_faults oid False db = (Reply rpc_ok, db))"
proof (cases "findReservation oid db")
  case (Some r)
  have "\<exists>db'. release no_faults oid False db = (Reply rpc_ok, db') \<and>
          findReservation oid db' = Some (r\<lparr>res_status := RELEASED\<rparr>) \<and>
          (\<forall>p. avail p db' = avail p db \<and> resv p db' = resv p db - demand p (res_items r))"
    if st: "res_status r = RESERVED"
  proof -
    obtain db' where tx: "release_tx None r db = (rpc_ok, db')"
      and l: "ledger_of db' = ledger_release oid (ledger_of db)"
      using release_tx_open [OF assms Some st] by metis
    have c: "claim (ledger_of db) oid = Some (RESERVED, res_items r)"
      using Some st by (simp add: claim_lookup)
    have "claim (ledger_of db') oid = Some (RELEASED, res_items r)"
      by (simp add: l c ledger_release_def)
    then obtain r' where r': "findReservation oid db' = Some r'" "res_orderId r' = oid"
      "res_status r' = RELEASED" "res_items r' = res_items r"
      by (rule claim_known)
    have "r' = r\<lparr>res_status := RELEASED\<rparr>"
      using r' find_row_SomeD [OF Some] by (cases r; cases r') simp
    moreover have "on_hand (ledger_of db') p = on_hand (ledger_of db) p"
      "promised (ledger_of db') p = promised (ledger_of db) p - demand p (res_items r)" for p
      by (simp_all add: l c ledger_release_def)
    ultimately show ?thesis
      using tx Some st r'(1) by (simp add: release_def no_faults_def on_hand_lookup)
  qed
  with Some show ?thesis
    by (cases "res_status r") (auto simp: release_def no_faults_def)
qed (simp add: release_def no_faults_def)

text \<open>On well-formed tables release always answers with success: it gives the reserved
  quantities of an open reservation back and marks it RELEASED, and it leaves everything as it is
  when there is no reservation or the reservation is already confirmed or released.\<close>
theorem release_by_status:
  assumes "inventory_inv db"
  shows "case findReservation oid db of
     None \<Rightarrow> release no_faults oid False db = (Reply rpc_ok, db)
   | Some r \<Rightarrow> (case res_status r of
        RESERVED \<Rightarrow> (\<exists>db'. release no_faults oid False db = (Reply rpc_ok, db') \<and>
          findReservation oid db' = Some (r\<lparr>res_status := RELEASED\<rparr>) \<and>
          (\<forall>p. avail p db' = avail p db \<and> resv p db' = resv p db - demand p (res_items r)))
      | _ \<Rightarrow> release no_faults oid False db = (Reply rpc_ok, db))"
  using assms by (rule release_outcome)

theorem release_by_status_witness:
  "\<exists>db'. release no_faults ''o1'' False (stock_with RESERVED) = (Reply rpc_ok, db') \<and> resv ''scarce'' db' = 0"
proof -
  have "findReservation ''o1'' (stock_with RESERVED) = Some (the_claim RESERVED)"
    "resv ''scarce'' (stock_with RESERVED) = 2"
    by (simp_all add: stock_with_def the_claim_def resv_def)
  with release_by_status [OF inventory_inv_stock_with, of "''o1''" RESERVED]
  show ?thesis by (auto simp: the_claim_def an_item_def)
qed

section \<open>A confirm out of turn\<close>

definition run_calls :: "inventory_call list \<Rightarrow> InventoryDB \<Rightarrow> InventoryDB" where
  "run_calls cs db = fold (\<lambda>c db. snd (handle_inventory no_faults False c db)) cs db"

text \<open>The handler of confirm only asks whether a reservation is CONFIRMED. Confirming one that
  was RELEASED answers with success and takes its quantities off a second time: the reserved quantity
  becomes negative, a later order can reserve more than the stock, and the available quantity ends
  below zero.\<close>
theorem confirm_after_release_oversells:
  "let calls = [ReserveCall (a_request ''o1'' ''p1'' 4), ReleaseCall ''o1'', ConfirmCall ''o1'',
      ReserveCall (a_request ''o2'' ''p1'' 1000), ConfirmCall ''o2''] in
   fst (handle_inventory no_faults False (ConfirmCall ''o1'') (run_calls (take 2 calls) empty_inventory))
     = Reply \<lparr>success = True, reason = None\<rparr> \<and>
   resv ''p1'' (run_calls (take 3 calls) empty_inventory) = -4 \<and>
   avail ''p1'' (run_calls calls empty_inventory) = -4"
  by code_simp


section \<open>Reachability\<close>

text \<open>The service over its life: it starts with some stock and no reservation, and then handles
  any calls, with any faults and redeliveries, none out of turn.\<close>

definition inventory_start :: "InventoryDB \<Rightarrow> bool" where
  "inventory_start db \<longleftrightarrow> reservations db = [] \<and> distinct (map stock_productId (stock_items db)) \<and>
     (\<forall>s \<in> set (stock_items db). reservedQuantity s = 0 \<and> 0 \<le> availableQuantity s \<and>
        availableQuantity s \<le> int4_max)"

lemma inventory_start_inv: "inventory_start db \<Longrightarrow> inventory_inv db"
  by (auto simp: inventory_start_def inventory_inv_def stock_ok_def stock_row_ok_def claimed_def resv_def
      dest: find_row_SomeD split: option.splits)

inductive inventory_step :: "InventoryDB \<Rightarrow> inventory_faults \<times> bool \<times> inventory_call \<Rightarrow> InventoryDB \<Rightarrow> bool" where
  "in_turn c db \<Longrightarrow> inventory_step db (f, rd, c) (snd (handle_inventory f rd c db))"

inductive_cases inventory_stepE: "inventory_step db e db'"

interpretation inventory_life: inductive_invariant inventory_start inventory_step inventory_inv
  by unfold_locales (auto elim!: inventory_stepE intro: handle_inventory_inv inventory_start_inv)

text \<open>The service never sells more than it has: in every state it can reach from a stock
  without reservations, the reserved quantity of a product is the sum over its open reservations
  and lies between zero and the available quantity.\<close>
theorem never_oversold:
  assumes "reachable inventory_start inventory_step db"
  shows "0 \<le> resv p db \<and> resv p db \<le> avail p db \<and> resv p db = claimed RESERVED p db"
proof -
  have "inventory_inv db" using assms by (rule inventory_life.holds_when_reachable)
  then have "stock_ok db" and "resv p db = claimed RESERVED p db"
    by (simp_all add: inventory_inv_def)
  with stock_ok_bounds [of db p] show ?thesis by simp
qed

theorem never_oversold_witness:
  "resv ''scarce'' (snd (handle_inventory no_faults False (ReserveCall (a_request ''o1'' ''scarce'' 9)) stock_of_5))
    \<le> avail ''scarce'' (snd (handle_inventory no_faults False (ReserveCall (a_request ''o1'' ''scarce'' 9)) stock_of_5))"
proof -
  have "reachable inventory_start inventory_step stock_of_5"
    by (rule reachable_init) (simp add: inventory_start_def stock_of_5_def int4_max_def)
  then have "reachable inventory_start inventory_step
      (snd (handle_inventory no_faults False (ReserveCall (a_request ''o1'' ''scarce'' 9)) stock_of_5))"
    by (rule reachable_step) (rule inventory_step.intros, simp)
  from never_oversold [OF this, of "''scarce''"] show ?thesis by simp
qed

end
