(* ===== verification/Inventory_Concurrency.thy ===== *)
theory Inventory_Concurrency
  imports Inventory_Props
begin

text \<open>
  Handlers at work at the same time: the consumer starts a handler while earlier ones wait for
  the database, so the lookup of the reservation and the transaction of one handler may have
  other handlers between them. A transaction itself runs as one step (the row locks its
  \<open>UPDATE\<close>s take hold until its end).
\<close>

section \<open>The two halves of a handler\<close>

datatype inventory_tx =
    ReserveTx ReserveRequest
  | ConfirmTx Reservation
  | ReleaseTx Reservation

text \<open>What a handler does before its transaction: an immediate answer, or the transaction to run.\<close>

fun before_tx :: "exn option \<Rightarrow> inventory_call \<Rightarrow> InventoryDB \<Rightarrow> RpcResult + inventory_tx" where
  "before_tx fault (ReserveCall request) db =
     (case attempt fault (Inr (findReservation (req_orderId request) db)) of
        Inl _ \<Rightarrow> Inl \<lparr>success = False, reason = Some ''internal_error''\<rparr>
      | Inr (Some existing) \<Rightarrow> Inl \<lparr>success = res_status existing \<noteq> RELEASED, reason = None\<rparr>
      | Inr None \<Rightarrow> Inr (ReserveTx request))"
| "before_tx fault (ConfirmCall oid) db =
     (case attempt fault (Inr (findReservation oid db)) of
        Inl _ \<Rightarrow> Inl \<lparr>success = False, reason = Some ''internal_error''\<rparr>
      | Inr None \<Rightarrow> Inl \<lparr>success = False, reason = Some ''reservation_not_found''\<rparr>
      | Inr (Some r) \<Rightarrow> (if res_status r = CONFIRMED then Inl rpc_ok else Inr (ConfirmTx r)))"
| "before_tx fault (ReleaseCall oid) db =
     (case attempt fault (Inr (findReservation oid db)) of
        Inl _ \<Rightarrow> Inl \<lparr>success = False, reason = Some ''internal_error''\<rparr>
      | Inr None \<Rightarrow> Inl rpc_ok
      | Inr (Some r) \<Rightarrow> (if res_status r \<noteq> RESERVED then Inl rpc_ok else Inr (ReleaseTx r)))"

fun run_tx :: "nat option \<Rightarrow> inventory_tx \<Rightarrow> InventoryDB \<Rightarrow> RpcResult \<times> InventoryDB" where
  "run_tx fault (ReserveTx request) db = reserve_tx fault request db"
| "run_tx fault (ConfirmTx r) db = confirm_tx fault r db"
| "run_tx fault (ReleaseTx r) db = release_tx fault r db"

text \<open>A handler that nothing interrupts is its lookup followed by its transaction, so the
  interleaved service below runs the same code as the sequential handlers.\<close>
theorem handler_is_lookup_then_tx:
  "handle_inventory f False c db = (case before_tx (lookup_fault f) c db of
      Inl r \<Rightarrow> (Reply r, db)
    | Inr tx \<Rightarrow> apfst Reply (run_tx (tx_fault f) tx db))"
  by (cases c; cases "lookup_fault f")
    (auto simp: reserve_def confirm_def release_def split: option.splits prod.splits)

section \<open>The interleaved service\<close>

record live_inventory =
  tables :: InventoryDB
  running :: "inventory_tx list"

definition begin_call :: "exn option \<Rightarrow> inventory_call \<Rightarrow> live_inventory \<Rightarrow> live_inventory" where
  "begin_call fault c s = (case before_tx fault c (tables s) of
     Inl _ \<Rightarrow> s | Inr tx \<Rightarrow> s\<lparr>running := running s @ [tx]\<rparr>)"

definition finish_tx :: "nat option \<Rightarrow> nat \<Rightarrow> live_inventory \<Rightarrow> live_inventory" where
  "finish_tx fault k s = (if k < length (running s)
     then \<lparr>tables = snd (run_tx fault (running s ! k) (tables s)),
           running = take k (running s) @ drop (Suc k) (running s)\<rparr>
     else s)"

text \<open>A reservation that a transaction settles is still the one its handler has read. For
  reserve nothing is asked: its guard is the unique index on the order.\<close>

fun still_current :: "InventoryDB \<Rightarrow> inventory_tx \<Rightarrow> bool" where
  "still_current db (ReserveTx _) = True"
| "still_current db (ConfirmTx r) = (findReservation (res_orderId r) db = Some r)"
| "still_current db (ReleaseTx r) = (findReservation (res_orderId r) db = Some r)"

datatype live_event = Begin "exn option" inventory_call | Finish "nat option" nat

inductive live_step :: "live_inventory \<Rightarrow> live_event \<Rightarrow> live_inventory \<Rightarrow> bool" where
  begin_handler: "in_turn c (tables s) \<Longrightarrow> live_step s (Begin fault c) (begin_call fault c s)"
| finish_handler: "k < length (running s) \<Longrightarrow> still_current (tables s) (running s ! k) \<Longrightarrow>
    live_step s (Finish fault k) (finish_tx fault k s)"

inductive_cases live_stepE: "live_step s e t"

section \<open>The invariant\<close>

fun opened :: "inventory_tx \<Rightarrow> bool" where
  "opened (ReserveTx _) = True"
| "opened (ConfirmTx r) = (res_status r = RESERVED)"
| "opened (ReleaseTx r) = (res_status r = RESERVED)"

definition live_start :: "live_inventory \<Rightarrow> bool" where
  "live_start s \<longleftrightarrow> inventory_start (tables s) \<and> running s = []"

definition live_inv :: "live_inventory \<Rightarrow> bool" where
  "live_inv s \<longleftrightarrow> inventory_inv (tables s) \<and> (\<forall>tx \<in> set (running s). opened tx)"

lemma before_tx_opened:
  "before_tx fault c db = Inr tx \<Longrightarrow> in_turn c db \<Longrightarrow> opened tx"
  by (cases c; cases fault) (auto intro: ReservationStatus.exhaust split: option.splits if_splits)

text \<open>Whatever happened since the lookup, a reserve transaction keeps the tables well formed: if
  the order got its reservation meanwhile, the insert fails and the transaction rolls back.\<close>

lemma reserve_tx_inv:
  assumes "inventory_inv db"
  shows "inventory_inv (snd (reserve_tx fault request db))"
proof (cases "findReservation (req_orderId request) db = None \<and> fault = None \<and>
    admissible (req_items request) (\<lambda>p. avail p db - resv p db)")
  case True
  then show ?thesis
    using reserve_tx_admissible [OF assms, of request] by (metis snd_conv)
next
  case known: False
  have ok: "stock_ok db" using assms by (simp add: inventory_inv_def)
  show ?thesis
  proof (cases "fault \<noteq> None \<or> \<not> admissible (req_items request) (\<lambda>p. avail p db - resv p db)")
    case True
    with reserve_tx_rejected [OF this ok] assms show ?thesis by auto
  next
    case False
    with known have "req_orderId request \<in> res_orderId ` set (reservations db)"
      by (auto simp: find_row_None_iff)
    moreover have "reservations db1 = reservations db"
      if "reserve_items None (req_items request) db = Inr (fault', db1)" for fault' db1
      using reserve_items_ok [OF ok] that False admissible_stock [OF ok] by fastforce
    ultimately have "reserve_body fault request db \<noteq> Inr x" for x
      using False by (auto simp: reserve_body_def attempt_Inr insert_row_Inr split: sum.splits)
    then have "snd (reserve_tx fault request db) = db"
      by (auto simp: reserve_tx_def split: sum.splits inventory_exn.splits)
    with assms show ?thesis by simp
  qed
qed

lemma run_tx_inv:
  assumes "inventory_inv db" and "opened tx" and "still_current db tx"
  shows "inventory_inv (snd (run_tx fault tx db))"
proof (cases tx)
  case (ReserveTx request)
  with assms show ?thesis by (simp add: reserve_tx_inv)
next
  case (ConfirmTx r)
  with assms show ?thesis
    using confirm_tx_open [OF assms(1), of "res_orderId r" r]
    by (cases fault) (simp_all add: faulty_tx_rolls_back, metis snd_conv)
next
  case (ReleaseTx r)
  with assms show ?thesis
    using release_tx_open [OF assms(1), of "res_orderId r" r]
    by (cases fault) (simp_all add: faulty_tx_rolls_back, metis snd_conv)
qed

lemma live_step_inv: "live_step s e t \<Longrightarrow> live_inv s \<Longrightarrow> live_inv t"
proof (induction rule: live_step.induct)
  case (begin_handler c s fault)
  then show ?case
    by (auto simp: live_inv_def begin_call_def dest: before_tx_opened split: sum.splits)
next
  case (finish_handler k s fault)
  then show ?case
    by (auto simp: live_inv_def finish_tx_def intro: run_tx_inv dest: in_set_takeD in_set_dropD)
qed

interpretation live: inductive_invariant live_start live_step live_inv
  by unfold_locales
    (auto simp: live_start_def live_inv_def intro: inventory_start_inv dest: live_step_inv)

text \<open>Handlers that overlap do not oversell, as long as no two of them settle one
  reservation: any number of reserve handlers may be between their lookup and their transaction,
  also for the same order, and the reserved quantity stays between zero and the available one.\<close>
theorem overlapping_handlers_never_oversell:
  assumes "reachable live_start live_step s"
  shows "0 \<le> resv p (tables s) \<and> resv p (tables s) \<le> avail p (tables s)"
proof -
  have "stock_ok (tables s)"
    using live.holds_when_reachable [OF assms] by (simp add: live_inv_def inventory_inv_def)
  then show ?thesis by (simp add: stock_ok_bounds)
qed

definition idle_stock :: live_inventory where
  "idle_stock = \<lparr>tables = stock_of_5, running = []\<rparr>"

text \<open>Two orders for 4 of the 5 pieces, both past their lookup before either transaction.\<close>

definition two_buyers :: live_inventory where
  "two_buyers = begin_call None (ReserveCall (a_request ''o2'' ''scarce'' 4))
     (begin_call None (ReserveCall (a_request ''o1'' ''scarce'' 4)) idle_stock)"

theorem overlapping_handlers_never_oversell_witness:
  "resv ''scarce'' (tables (finish_tx None 0 (finish_tx None 1 two_buyers))) \<le>
   avail ''scarce'' (tables (finish_tx None 0 (finish_tx None 1 two_buyers)))"
proof -
  have "reachable live_start live_step idle_stock"
    by (rule reachable_init) (simp add: live_start_def inventory_start_def idle_stock_def stock_of_5_def int4_max_def)
  then have "reachable live_start live_step (begin_call None (ReserveCall (a_request ''o1'' ''scarce'' 4)) idle_stock)"
    by (rule reachable_step) (rule begin_handler, simp)
  then have two: "reachable live_start live_step two_buyers"
    unfolding two_buyers_def by (rule reachable_step) (rule begin_handler, simp)
  have run2: "running two_buyers =
      [ReserveTx (a_request ''o1'' ''scarce'' 4), ReserveTx (a_request ''o2'' ''scarce'' 4)]"
    by (simp add: two_buyers_def begin_call_def idle_stock_def stock_of_5_def)
  from two have one: "reachable live_start live_step (finish_tx None 1 two_buyers)"
    by (rule reachable_step) (rule finish_handler, simp_all add: run2)
  have run1: "running (finish_tx None 1 two_buyers) = [ReserveTx (a_request ''o1'' ''scarce'' 4)]"
    by (simp add: finish_tx_def run2)
  from one have "reachable live_start live_step (finish_tx None 0 (finish_tx None 1 two_buyers))"
    by (rule reachable_step) (rule finish_handler, simp_all add: run1 [simplified])
  from overlapping_handlers_never_oversell [OF this, of "''scarce''"] show ?thesis by simp
qed

section \<open>Two handlers that settle the same reservation\<close>

text \<open>The check of the status is outside the transaction, so two confirm calls for one order
  that overlap both find it RESERVED, both answer with success, and the second takes the
  quantities off a second time: 2 of 5 pieces were ordered, 1 is left and the reserved quantity is
  negative.\<close>
theorem overlapping_confirms_decrement_twice:
  "let s0 = \<lparr>tables = stock_with RESERVED, running = []\<rparr>;
       s2 = begin_call None (ConfirmCall ''o1'') (begin_call None (ConfirmCall ''o1'') s0);
       s3 = finish_tx None 0 s2; s4 = finish_tx None 0 s3 in
   avail ''scarce'' (tables s3) = 3 \<and> resv ''scarce'' (tables s3) = 0 \<and>
   avail ''scarce'' (tables s4) = 1 \<and> resv ''scarce'' (tables s4) = -2"
  by code_simp

end
