(* ===== verification/Row_Versions.thy ===== *)
theory Row_Versions
  imports Inventory_Concurrency "HOL-Library.List_Lexorder" "HOL-Library.Char_ord"
begin

text \<open>
  The transactions of \<open>inventory.service.ts\<close> as the statements they send, one after the other, and what
  each writes: new versions of rows. A transaction that nobody disturbs does with its statements what
  \<open>run_tx\<close> does in one go; and it does the same on any other tables that agree on the rows it has
  written, which is what the row locks of the next theory keep true.
\<close>

section \<open>Rows and versions\<close>

datatype row = StockRow string | ReservationRow string

datatype row_version = StockVersion StockItem | ReservationVersion Reservation

fun row_of :: "row_version \<Rightarrow> row" where
  "row_of (StockVersion s) = StockRow (stock_productId s)"
| "row_of (ReservationVersion r) = ReservationRow (res_orderId r)"

text \<open>Rows are ordered as the transactions touch them: stock before reservations.\<close>

instantiation row :: linorder
begin

fun less_eq_row :: "row \<Rightarrow> row \<Rightarrow> bool" where
  "less_eq_row (StockRow p) (StockRow q) \<longleftrightarrow> p \<le> q"
| "less_eq_row (StockRow p) (ReservationRow q) \<longleftrightarrow> True"
| "less_eq_row (ReservationRow p) (StockRow q) \<longleftrightarrow> False"
| "less_eq_row (ReservationRow p) (ReservationRow q) \<longleftrightarrow> p \<le> q"

definition less_row :: "row \<Rightarrow> row \<Rightarrow> bool" where
  "less_row k l \<longleftrightarrow> k \<le> l \<and> \<not> l \<le> k"

instance
proof
  fix k l m :: row
  show "k < l \<longleftrightarrow> k \<le> l \<and> \<not> l \<le> k" by (simp add: less_row_def)
  show "k \<le> k" by (cases k) simp_all
  show "k \<le> m" if "k \<le> l" "l \<le> m" using that by (cases k; cases l; cases m) auto
  show "k = l" if "k \<le> l" "l \<le> k" using that by (cases k; cases l) auto
  show "k \<le> l \<or> l \<le> k" by (cases k; cases l) auto
qed

end

fun lookup :: "row \<Rightarrow> InventoryDB \<Rightarrow> row_version option" where
  "lookup (StockRow p) db = map_option StockVersion (findStock p db)"
| "lookup (ReservationRow oid) db = map_option ReservationVersion (findReservation oid db)"

text \<open>Storing a version replaces the row or appends it.\<close>

definition upsert :: "('r \<Rightarrow> 'k) \<Rightarrow> 'r \<Rightarrow> 'r list \<Rightarrow> 'r list" where
  "upsert key r rows = (if key r \<in> key ` set rows then update_rows key (key r) (\<lambda>_. r) rows else rows @ [r])"

fun put :: "row_version \<Rightarrow> InventoryDB \<Rightarrow> InventoryDB" where
  "put (StockVersion s) db = db\<lparr>stock_items := upsert stock_productId s (stock_items db)\<rparr>"
| "put (ReservationVersion r) db = db\<lparr>reservations := upsert res_orderId r (reservations db)\<rparr>"

text \<open>The tables as a transaction sees them: the committed ones under its own versions.\<close>

definition overlay :: "row_version list \<Rightarrow> InventoryDB \<Rightarrow> InventoryDB" where
  "overlay vs db = fold put vs db"

lemma overlay_simps [simp]:
  "overlay [] db = db" "overlay (v # vs) db = overlay vs (put v db)" "overlay (vs @ ws) db = overlay ws (overlay vs db)"
  by (simp_all add: overlay_def)

lemma find_upsert: "find_row key k (upsert key r rows) = (if k = key r then Some r else find_row key k rows)"
proof -
  have "find_row key k (update_rows key (key r) (\<lambda>_. r) rows) = (if k = key r \<and> key r \<in> key ` set rows then Some r else find_row key k rows)"
    by (induction rows) (auto simp: update_rows_def)
  then show ?thesis by (auto simp: upsert_def find_row_append find_row_notin split: option.splits)
qed

lemma upsert_keys: "map key (upsert key r rows) = (if key r \<in> key ` set rows then map key rows else map key rows @ [key r])"
  by (induction rows) (auto simp: upsert_def update_rows_def)

lemma distinct_upsert: "distinct (map key rows) \<Longrightarrow> distinct (map key (upsert key r rows))"
  by (auto simp: upsert_keys)

lemma lookup_put: "lookup k (put v db) = (if k = row_of v then Some v else lookup k db)"
  by (cases k; cases v) (auto simp: find_upsert)

lemma lookup_key: "lookup k db = Some v \<Longrightarrow> row_of v = k"
  by (cases k) (auto dest: find_row_SomeD)

lemma lookup_overlay_other: "k \<notin> row_of ` set vs \<Longrightarrow> lookup k (overlay vs db) = lookup k db"
  by (induction vs arbitrary: db) (auto simp: lookup_put)

lemma lookup_overlay_known: "lookup k db \<noteq> None \<Longrightarrow> lookup k (overlay vs db) \<noteq> None"
  by (induction vs arbitrary: db) (auto simp: lookup_put)

lemma lookup_overlay_cong: "lookup k db' = lookup k db \<Longrightarrow> lookup k (overlay vs db') = lookup k (overlay vs db)"
  by (induction vs arbitrary: db db') (auto simp: lookup_put)

text \<open>What two tables must share for a transaction not to notice: the rows it has written, and no row
  of the first is gone.\<close>

definition unnoticed :: "row set \<Rightarrow> InventoryDB \<Rightarrow> InventoryDB \<Rightarrow> bool" where
  "unnoticed ks db db' \<longleftrightarrow> (\<forall>k \<in> ks. lookup k db' = lookup k db) \<and> (\<forall>k. lookup k db \<noteq> None \<longrightarrow> lookup k db' \<noteq> None)"

lemma unnoticed_refl: "unnoticed ks db db"
  by (simp add: unnoticed_def)

lemma unnoticed_overlay: "unnoticed ks db db' \<Longrightarrow> unnoticed ks (overlay vs db) (overlay vs db')"
proof -
  assume shared: "unnoticed ks db db'"
  have "lookup k (overlay vs db') \<noteq> None" if "lookup k (overlay vs db) \<noteq> None" for k
    using that shared by (induction vs arbitrary: db db') (auto simp: unnoticed_def lookup_put split: if_splits)
  with shared show ?thesis by (auto simp: unnoticed_def intro: lookup_overlay_cong)
qed

lemma unnoticed_others: "ks \<inter> row_of ` set vs = {} \<Longrightarrow> unnoticed ks db (overlay vs db)"
  unfolding unnoticed_def by (metis disjoint_iff lookup_overlay_other lookup_overlay_known)

section \<open>Statements\<close>

datatype statement =
    CheckQuantity ReservedItem
  | EnsureStock string
  | ReserveStock string js_number
  | DecrementAvailable string js_number
  | DecrementReserved string js_number
  | InsertReservation Reservation
  | SaveStatus string ReservationStatus

fun touched :: "statement \<Rightarrow> row option" where
  "touched (CheckQuantity _) = None"
| "touched (EnsureStock p) = Some (StockRow p)"
| "touched (ReserveStock p _) = Some (StockRow p)"
| "touched (DecrementAvailable p _) = Some (StockRow p)"
| "touched (DecrementReserved p _) = Some (StockRow p)"
| "touched (InsertReservation r) = Some (ReservationRow (res_orderId r))"
| "touched (SaveStatus oid _) = Some (ReservationRow oid)"

text \<open>The version a row has got by a statement that went through.\<close>

definition stock_version :: "string \<Rightarrow> InventoryDB \<Rightarrow> InventoryDB result \<Rightarrow> inventory_exn + row_version list" where
  "stock_version p db r = (case r of
     Inl e \<Rightarrow> Inl (DatabaseError e)
   | Inr db' \<Rightarrow> Inr (if findStock p db = None then [] else [StockVersion (the (findStock p db'))]))"

text \<open>A statement on the tables its transaction sees: an exception, or what it writes.\<close>

fun perform :: "statement \<Rightarrow> InventoryDB \<Rightarrow> inventory_exn + row_version list" where
  "perform (CheckQuantity item) db =
     (if \<not> js_isInteger (item_quantity item) \<or> js_le (item_quantity item) (js_int 0)
      then Inl (InsufficientStockError (item_productId item)) else Inr [])"
| "perform (EnsureStock p) db = (case ensureStockExists p db of
     Inl e \<Rightarrow> Inl (DatabaseError e)
   | Inr db' \<Rightarrow> Inr (if findStock p db = None then [StockVersion (the (findStock p db'))] else []))"
| "perform (ReserveStock p n) db = (case reserve_update p n db of
     Inl e \<Rightarrow> Inl (DatabaseError e)
   | Inr (affected, db') \<Rightarrow>
       (if affected = 0 then Inl (InsufficientStockError p) else Inr [StockVersion (the (findStock p db'))]))"
| "perform (DecrementAvailable p n) db = stock_version p db (decrement_available p n db)"
| "perform (DecrementReserved p n) db = stock_version p db (decrement_reserved p n db)"
| "perform (InsertReservation r) db = (case insert_row res_orderId r (reservations db) of
     Inl e \<Rightarrow> Inl (DatabaseError e) | Inr _ \<Rightarrow> Inr [ReservationVersion r])"
| "perform (SaveStatus oid st) db = (case findReservation oid db of
     None \<Rightarrow> Inr [] | Some r \<Rightarrow> Inr [ReservationVersion (r\<lparr>res_status := st\<rparr>)])"

fun item_statements :: "ReservedItem \<Rightarrow> statement list" where
  "item_statements item =
     [CheckQuantity item, EnsureStock (item_productId item), ReserveStock (item_productId item) (item_quantity item)]"

fun confirm_statements :: "ReservedItem \<Rightarrow> statement list" where
  "confirm_statements item =
     [DecrementAvailable (item_productId item) (item_quantity item), DecrementReserved (item_productId item) (item_quantity item)]"

text \<open>The statements of a transaction.\<close>

fun program :: "inventory_tx \<Rightarrow> statement list" where
  "program (ReserveTx request) = concat (map item_statements (req_items request)) @
     [InsertReservation \<lparr>res_orderId = req_orderId request, res_items = req_items request, res_status = RESERVED\<rparr>]"
| "program (ConfirmTx r) = concat (map confirm_statements (res_items r)) @ [SaveStatus (res_orderId r) CONFIRMED]"
| "program (ReleaseTx r) = map (\<lambda>item. DecrementReserved (item_productId item) (item_quantity item)) (res_items r) @
     [SaveStatus (res_orderId r) RELEASED]"

fun runs :: "statement list \<Rightarrow> InventoryDB \<Rightarrow> inventory_exn + row_version list" where
  "runs [] db = Inr []"
| "runs (st # sts) db = (case perform st db of
     Inl e \<Rightarrow> Inl e
   | Inr vs \<Rightarrow> (case runs sts (overlay vs db) of Inl e \<Rightarrow> Inl e | Inr ws \<Rightarrow> Inr (vs @ ws)))"

lemma runs_append: "runs (sts @ sts') db = (case runs sts db of
     Inl e \<Rightarrow> Inl e
   | Inr vs \<Rightarrow> (case runs sts' (overlay vs db) of Inl e \<Rightarrow> Inl e | Inr ws \<Rightarrow> Inr (vs @ ws)))"
  by (induction sts arbitrary: db) (auto split: sum.splits)

section \<open>A statement depends on its row\<close>

lemma lookup_same:
  "lookup (StockRow p) db' = lookup (StockRow p) db \<longleftrightarrow> findStock p db' = findStock p db"
  "lookup (ReservationRow oid) db' = lookup (ReservationRow oid) db \<longleftrightarrow> findReservation oid db' = findReservation oid db"
  by (auto simp: map_option_case split: option.splits)

lemma insert_row_by_lookup:
  "insert_row key r rows = (case find_row key (key r) rows of
     None \<Rightarrow> Inr (rows @ [r]) | Some _ \<Rightarrow> Inl (Error ''duplicate key value violates unique constraint''))"
  using find_row_None_iff [of key "key r" rows] by (auto simp: insert_row_def split: option.splits)

lemma perform_stock_unfold:
  "perform (EnsureStock p) db = (case findStock p db of
     Some _ \<Rightarrow> Inr []
   | None \<Rightarrow> Inr [StockVersion \<lparr>stock_productId = p, availableQuantity = DEFAULT_STOCK_QUANTITY, reservedQuantity = 0\<rparr>])"
  "perform (ReserveStock p n) db = (case int4_param n of
     Inl e \<Rightarrow> Inl (DatabaseError e)
   | Inr q \<Rightarrow> (case findStock p db of
       None \<Rightarrow> Inl (InsufficientStockError p)
     | Some s \<Rightarrow> (case int4 (availableQuantity s - reservedQuantity s) of
         Inl e \<Rightarrow> Inl (DatabaseError e)
       | Inr free \<Rightarrow> (if free < q then Inl (InsufficientStockError p)
           else case int4 (reservedQuantity s + q) of
             Inl e \<Rightarrow> Inl (DatabaseError e)
           | Inr r \<Rightarrow> Inr [StockVersion (s\<lparr>reservedQuantity := r\<rparr>)]))))"
  "stock_version p db (decrement get' put' p n db) = (case n of
     Fin q \<Rightarrow> (case findStock p db of
         None \<Rightarrow> Inr []
       | Some s \<Rightarrow> (case int4 (pg_round (of_int (get' s) - q)) of
           Inl e \<Rightarrow> Inl (DatabaseError e) | Inr v \<Rightarrow> Inr [StockVersion (put' v s)]))
   | NaN \<Rightarrow> Inl (DatabaseError (Error ''Value is not a number''))
   | _ \<Rightarrow> Inl (DatabaseError (Error ''column infinity does not exist'')))"
  if "\<And>v s. stock_productId (put' v s) = stock_productId s"
proof -
  show "perform (EnsureStock p) db = (case findStock p db of
     Some _ \<Rightarrow> Inr []
   | None \<Rightarrow> Inr [StockVersion \<lparr>stock_productId = p, availableQuantity = DEFAULT_STOCK_QUANTITY, reservedQuantity = 0\<rparr>])"
    by (simp add: perform.simps(2) ensureStockExists_def insert_row_by_lookup find_row_append split: option.splits)
qed (simp_all add: perform.simps(3) reserve_update_def decrement_def stock_version_def find_row_update that
    split: sum.splits option.splits js_number.splits)

lemma perform_insert_unfold:
  "perform (InsertReservation r) db = (case findReservation (res_orderId r) db of
     None \<Rightarrow> Inr [ReservationVersion r]
   | Some _ \<Rightarrow> Inl (DatabaseError (Error ''duplicate key value violates unique constraint'')))"
  by (simp add: perform.simps(6) insert_row_by_lookup split: option.splits)

declare perform.simps(2,3,6) [simp del]

lemmas perform_unfold = perform_stock_unfold perform_insert_unfold

lemma perform_local:
  assumes "\<And>k. touched st = Some k \<Longrightarrow> lookup k db' = lookup k db"
  shows "perform st db' = perform st db"
  using assms
  by (cases st) (simp_all add: lookup_same perform_unfold
      del: lookup.simps cong: option.case_cong sum.case_cong js_number.case_cong)

lemma perform_writes:
  "perform st db = Inr vs \<Longrightarrow> vs = [] \<or> (\<exists>v. vs = [v] \<and> touched st = Some (row_of v))"
  by (cases st) (auto simp: perform_unfold
      split: sum.splits option.splits if_splits js_number.splits dest!: find_row_SomeD)

text \<open>A statement that writes nothing has found its row, or needs none; an update that finds no row
  would write nothing too, which does not happen to rows that are known to exist.\<close>

fun needs_row :: "statement \<Rightarrow> bool" where
  "needs_row (DecrementAvailable _ _) = True"
| "needs_row (DecrementReserved _ _) = True"
| "needs_row (SaveStatus _ _) = True"
| "needs_row _ = False"

definition row_present :: "statement \<Rightarrow> InventoryDB \<Rightarrow> bool" where
  "row_present st db \<longleftrightarrow> (needs_row st \<longrightarrow> (\<exists>k. touched st = Some k \<and> lookup k db \<noteq> None))"

lemma row_present_unnoticed: "row_present st db \<Longrightarrow> unnoticed ks db db' \<Longrightarrow> row_present st db'"
  by (auto simp: row_present_def unnoticed_def)

lemma row_present_overlay: "row_present st db \<Longrightarrow> row_present st (overlay vs db)"
  using lookup_overlay_known by (fastforce simp: row_present_def)

lemma perform_silent:
  assumes "perform st db = Inr []" and "row_present st db" and "unnoticed ks db db'"
  shows "perform st db' = Inr []"
proof -
  have kept: "\<exists>v'. lookup k db' = Some v'" if "lookup k db = Some v" for k v
    using assms(3) that by (auto simp: unnoticed_def)
  have stock: "\<exists>s'. findStock p db' = Some s'" if "findStock p db = Some s" for p s
    using kept [of "StockRow p"] that by auto
  show ?thesis
  proof (cases st)
    case (EnsureStock p)
    then obtain s where "findStock p db = Some s"
      using assms(1) by (auto simp: perform_unfold split: option.splits)
    with stock obtain s' where "findStock p db' = Some s'" by blast
    with EnsureStock show ?thesis by (simp add: perform_unfold)
  next
    case (DecrementAvailable p n)
    with assms(2) obtain s where "findStock p db = Some s" by (auto simp: row_present_def)
    with DecrementAvailable assms(1) show ?thesis
      by (simp add: perform_unfold split: js_number.splits sum.splits)
  next
    case (DecrementReserved p n)
    with assms(2) obtain s where "findStock p db = Some s" by (auto simp: row_present_def)
    with DecrementReserved assms(1) show ?thesis
      by (simp add: perform_unfold split: js_number.splits sum.splits)
  next
    case (SaveStatus oid status)
    with assms(2) obtain r where "findReservation oid db = Some r" by (auto simp: row_present_def)
    with SaveStatus assms(1) show ?thesis by simp
  next
    case (ReserveStock p n)
    with assms(1) show ?thesis
      by (simp add: perform_unfold split: sum.splits option.splits if_splits)
  next
    case (InsertReservation r)
    with assms(1) show ?thesis by (cases "findReservation (res_orderId r) db") (simp_all add: perform_unfold)
  next
    case (CheckQuantity item)
    with assms(1) show ?thesis by simp
  qed
qed

text \<open>A transaction that has written some rows has done the same on tables that leave it unnoticed.\<close>

lemma runs_unnoticed:
  assumes "runs sts db = Inr ws" and "unnoticed (row_of ` set ws) db db'" and "\<forall>st \<in> set sts. row_present st db"
  shows "runs sts db' = Inr ws"
  using assms
proof (induction sts arbitrary: db db' ws)
  case (Cons st sts)
  from Cons.prems(1) obtain vs ws' where vs: "perform st db = Inr vs" and ws': "runs sts (overlay vs db) = Inr ws'" and ws: "ws = vs @ ws'"
    by (auto split: sum.splits)
  have "perform st db' = Inr vs"
  proof (cases "vs = []")
    case True
    have "row_present st db" using Cons.prems(3) by simp
    then show ?thesis
      using perform_silent [OF vs [unfolded True] _ Cons.prems(2)] True by blast
  next
    case False
    then have "touched st = Some k \<Longrightarrow> k \<in> row_of ` set ws" for k
      using perform_writes [OF vs] ws by auto
    then have "perform st db' = perform st db"
      using Cons.prems(2) by (intro perform_local) (auto simp: unnoticed_def)
    with vs show ?thesis by simp
  qed
  moreover have "runs sts (overlay vs db') = Inr ws'"
  proof (rule Cons.IH [OF ws'])
    have "unnoticed (row_of ` set ws') db db'"
      using Cons.prems(2) ws by (auto simp: unnoticed_def)
    then show "unnoticed (row_of ` set ws') (overlay vs db) (overlay vs db')" by (rule unnoticed_overlay)
    show "\<forall>st \<in> set sts. row_present st (overlay vs db)"
      using Cons.prems(3) row_present_overlay by (meson list.set_intros(2))
  qed
  ultimately show ?case using ws by simp
qed simp

section \<open>Undisturbed transactions\<close>

definition keys_distinct :: "InventoryDB \<Rightarrow> bool" where
  "keys_distinct db \<longleftrightarrow> distinct (map stock_productId (stock_items db)) \<and> distinct (map res_orderId (reservations db))"

lemma keys_distinct_overlay: "keys_distinct db \<Longrightarrow> keys_distinct (overlay vs db)"
proof (induction vs arbitrary: db)
  case (Cons v vs)
  have "keys_distinct (put v db)"
    using Cons.prems by (cases v) (simp_all add: keys_distinct_def distinct_upsert)
  with Cons.IH show ?case by simp
qed simp

lemma update_one_row:
  assumes "distinct (map key rows)" and "find_row key k rows = Some r"
  shows "update_rows key k f rows = update_rows key k (\<lambda>_. f r) rows"
  unfolding update_rows_def using assms find_row_member by (fastforce intro: map_cong)

lemma put_updated:
  assumes "keys_distinct db"
  shows "findStock p db = Some s \<Longrightarrow> stock_productId (f s) = stock_productId s \<Longrightarrow>
      put (StockVersion (f s)) db = db\<lparr>stock_items := update_rows stock_productId p f (stock_items db)\<rparr>"
    and "findReservation oid db = Some r \<Longrightarrow> res_orderId (g r) = res_orderId r \<Longrightarrow>
      put (ReservationVersion (g r)) db = db\<lparr>reservations := update_rows res_orderId oid g (reservations db)\<rparr>"
  using assms update_one_row [of stock_productId "stock_items db" p s f] update_one_row [of res_orderId "reservations db" oid r g]
  by (auto simp: keys_distinct_def upsert_def dest!: find_row_SomeD)

lemma ensure_performed:
  "ensureStockExists p db = (case perform (EnsureStock p) db of Inl _ \<Rightarrow> Inl connection_lost | Inr vs \<Rightarrow> Inr (overlay vs db))"
  by (auto simp: ensureStockExists_def perform_unfold insert_row_by_lookup upsert_def find_row_None_iff
      split: option.splits dest: find_row_SomeD)

lemma reserve_performed:
  assumes "keys_distinct db"
  shows "(case reserve_update p n db of
      Inl e \<Rightarrow> Inl (DatabaseError e)
    | Inr (affected, db') \<Rightarrow> (if affected = 0 then Inl (InsufficientStockError p) else Inr db')) =
    (case perform (ReserveStock p n) db of Inl e \<Rightarrow> Inl e | Inr vs \<Rightarrow> Inr (overlay vs db))"
  using put_updated(1) [OF assms, where p = p and f = "\<lambda>s. s\<lparr>reservedQuantity := r\<rparr>" for r]
  by (simp add: reserve_update_def perform_unfold split: sum.splits option.splits)

lemma decrement_performed:
  assumes "keys_distinct db" and "\<And>v s. stock_productId (put' v s) = stock_productId s"
  shows "(case decrement get' put' p n db of Inl e \<Rightarrow> Inl (DatabaseError e) | Inr db' \<Rightarrow> Inr db') =
    (case stock_version p db (decrement get' put' p n db) of Inl e \<Rightarrow> Inl e | Inr vs \<Rightarrow> Inr (overlay vs db))"
  unfolding perform_stock_unfold(3) [OF assms(2)]
  using put_updated(1) [OF assms(1), where p = p and f = "put' v" for v] assms(2)
  by (simp add: decrement_def split: sum.splits option.splits js_number.splits)

text \<open>Running a transaction's statements on the tables.\<close>

definition executed :: "statement list \<Rightarrow> InventoryDB \<Rightarrow> inventory_exn + InventoryDB" where
  "executed sts db = (case runs sts db of Inl e \<Rightarrow> Inl e | Inr vs \<Rightarrow> Inr (overlay vs db))"

lemma executed_simps:
  "executed [] db = Inr db"
  "executed (st # sts) db = (case perform st db of Inl e \<Rightarrow> Inl e | Inr vs \<Rightarrow> executed sts (overlay vs db))"
  "executed (sts @ sts') db = (case executed sts db of Inl e \<Rightarrow> Inl e | Inr db' \<Rightarrow> executed sts' db')"
  by (auto simp: executed_def runs_append split: sum.splits)

lemma executed_distinct: "executed sts db = Inr db' \<Longrightarrow> keys_distinct db \<Longrightarrow> keys_distinct db'"
  by (auto simp: executed_def keys_distinct_overlay split: sum.splits)

lemma reserve_item_executed:
  assumes "keys_distinct db"
  shows "reserve_item False item db = executed (item_statements item) db"
proof -
  have "keys_distinct db1" if "ensureStockExists p db = Inr db1" for p db1
    using that keys_distinct_overlay [OF assms] by (auto simp: ensure_performed split: sum.splits)
  from reserve_performed [OF this, of "item_productId item" _ "item_productId item" "item_quantity item"] show ?thesis
    by (cases "perform (EnsureStock (item_productId item)) db")
      (auto simp: reserve_item_def executed_simps Let_def ensure_performed perform_unfold(1) split: option.splits sum.splits)
qed

lemma reserve_items_executed:
  "keys_distinct db \<Longrightarrow> reserve_items None items db =
     (case executed (concat (map item_statements items)) db of Inl e \<Rightarrow> Inl e | Inr db' \<Rightarrow> Inr (None, db'))"
proof (induction items arbitrary: db)
  case (Cons item items)
  show ?case
    using Cons.IH executed_distinct [OF _ Cons.prems, of "item_statements item"]
    by (simp add: reserve_item_executed [OF Cons.prems] executed_simps(3) del: item_statements.simps split: sum.splits)
qed (simp add: executed_simps)

lemma decrements_executed:
  assumes "keys_distinct db"
  shows "(case decrement_available p n db of Inl e \<Rightarrow> Inl (DatabaseError e) | Inr db' \<Rightarrow> Inr db') = executed [DecrementAvailable p n] db"
    and "(case decrement_reserved p n db of Inl e \<Rightarrow> Inl (DatabaseError e) | Inr db' \<Rightarrow> Inr db') = executed [DecrementReserved p n] db"
  using decrement_performed [OF assms, of "\<lambda>v s. s\<lparr>availableQuantity := v\<rparr>" availableQuantity p n]
    decrement_performed [OF assms, of "\<lambda>v s. s\<lparr>reservedQuantity := v\<rparr>" reservedQuantity p n]
  by (simp_all add: executed_simps split: sum.splits)

lemma confirm_items_executed:
  "keys_distinct db \<Longrightarrow>
     (case confirm_items None items db of Inl e \<Rightarrow> Inl (DatabaseError e) | Inr (_, db') \<Rightarrow> Inr db') =
     executed (concat (map confirm_statements items)) db"
proof (induction items arbitrary: db)
  case (Cons item items)
  show ?case
  proof (cases "decrement_available (item_productId item) (item_quantity item) db")
    case (Inl e)
    then show ?thesis
      using decrements_executed(1) [OF Cons.prems, of "item_productId item" "item_quantity item"]
      by (simp add: executed_simps split: sum.splits)
  next
    case (Inr db1)
    then have first: "executed [DecrementAvailable (item_productId item) (item_quantity item)] db = Inr db1"
      using decrements_executed(1) [OF Cons.prems, of "item_productId item" "item_quantity item"] by simp
    then have db1: "keys_distinct db1" using Cons.prems executed_distinct by blast
    have rest: "executed (concat (map confirm_statements (item # items))) db =
        (case executed [DecrementReserved (item_productId item) (item_quantity item)] db1 of
           Inl e \<Rightarrow> Inl e | Inr db2 \<Rightarrow> executed (concat (map confirm_statements items)) db2)"
      using executed_simps(3) [of "[DecrementAvailable (item_productId item) (item_quantity item)]"
          "DecrementReserved (item_productId item) (item_quantity item) # concat (map confirm_statements items)" db]
        executed_simps(3) [of "[DecrementReserved (item_productId item) (item_quantity item)]"
          "concat (map confirm_statements items)" db1] first
      by simp
    show ?thesis
    proof (cases "decrement_reserved (item_productId item) (item_quantity item) db1")
      case (Inl e)
      then show ?thesis
        using rest Inr decrements_executed(2) [OF db1, of "item_productId item" "item_quantity item", symmetric]
        by (simp del: confirm_statements.simps)
    next
      case (Inr db2)
      then have second: "executed [DecrementReserved (item_productId item) (item_quantity item)] db1 = Inr db2"
        using decrements_executed(2) [OF db1, of "item_productId item" "item_quantity item"] by simp
      then have "keys_distinct db2" using db1 executed_distinct by blast
      from Cons.IH [OF this] second rest Inr \<open>decrement_available _ _ db = Inr db1\<close> show ?thesis
        by (simp del: confirm_statements.simps)
    qed
  qed
qed (simp add: executed_simps)

lemma release_items_executed:
  "keys_distinct db \<Longrightarrow>
     (case release_items None items db of Inl e \<Rightarrow> Inl (DatabaseError e) | Inr (_, db') \<Rightarrow> Inr db') =
     executed (map (\<lambda>item. DecrementReserved (item_productId item) (item_quantity item)) items) db"
proof (induction items arbitrary: db)
  case (Cons item items)
  note first = decrements_executed(2) [OF Cons.prems, of "item_productId item" "item_quantity item"]
  have split: "executed (map (\<lambda>item. DecrementReserved (item_productId item) (item_quantity item)) (item # items)) db =
      (case executed [DecrementReserved (item_productId item) (item_quantity item)] db of
         Inl e \<Rightarrow> Inl e | Inr db' \<Rightarrow> executed (map (\<lambda>item. DecrementReserved (item_productId item) (item_quantity item)) items) db')"
    using executed_simps(3) [of "[DecrementReserved (item_productId item) (item_quantity item)]"
        "map (\<lambda>item. DecrementReserved (item_productId item) (item_quantity item)) items" db] by simp
  show ?case
  proof (cases "decrement_reserved (item_productId item) (item_quantity item) db")
    case (Inl e)
    then show ?thesis using first [symmetric] split by simp
  next
    case (Inr db1)
    then have "executed [DecrementReserved (item_productId item) (item_quantity item)] db = Inr db1"
      using first by simp
    then show ?thesis
      using split Inr Cons.IH [OF executed_distinct [OF _ Cons.prems]] by simp
  qed
qed (simp add: executed_simps)

lemma items_no_fault:
  "confirm_items None items db = Inr (f, db') \<Longrightarrow> f = None"
  "release_items None items db = Inr (f, db') \<Longrightarrow> f = None"
  by (induction items arbitrary: db) (auto split: sum.splits)

lemma save_status_executed:
  assumes "keys_distinct db"
  shows "\<exists>db'. save_status None oid st db = Inr ((), db') \<and> executed [SaveStatus oid st] db = Inr db'"
  using put_updated(2) [OF assms, where oid = oid and g = "\<lambda>r. r\<lparr>res_status := st\<rparr>"]
  by (auto simp: save_status_def executed_simps find_row_None_iff update_rows_absent split: option.splits)

text \<open>A loop over the items and the new status after it.\<close>

lemma settled_executed:
  assumes "keys_distinct db"
    and loop: "(case l of Inl e \<Rightarrow> Inl (DatabaseError e) | Inr (_, db') \<Rightarrow> Inr db') = executed sts db"
    and "\<And>f db'. l = Inr (f, db') \<Longrightarrow> f = None"
  shows "executed (sts @ [SaveStatus oid st]) db =
    (case (case l of Inl e \<Rightarrow> Inl e | Inr (f, db1) \<Rightarrow> save_status f oid st db1) of
       Inl e \<Rightarrow> Inl (DatabaseError e) | Inr (_, db') \<Rightarrow> Inr db')"
proof (cases l)
  case (Inl e)
  then show ?thesis using loop [symmetric] by (simp add: executed_simps(3))
next
  case (Inr p)
  then obtain db1 where l: "l = Inr (None, db1)" using assms(3) by (cases p) auto
  then have db1: "executed sts db = Inr db1" using loop by simp
  from save_status_executed [OF executed_distinct [OF this assms(1)], of oid st]
  show ?thesis using l db1 by (auto simp: executed_simps(3))
qed

text \<open>What the \<open>catch\<close> of a handler answers for an exception.\<close>

fun answer_of :: "inventory_exn \<Rightarrow> RpcResult" where
  "answer_of (InsufficientStockError p) = \<lparr>success = False, reason = Some (''insufficient_stock:'' @ p)\<rparr>"
| "answer_of (DatabaseError _) = \<lparr>success = False, reason = Some ''internal_error''\<rparr>"

theorem run_tx_is_its_statements:
  assumes "keys_distinct db"
  shows "run_tx None tx db = (case runs (program tx) db of
      Inl e \<Rightarrow> (answer_of e, db) | Inr vs \<Rightarrow> (rpc_ok, overlay vs db))"
proof -
  have "run_tx None tx db = (case executed (program tx) db of Inl e \<Rightarrow> (answer_of e, db) | Inr db' \<Rightarrow> (rpc_ok, db'))"
  proof (cases tx)
    case (ReserveTx request)
    show ?thesis
      using reserve_items_executed [OF assms, of "req_items request"]
      by (auto simp: ReserveTx reserve_tx_def reserve_body_def executed_simps perform_unfold(4) insert_row_by_lookup upsert_def
          split: sum.splits option.splits inventory_exn.splits dest!: find_row_None_iff [THEN iffD1])
  next
    case (ConfirmTx r)
    show ?thesis
      using settled_executed [OF assms confirm_items_executed [OF assms, of "res_items r"], where oid = "res_orderId r" and st = CONFIRMED]
        items_no_fault(1) [of "res_items r" db]
      by (auto simp: ConfirmTx confirm_tx_def confirm_body_def rpc_of_tx_def split: sum.splits prod.splits)
  next
    case (ReleaseTx r)
    show ?thesis
      using settled_executed [OF assms release_items_executed [OF assms, of "res_items r"], where oid = "res_orderId r" and st = RELEASED]
        items_no_fault(2) [of "res_items r" db]
      by (auto simp: ReleaseTx release_tx_def release_body_def rpc_of_tx_def split: sum.splits prod.splits)
  qed
  then show ?thesis by (simp add: executed_def split: sum.splits)
qed

end
