(* ===== verification/Row_Locks.thy ===== *)
theory Row_Locks
  imports Row_Versions
begin

text \<open>
  The inventory service with its transactions taken apart: any number of handlers are at work, each
  between two of its statements, on one Postgres database at its default isolation. A statement sees
  the committed tables and the versions its own transaction has written; to write a row it needs the
  row's lock, which a transaction keeps from its first write of the row to its end. The look for a
  stock row and the insert of a missing one are two statements, so others may come between them. A
  transaction may break at any point, because the connection is lost or because the database picks
  it as the victim of a deadlock.
\<close>

section \<open>Transactions at work\<close>

record active_tx =
  tx_of :: inventory_tx
  performed :: "statement list"
  remaining :: "statement list"
  written :: "row_version list"
  seeding :: bool

record statement_inventory =
  committed :: InventoryDB
  active :: "active_tx list"
  replied :: "(inventory_tx \<times> RpcResult) list"

definition opened_tx :: "inventory_tx \<Rightarrow> active_tx" where
  "opened_tx tx = \<lparr>tx_of = tx, performed = [], remaining = program tx, written = [], seeding = False\<rparr>"

definition locked :: "active_tx \<Rightarrow> row set" where
  "locked a = row_of ` set (written a)"

definition seen_by :: "active_tx \<Rightarrow> statement_inventory \<Rightarrow> InventoryDB" where
  "seen_by a s = overlay (written a) (committed s)"

text \<open>One statement sent to the database: an exception, or the versions it writes, or nothing yet when
  the stock row was not found and has to be inserted.\<close>

definition send_statement :: "bool \<Rightarrow> statement \<Rightarrow> InventoryDB \<Rightarrow> inventory_exn + row_version list option" where
  "send_statement inserting st db = (case st of
     EnsureStock p \<Rightarrow>
       (if inserting then
          (case insert_row stock_productId \<lparr>stock_productId = p, availableQuantity = DEFAULT_STOCK_QUANTITY, reservedQuantity = 0\<rparr>
              (stock_items db) of
             Inl e \<Rightarrow> Inl (DatabaseError e)
           | Inr _ \<Rightarrow> Inr (Some [StockVersion \<lparr>stock_productId = p, availableQuantity = DEFAULT_STOCK_QUANTITY, reservedQuantity = 0\<rparr>]))
        else if findStock p db = None then Inr None else Inr (Some []))
   | _ \<Rightarrow> map_sum (\<lambda>e. e) Some (perform st db))"

text \<open>The order whose reservation a transaction settles, if it settles one.\<close>

fun settles :: "inventory_tx \<Rightarrow> string option" where
  "settles (ReserveTx _) = None"
| "settles (ConfirmTx r) = Some (res_orderId r)"
| "settles (ReleaseTx r) = Some (res_orderId r)"

datatype statement_event = StartHandler "exn option" inventory_call | Send nat | Commit nat | Break nat

text \<open>No two handlers settle one reservation at the same time (what happens otherwise is shown by
  \<open>overlapping_confirms_decrement_twice\<close>); nothing else is asked of the order of events.\<close>

inductive statement_step :: "statement_inventory \<Rightarrow> statement_event \<Rightarrow> statement_inventory \<Rightarrow> bool" where
  answered_at_once: "in_turn c (committed s) \<Longrightarrow> before_tx fault c (committed s) = Inl r \<Longrightarrow>
    statement_step s (StartHandler fault c) s"
| transaction_opened: "in_turn c (committed s) \<Longrightarrow> before_tx fault c (committed s) = Inr tx \<Longrightarrow>
    (\<And>a oid. a \<in> set (active s) \<Longrightarrow> settles tx = Some oid \<Longrightarrow> settles (tx_of a) \<noteq> Some oid) \<Longrightarrow>
    statement_step s (StartHandler fault c) (s\<lparr>active := active s @ [opened_tx tx]\<rparr>)"
| row_missing: "active s = as @ a # bs \<Longrightarrow> remaining a = st # rest \<Longrightarrow>
    send_statement (seeding a) st (seen_by a s) = Inr None \<Longrightarrow>
    statement_step s (Send (length as)) (s\<lparr>active := as @ a\<lparr>seeding := True\<rparr> # bs\<rparr>)"
| rows_written: "active s = as @ a # bs \<Longrightarrow> remaining a = st # rest \<Longrightarrow>
    send_statement (seeding a) st (seen_by a s) = Inr (Some vs) \<Longrightarrow>
    (\<And>v b. v \<in> set vs \<Longrightarrow> b \<in> set (as @ bs) \<Longrightarrow> row_of v \<notin> locked b) \<Longrightarrow>
    statement_step s (Send (length as)) (s\<lparr>active := as @ a\<lparr>performed := performed a @ [st], remaining := rest,
      written := written a @ vs, seeding := False\<rparr> # bs\<rparr>)"
| statement_failed: "active s = as @ a # bs \<Longrightarrow> remaining a = st # rest \<Longrightarrow>
    send_statement (seeding a) st (seen_by a s) = Inl e \<Longrightarrow>
    statement_step s (Send (length as)) (s\<lparr>active := as @ bs, replied := replied s @ [(tx_of a, answer_of e)]\<rparr>)"
| transaction_committed: "active s = as @ a # bs \<Longrightarrow> remaining a = [] \<Longrightarrow>
    statement_step s (Commit (length as)) (s\<lparr>committed := seen_by a s, active := as @ bs,
      replied := replied s @ [(tx_of a, rpc_ok)]\<rparr>)"
| transaction_broken: "active s = as @ a # bs \<Longrightarrow>
    statement_step s (Break (length as)) (s\<lparr>active := as @ bs,
      replied := replied s @ [(tx_of a, answer_of (DatabaseError connection_lost))]\<rparr>)"

inductive_cases statement_stepE: "statement_step s e t"

definition statement_start :: "statement_inventory \<Rightarrow> bool" where
  "statement_start s \<longleftrightarrow> inventory_start (committed s) \<and> active s = [] \<and> replied s = []"

section \<open>The service with whole transactions\<close>

definition whole :: "statement_inventory \<Rightarrow> live_inventory" where
  "whole s = \<lparr>tables = committed s, running = map tx_of (active s)\<rparr>"

text \<open>What holds of a transaction at work: it is in the middle of its program, what it has written is what
  its statements give on the tables as they are committed now, the reservation it settles is the one
  it has read, and the rows it updates exist.\<close>

definition tx_inv :: "InventoryDB \<Rightarrow> active_tx \<Rightarrow> bool" where
  "tx_inv db a \<longleftrightarrow> performed a @ remaining a = program (tx_of a) \<and> runs (performed a) db = Inr (written a) \<and>
     still_current db (tx_of a) \<and> opened (tx_of a) \<and> (\<forall>st \<in> set (program (tx_of a)). row_present st db) \<and>
     (seeding a \<longrightarrow> (\<exists>p rest. remaining a = EnsureStock p # rest))"

definition apart :: "active_tx \<Rightarrow> active_tx \<Rightarrow> bool" where
  "apart a b \<longleftrightarrow> locked a \<inter> locked b = {} \<and> (settles (tx_of a) = None \<or> settles (tx_of a) \<noteq> settles (tx_of b))"

definition statement_inv :: "statement_inventory \<Rightarrow> bool" where
  "statement_inv s \<longleftrightarrow> inventory_inv (committed s) \<and> (\<forall>a \<in> set (active s). tx_inv (committed s) a) \<and>
     sorted_wrt apart (active s)"

lemma apart_sym: "apart a b \<Longrightarrow> apart b a"
  by (auto simp: apart_def)

lemma apart_split:
  "sorted_wrt apart (as @ a # bs) \<longleftrightarrow> sorted_wrt apart (as @ bs) \<and> (\<forall>b \<in> set (as @ bs). apart a b)"
  by (auto simp: sorted_wrt_append dest: apart_sym)

lemma inventory_inv_distinct: "inventory_inv db \<Longrightarrow> keys_distinct db"
  by (simp add: inventory_inv_def stock_ok_def keys_distinct_def)

section \<open>Statements and whole transactions\<close>

lemma map_sum_id_cases:
  "map_sum (\<lambda>e. e) Some x = Inl e \<longleftrightarrow> x = Inl e"
  "map_sum (\<lambda>e. e) Some x = Inr y \<longleftrightarrow> (\<exists>v. y = Some v \<and> x = Inr v)"
  by (cases x; auto)+

lemma send_written: "send_statement inserting st db = Inr (Some vs) \<Longrightarrow> perform st db = Inr vs"
  by (cases st) (auto simp: send_statement_def perform_unfold(1) insert_row_by_lookup map_sum_id_cases
      split: if_splits sum.splits option.splits)

lemma send_missing: "send_statement inserting st db = Inr None \<Longrightarrow> \<not> inserting \<and> (\<exists>p. st = EnsureStock p)"
  by (cases st) (auto simp: send_statement_def map_sum_id_cases split: if_splits sum.splits)

lemma send_failed: "send_statement inserting st db = Inl e \<Longrightarrow> perform st db = Inl e \<or> (\<exists>e'. e = DatabaseError e')"
  by (cases st) (auto simp: send_statement_def map_sum_id_cases split: if_splits sum.splits)

lemma run_tx_broken: "snd (run_tx (Some k) tx db) = db"
proof (cases tx)
  case (ReserveTx request)
  obtain e where "reserve_body (Some k) request db = Inl e"
    using faulty_bodies_throw(1) by blast
  then show ?thesis by (cases e) (simp_all add: ReserveTx reserve_tx_def)
qed (simp_all add: faulty_tx_rolls_back)

text \<open>A statement that fails fails the whole transaction.\<close>

lemma runs_failed:
  assumes "runs sts db = Inr vs" and "perform st (overlay vs db) = Inl e"
  shows "runs (sts @ st # rest) db = Inl e"
  using assms by (simp add: runs_append)

lemma program_fails:
  assumes "tx_inv db a" and "inventory_inv db" and "remaining a = st # rest" and "perform st (overlay (written a) db) = Inl e"
  shows "run_tx None (tx_of a) db = (answer_of e, db)"
proof -
  have "runs (program (tx_of a)) db = Inl e"
    using assms(1,3,4) runs_failed [of "performed a" db "written a" st e rest] by (simp add: tx_inv_def)
  then show ?thesis
    using run_tx_is_its_statements [OF inventory_inv_distinct [OF assms(2)]] by simp
qed

lemma program_commits:
  assumes "tx_inv db a" and "inventory_inv db" and "remaining a = []"
  shows "run_tx None (tx_of a) db = (rpc_ok, overlay (written a) db)"
  using run_tx_is_its_statements [OF inventory_inv_distinct [OF assms(2)], of "tx_of a"] assms(1,3)
  by (auto simp: tx_inv_def)

section \<open>What a transaction writes\<close>

lemma runs_write:
  assumes "runs sts db = Inr ws" and "v \<in> set ws"
  shows "\<exists>st \<in> set sts. touched st = Some (row_of v) \<and> ((\<exists>r. st = InsertReservation r) \<longrightarrow> lookup (row_of v) db = None)"
  using assms
proof (induction sts arbitrary: db ws)
  case (Cons st sts)
  from Cons.prems(1) obtain vs ws' where vs: "perform st db = Inr vs" and ws': "runs sts (overlay vs db) = Inr ws'" and ws: "ws = vs @ ws'"
    by (auto split: sum.splits)
  show ?case
  proof (cases "v \<in> set vs")
    case True
    then have "touched st = Some (row_of v)" using perform_writes [OF vs] by auto
    moreover have "lookup (row_of v) db = None" if "st = InsertReservation r" for r
    proof -
      have "row_of v = ReservationRow (res_orderId r)" using that \<open>touched st = _\<close> by simp
      then show ?thesis using vs that by (simp add: perform_unfold split: option.splits)
    qed
    ultimately show ?thesis by auto
  next
    case False
    then have "v \<in> set ws'" using Cons.prems(2) ws by simp
    from Cons.IH [OF ws' this] show ?thesis
      using lookup_overlay_known [of "row_of v" db vs] by (metis list.set_intros(2))
  qed
qed simp

lemma program_reservations:
  "st \<in> set (program tx) \<Longrightarrow> touched st = Some (ReservationRow oid) \<Longrightarrow> settles tx = Some oid \<or> (\<exists>r. st = InsertReservation r)"
  by (cases tx) auto

text \<open>A reservation another transaction settles is not touched.\<close>

lemma reservation_kept:
  assumes "tx_inv db b" and "findReservation oid db = Some r" and "settles (tx_of b) \<noteq> Some oid"
  shows "findReservation oid (overlay (written b) db) = Some r"
proof -
  have "ReservationRow oid \<notin> row_of ` set (written b)"
  proof
    assume "ReservationRow oid \<in> row_of ` set (written b)"
    then obtain v where v: "v \<in> set (written b)" "row_of v = ReservationRow oid" by auto
    have "runs (performed b) db = Inr (written b)" using assms(1) by (simp add: tx_inv_def)
    from runs_write [OF this v(1)] obtain st where st: "st \<in> set (performed b)" "touched st = Some (ReservationRow oid)"
        "(\<exists>r. st = InsertReservation r) \<longrightarrow> lookup (ReservationRow oid) db = None"
      using v(2) by auto
    moreover have "set (performed b) \<subseteq> set (program (tx_of b))"
      using assms(1) unfolding tx_inv_def by (metis Un_upper1 set_append)
    ultimately show False
      using program_reservations [of st "tx_of b" oid] assms(2,3) by auto
  qed
  from lookup_overlay_other [OF this, of db] assms(2) show ?thesis by auto
qed

lemma tx_inv_after_commit:
  assumes "tx_inv db a" and "tx_inv db b" and "apart b a"
  shows "tx_inv (overlay (written b) db) a"
proof -
  have "unnoticed (row_of ` set (written a)) db (overlay (written b) db)"
    using assms(3) by (intro unnoticed_others) (auto simp: apart_def locked_def)
  moreover have "\<forall>st \<in> set (performed a). row_present st db"
    using assms(1) unfolding tx_inv_def by (metis Un_iff set_append)
  ultimately have "runs (performed a) (overlay (written b) db) = Inr (written a)"
    using assms(1) runs_unnoticed unfolding tx_inv_def by blast
  moreover have "still_current (overlay (written b) db) (tx_of a)"
  proof (cases "tx_of a")
    case (ConfirmTx r)
    then show ?thesis using assms reservation_kept [OF assms(2)] by (auto simp: tx_inv_def apart_def)
  next
    case (ReleaseTx r)
    then show ?thesis using assms reservation_kept [OF assms(2)] by (auto simp: tx_inv_def apart_def)
  qed simp
  ultimately show ?thesis
    using assms(1) row_present_overlay by (simp add: tx_inv_def)
qed

section \<open>The invariant\<close>

lemma settled_stock_exists:
  assumes "inventory_inv db" and "findReservation oid db = Some r" and "res_status r = RESERVED" and "i \<in> set (res_items r)"
  shows "findStock (item_productId i) db \<noteq> None"
proof -
  note open_r = open_reservation [OF assms(1-3)]
  have "qty (item_quantity i) \<le> demand (item_productId i) (res_items r)"
    using sum_of_ge_member [OF assms(4), of "\<lambda>j. if item_productId j = item_productId i then qty (item_quantity j) else 0"] open_r(2)
    by (fastforce simp: demand_def dest: item_valid_qty)
  then have "0 < resv (item_productId i) db"
    using open_r(2,3) assms(4) item_valid_qty [of i] by (smt (verit))
  then show ?thesis by (auto simp: resv_def split: option.splits)
qed

lemma settled_rows_present:
  assumes "inventory_inv db" and "still_current db tx" and "opened tx" and "st \<in> set (program tx)"
  shows "row_present st db"
proof (cases tx)
  case (ConfirmTx r)
  with assms settled_stock_exists [OF assms(1), of "res_orderId r" r] show ?thesis
    by (auto simp: row_present_def)
next
  case (ReleaseTx r)
  with assms settled_stock_exists [OF assms(1), of "res_orderId r" r] show ?thesis
    by (auto simp: row_present_def)
qed (use assms in \<open>auto simp: row_present_def\<close>)

lemma before_tx_current: "before_tx fault c db = Inr tx \<Longrightarrow> still_current db tx"
  using find_row_SomeD by (cases c; cases fault) (fastforce split: option.splits if_splits)+

lemma opened_tx_inv:
  assumes "inventory_inv db" and "in_turn c db" and "before_tx fault c db = Inr tx"
  shows "tx_inv db (opened_tx tx)"
  using before_tx_current [OF assms(3)] before_tx_opened [OF assms(3,2)] settled_rows_present [OF assms(1)]
  by (simp add: tx_inv_def opened_tx_def)

lemma opened_tx_apart:
  assumes "\<And>oid. settles tx = Some oid \<Longrightarrow> settles (tx_of a) \<noteq> Some oid"
  shows "apart a (opened_tx tx)"
  using assms by (cases "settles tx") (auto simp: apart_def opened_tx_def locked_def)

lemma written_tx_inv:
  assumes "tx_inv db a" and "remaining a = st # rest" and "send_statement (seeding a) st (overlay (written a) db) = Inr (Some vs)"
  shows "tx_inv db (a\<lparr>performed := performed a @ [st], remaining := rest, written := written a @ vs, seeding := False\<rparr>)"
  using assms(1,2) send_written [OF assms(3)] by (simp add: tx_inv_def runs_append)

lemma committed_inv:
  assumes "inventory_inv db" and "tx_inv db a" and "remaining a = []"
  shows "inventory_inv (overlay (written a) db)"
  using run_tx_inv [OF assms(1), of "tx_of a" None] program_commits [OF assms(2,1,3)] assms(2)
  by (simp add: tx_inv_def)

lemma statement_step_inv: "statement_step s e t \<Longrightarrow> statement_inv s \<Longrightarrow> statement_inv t"
proof (induction rule: statement_step.induct)
  case (transaction_opened c s fault tx)
  then show ?case
    using opened_tx_inv opened_tx_apart by (auto simp: statement_inv_def sorted_wrt_append)
next
  case (row_missing s as a bs st rest)
  then have "tx_inv (committed s) (a\<lparr>seeding := True\<rparr>)"
    using send_missing [OF row_missing(3)] by (auto simp: statement_inv_def tx_inv_def)
  moreover have "apart (a\<lparr>seeding := True\<rparr>) b = apart a b" for b by (simp add: apart_def locked_def)
  ultimately show ?case using row_missing by (simp add: statement_inv_def apart_split)
next
  case (rows_written s as a bs st rest vs)
  let ?a = "a\<lparr>performed := performed a @ [st], remaining := rest, written := written a @ vs, seeding := False\<rparr>"
  have "tx_inv (committed s) ?a"
    using rows_written written_tx_inv by (simp add: statement_inv_def seen_by_def)
  moreover have "apart ?a b" if "b \<in> set (as @ bs)" for b
    using that rows_written by (fastforce simp: statement_inv_def apart_split apart_def locked_def)
  ultimately show ?case using rows_written by (simp add: statement_inv_def apart_split)
next
  case (transaction_committed s as a bs)
  have "tx_inv (seen_by a s) b" if "b \<in> set (as @ bs)" for b
    using that transaction_committed tx_inv_after_commit [of "committed s" b a]
    by (auto simp: statement_inv_def seen_by_def apart_split dest: apart_sym)
  moreover have "inventory_inv (seen_by a s)"
    using transaction_committed committed_inv by (simp add: statement_inv_def seen_by_def)
  ultimately show ?case using transaction_committed by (simp add: statement_inv_def apart_split)
qed (simp_all add: statement_inv_def apart_split)

interpretation rows: inductive_invariant statement_start statement_step statement_inv
  by unfold_locales
    (auto simp: statement_start_def statement_inv_def intro: inventory_start_inv dest: statement_step_inv)

section \<open>Refinement of the service with whole transactions\<close>

text \<open>A step either leaves what the service with whole transactions shows, or is one of its steps: a
  handler begins, or a transaction finishes, undisturbed when it commits and rolled back when it fails.\<close>

lemma whole_split:
  assumes "active s = as @ a # bs"
  shows "running (whole s) = map tx_of as @ tx_of a # map tx_of bs" and "length as < length (running (whole s))"
    and "running (whole s) ! length as = tx_of a"
  using assms by (simp_all add: whole_def nth_append)

lemma finish_whole:
  assumes "active s = as @ a # bs"
  shows "finish_tx fault (length as) (whole s) =
    \<lparr>tables = snd (run_tx fault (tx_of a) (committed s)), running = map tx_of (as @ bs)\<rparr>"
  using assms by (simp add: finish_tx_def whole_def nth_append)

lemma statement_step_simulated:
  assumes "statement_step s e t" and "statement_inv s"
  shows "whole t = whole s \<or> (\<exists>e'. live_step (whole s) e' (whole t))"
  using assms
proof (induction rule: statement_step.induct)
  case (transaction_opened c s fault tx)
  then have "live_step (whole s) (Begin fault c) (begin_call fault c (whole s))"
    by (intro begin_handler) (simp add: whole_def)
  moreover have "begin_call fault c (whole s) = whole (s\<lparr>active := active s @ [opened_tx tx]\<rparr>)"
    using transaction_opened by (simp add: begin_call_def whole_def opened_tx_def)
  ultimately show ?case by auto
next
  case (transaction_committed s as a bs)
  then have inv: "tx_inv (committed s) a" "inventory_inv (committed s)" by (simp_all add: statement_inv_def)
  have "live_step (whole s) (Finish None (length as)) (finish_tx None (length as) (whole s))"
    using inv whole_split [OF transaction_committed(1)] by (intro finish_handler) (simp_all add: tx_inv_def whole_def)
  then show ?case
    using program_commits [OF inv transaction_committed(2)]
    by (simp add: finish_whole [OF transaction_committed(1)]) (auto simp: whole_def seen_by_def)
next
  case (statement_failed s as a bs st rest e)
  then have inv: "tx_inv (committed s) a" by (simp add: statement_inv_def)
  have "live_step (whole s) (Finish (Some 0) (length as)) (finish_tx (Some 0) (length as) (whole s))"
    using inv whole_split [OF statement_failed(1)] by (intro finish_handler) (simp_all add: tx_inv_def whole_def)
  then show ?case
    by (simp add: finish_whole [OF statement_failed(1)] run_tx_broken) (auto simp: whole_def)
next
  case (transaction_broken s as a bs)
  then have inv: "tx_inv (committed s) a" by (simp add: statement_inv_def)
  have "live_step (whole s) (Finish (Some 0) (length as)) (finish_tx (Some 0) (length as) (whole s))"
    using inv whole_split [OF transaction_broken(1)] by (intro finish_handler) (simp_all add: tx_inv_def whole_def)
  then show ?case
    by (simp add: finish_whole [OF transaction_broken(1)] run_tx_broken) (auto simp: whole_def)
qed (simp_all add: whole_def)

end
