(* ===== verification/Row_Progress.thy ===== *)
theory Row_Progress
  imports Row_Interleaving "HOL-Library.Multiset"
begin

text \<open>
  When the transactions of the inventory come to an end. A transaction waits for the row its next
  statement writes; if all of them touch their rows in ascending order, one that waits for the highest
  row waits for nobody else that waits, so somebody can go on, and every statement sent leaves
  less to do. The orders of the shop are not sorted, and the last section has two of them in a deadlock.
\<close>

section \<open>Who waits for what\<close>

definition awaited :: "active_tx \<Rightarrow> row option" where
  "awaited a = (case remaining a of [] \<Rightarrow> None | st # _ \<Rightarrow> touched st)"

lemma send_writes: "send_statement inserting st db = Inr (Some vs) \<Longrightarrow> v \<in> set vs \<Longrightarrow> touched st = Some (row_of v)"
  using perform_writes [OF send_written] by fastforce

lemma waits_for_a_lock:
  assumes "active s = as @ a # bs" and "advance (length as) s = None"
  obtains k b where "awaited a = Some k" and "b \<in> set (as @ bs)" and "k \<in> locked b"
proof -
  from assms obtain st rest vs v b where "remaining a = st # rest" and "send_statement (seeding a) st (seen_by a s) = Inr (Some vs)"
      and "v \<in> set vs" and "b \<in> set (as @ bs)" and "row_of v \<in> locked b"
    by (auto simp: advance_split [OF assms(1)] row_locked_iff split: list.splits sum.splits option.splits if_splits)
  with that [of "row_of v" b] send_writes show ?thesis by (auto simp: awaited_def)
qed

lemma locked_touched:
  assumes "tx_inv db a" and "k \<in> locked a"
  shows "k \<in> set (rows_touched (performed a))"
proof -
  from assms obtain v where v: "v \<in> set (written a)" "k = row_of v" by (auto simp: locked_def)
  have "runs (performed a) db = Inr (written a)" using assms(1) by (simp add: tx_inv_def)
  from runs_write [OF this v(1)] v(2) show ?thesis by (force simp: map_filter_def)
qed

lemma locks_below_awaited:
  assumes "tx_inv db a" and "items_ascend (tx_of a)" and "k \<in> locked a" and "awaited a = Some l"
  shows "k \<le> l"
proof -
  from assms(4) obtain st rest where rest: "remaining a = st # rest" "touched st = Some l"
    by (auto simp: awaited_def split: list.splits)
  have "sorted (rows_touched (performed a @ remaining a))"
    using assms(1) program_ascends [OF assms(2)] by (simp add: tx_inv_def)
  then show ?thesis
    using locked_touched [OF assms(1,3)] rest by (auto simp: rows_touched_append sorted_append map_filter_simps)
qed

lemma somebody_advances:
  assumes inv: "statement_inv s" and "active s \<noteq> []" and ascend: "\<forall>a \<in> set (active s). items_ascend (tx_of a)"
  shows "\<exists>k. advance k s \<noteq> None"
proof (rule ccontr)
  assume "\<not> ?thesis"
  then have stuck: "\<exists>k b. awaited a = Some k \<and> b \<in> set (as @ bs) \<and> k \<in> locked b" if "active s = as @ a # bs" for as a bs
    using waits_for_a_lock [OF that] by metis
  define wanted where "wanted a = the (awaited a)" for a
  have "Max (wanted ` set (active s)) \<in> wanted ` set (active s)" using assms(2) by simp
  then obtain a where a: "a \<in> set (active s)" "wanted a = Max (wanted ` set (active s))" by auto
  obtain as bs where s: "active s = as @ a # bs" using a(1) by (meson split_list)
  from stuck [OF s] obtain k b where b: "awaited a = Some k" "b \<in> set (as @ bs)" "k \<in> locked b" by blast
  then have "b \<in> set (active s)" by (auto simp: s)
  then obtain as' bs' where s': "active s = as' @ b # bs'" by (meson split_list)
  from stuck [OF s'] obtain l c where c: "awaited b = Some l" "c \<in> set (as' @ bs')" "l \<in> locked c" by blast
  have "tx_inv (committed s) b" using inv \<open>b \<in> set (active s)\<close> by (simp add: statement_inv_def)
  from locks_below_awaited [OF this _ b(3) c(1)] ascend \<open>b \<in> set (active s)\<close> have "k \<le> l" by simp
  moreover have "l \<le> k"
  proof -
    have "wanted b \<le> wanted a" unfolding a(2) using \<open>b \<in> set (active s)\<close> by simp
    then show ?thesis using b(1) c(1) by (simp add: wanted_def)
  qed
  ultimately have "l \<in> locked b \<inter> locked c" using b(3) c(3) by simp
  moreover have "apart b c" using inv c(2) s' by (simp add: statement_inv_def apart_split)
  ultimately show False by (auto simp: apart_def)
qed

section \<open>Every statement leaves less to do\<close>

definition tx_work :: "active_tx \<Rightarrow> nat" where
  "tx_work a = 2 * length (remaining a) + (if seeding a then 0 else 1) + 1"

definition work_left :: "statement_inventory \<Rightarrow> nat" where
  "work_left s = sum_list (map tx_work (active s))"

definition asked :: "statement_inventory \<Rightarrow> inventory_tx multiset" where
  "asked s = mset (map fst (replied s)) + mset (map tx_of (active s))"

lemma advance_measured:
  assumes "advance k s = Some t" and "statement_inv s"
  shows "work_left t < work_left s" and "asked t = asked s" and "tx_of ` set (active t) \<subseteq> tx_of ` set (active s)"
    and "statement_inv t"
proof -
  from assms(1) obtain as a bs where s: "active s = as @ a # bs" and k: "k = length as" by (rule advance_obtain)
  have adv: "advance (length as) s = Some t" using assms(1) k by simp
  show "work_left t < work_left s"
    using adv send_missing
    by (fastforce simp: advance_split [OF s] work_left_def tx_work_def s split: list.splits sum.splits option.splits if_splits)
  show "asked t = asked s"
    using adv
    by (auto simp: advance_split [OF s] asked_def s split: list.splits sum.splits option.splits if_splits)
  show "tx_of ` set (active t) \<subseteq> tx_of ` set (active s)"
    using adv
    by (auto simp: advance_split [OF s] s split: list.splits sum.splits option.splits if_splits)
  show "statement_inv t" using advance_sound [OF assms(1)] assms(2) statement_step_inv by blast
qed

lemma schedule_measured:
  assumes "schedule ks s = Some t" and "statement_inv s"
  shows "work_left t + length ks \<le> work_left s \<and> asked t = asked s \<and>
    tx_of ` set (active t) \<subseteq> tx_of ` set (active s) \<and> statement_inv t"
  using assms
proof (induction ks arbitrary: s)
  case (Cons k ks)
  then obtain s' where s': "advance k s = Some s'" "schedule ks s' = Some t" by (auto split: option.splits)
  note step = advance_measured [OF s'(1) Cons.prems(2)]
  from Cons.IH [OF s'(2) step(4)] step(1-3) show ?case by (simp add: subset_trans [of _ "tx_of ` set (active s')"])
qed simp

lemma schedule_append:
  "schedule (ks @ ks') s = (case schedule ks s of None \<Rightarrow> None | Some t \<Rightarrow> schedule ks' t)"
  by (induction ks arbitrary: s) (auto split: option.splits)

lemma finishing_schedule:
  assumes "statement_inv s" and "\<forall>a \<in> set (active s). items_ascend (tx_of a)"
  shows "\<exists>ks t. schedule ks s = Some t \<and> active t = []"
  using assms
proof (induction "work_left s" arbitrary: s rule: less_induct)
  case less
  show ?case
  proof (cases "active s = []")
    case True
    then show ?thesis by (intro exI [of _ "[]"]) simp
  next
    case False
    then obtain k s' where s': "advance k s = Some s'" using somebody_advances less.prems by blast
    note less_work = advance_measured [OF s' less.prems(1)]
    have "\<forall>a \<in> set (active s'). items_ascend (tx_of a)" using less_work(3) less.prems(2) by fastforce
    from less.hyps [OF less_work(1,4) this] obtain ks t where "schedule ks s' = Some t" "active t = []" by blast
    then show ?thesis using s' by (intro exI [of _ "k # ks"]) simp
  qed
qed

text \<open>C18: When the orders at work list their items in ascending order of the products, nobody waits for ever:
  however their statements have been interleaved so far, they can go on until all transactions have
  ended, after a number of statements that is bounded beforehand, and each of them has been answered once.\<close>
theorem ascending_transactions_all_end:
  assumes "reachable statement_start statement_step s" and "\<forall>a \<in> set (active s). items_ascend (tx_of a)"
    and "schedule ks s = Some t"
  shows "\<exists>ks' u. schedule (ks @ ks') s = Some u \<and> active u = [] \<and> length (ks @ ks') \<le> work_left s \<and>
    mset (map fst (replied u)) = mset (map fst (replied s)) + mset (map tx_of (active s))"
proof -
  have inv: "statement_inv s" using assms(1) by (rule rows.holds_when_reachable)
  note t = schedule_measured [OF assms(3) inv]
  have "statement_inv t" and "\<forall>a \<in> set (active t). items_ascend (tx_of a)" using t assms(2) by fastforce+
  from finishing_schedule [OF this] obtain ks' u where u: "schedule ks' t = Some u" "active u = []" by auto
  then have su: "schedule (ks @ ks') s = Some u" using assms(3) by (simp add: schedule_append)
  have "length (ks @ ks') \<le> work_left s" and "asked u = asked s"
    using schedule_measured [OF su inv] by (meson add_leD2)+
  then show ?thesis using u(2) su by (intro exI conjI) (simp_all add: asked_def)
qed


text \<open>Two orders that list two products in the order of their names.\<close>

definition pair_request :: "string \<Rightarrow> string \<Rightarrow> string \<Rightarrow> ReserveRequest" where
  "pair_request oid p q = \<lparr>req_orderId = oid, req_items = [an_item p 1, an_item q 1]\<rparr>"

definition two_products :: InventoryDB where
  "two_products = \<lparr>stock_items = [\<lparr>stock_productId = ''a'', availableQuantity = 5, reservedQuantity = 0\<rparr>,
     \<lparr>stock_productId = ''b'', availableQuantity = 5, reservedQuantity = 0\<rparr>], reservations = []\<rparr>"

lemma inventory_start_two_products: "inventory_start two_products"
  by (simp add: inventory_start_def two_products_def int4_max_def)

theorem ascending_transactions_all_end_witness:
  "let s = two_orders (pair_request ''o1'' ''a'' ''b'') (pair_request ''o2'' ''a'' ''b'') two_products in
   \<exists>ks' u. schedule ([0, 0, 0, 1, 1] @ ks') s = Some u \<and> active u = [] \<and> length ([0, 0, 0, 1, 1] @ ks') \<le> 32 \<and>
     mset (map fst (replied u)) = mset (map fst (replied s)) + mset (map tx_of (active s))"
proof -
  let ?s = "two_orders (pair_request ''o1'' ''a'' ''b'') (pair_request ''o2'' ''a'' ''b'') two_products"
  have "schedule [0, 0, 0, 1, 1] ?s \<noteq> None" by code_simp
  then obtain t where t: "schedule [0, 0, 0, 1, 1] ?s = Some t" by auto
  have ascend: "\<forall>a \<in> set (active ?s). items_ascend (tx_of a)" by code_simp
  have work: "work_left ?s = 32" by code_simp
  from ascending_transactions_all_end [OF reachable_two_orders [OF inventory_start_two_products] ascend t]
  show ?thesis unfolding Let_def work .
qed

section \<open>Deadlock and double seeding\<close>


end

