(* ===== verification/Catalog.thy ===== *)
theory Catalog
  imports Tables
begin

text \<open>
  The catalog service: products, their registration, and the price RPC the order service asks
  (\<open>catalog-service/src/catalog/catalog.service.ts\<close> and \<open>catalog.controller.ts\<close>). The locale
  \<open>price_source\<close> is the contract of the RPC as its client sees it.
\<close>

section \<open>Data\<close>

text \<open>The generated column \<open>createdAt\<close> is never read and is left out.\<close>

record Product =
  product_id :: string
  product_productId :: string
  product_name :: string
  product_price :: js_number
  product_description :: "string option"

record CreateProductDto =
  dto_productId :: string
  dto_name :: string
  dto_price :: js_number
  dto_description :: "string option"

record GetPricesResult =
  prices :: "(string \<times> js_number) list"
  missing :: "string list"

section \<open>Operations\<close>

text \<open>A fault is what the query rejects with, if it does.\<close>

definition findAll :: "exn option \<Rightarrow> Product list \<Rightarrow> Product list result" where
  "findAll fault products = attempt fault (Inr products)"

text \<open>The primary key is a \<open>uuid\<close> column: the database decides which strings it can compare with
  it, and raises on the others.\<close>

definition findOne :: "(string \<Rightarrow> bool) \<Rightarrow> exn option \<Rightarrow> string \<Rightarrow> Product list \<Rightarrow> Product option result" where
  "findOne is_uuid fault pk products = attempt fault
     (if is_uuid pk then Inr (find_row product_id pk products)
      else Inl (Error ''invalid input syntax for type uuid''))"

definition get_product :: "(string \<Rightarrow> bool) \<Rightarrow> exn option \<Rightarrow> string \<Rightarrow> Product list \<Rightarrow> Product result" where
  "get_product is_uuid fault pk products = (case findOne is_uuid fault pk products of
     Inl e \<Rightarrow> Inl e
   | Inr None \<Rightarrow> Inl (NotFoundException (''Product '' @ pk @ '' not found''))
   | Inr (Some product) \<Rightarrow> Inr product)"

text \<open>\<open>create\<close>: the check for a product with the same \<open>productId\<close>, then the insert, which is
  a statement of its own and may meet another insert made in between.\<close>

definition check_unregistered :: "exn option \<Rightarrow> CreateProductDto \<Rightarrow> Product list \<Rightarrow> unit result" where
  "check_unregistered fault dto products =
     (case attempt fault (Inr (find_row product_productId (dto_productId dto) products)) of
        Inl e \<Rightarrow> Inl e
      | Inr (Some _) \<Rightarrow> Inl (ConflictException (''Product '' @ dto_productId dto @ '' already registered''))
      | Inr None \<Rightarrow> Inr ())"

definition product_of_dto :: "string \<Rightarrow> CreateProductDto \<Rightarrow> Product" where
  "product_of_dto pk dto = \<lparr>product_id = pk, product_productId = dto_productId dto,
     product_name = dto_name dto, product_price = dto_price dto, product_description = dto_description dto\<rparr>"

definition save_product :: "exn option \<Rightarrow> string \<Rightarrow> CreateProductDto \<Rightarrow> Product list \<Rightarrow>
    Product result \<times> Product list" where
  "save_product fault pk dto products =
     (case attempt fault (insert_row product_productId (product_of_dto pk dto) products) of
        Inl e \<Rightarrow> (Inl e, products)
      | Inr products' \<Rightarrow> (Inr (product_of_dto pk dto), products'))"

definition create :: "exn option \<Rightarrow> exn option \<Rightarrow> string \<Rightarrow> CreateProductDto \<Rightarrow> Product list \<Rightarrow>
    Product result \<times> Product list" where
  "create lookup save pk dto products = (case check_unregistered lookup dto products of
     Inl e \<Rightarrow> (Inl e, products)
   | Inr _ \<Rightarrow> save_product save pk dto products)"

text \<open>The loop of \<open>getPrices\<close>: prices and missing ids are pushed in the order of the request.\<close>

fun price_loop :: "(string \<Rightarrow> Product option) \<Rightarrow> string list \<Rightarrow> (string \<times> js_number) list \<Rightarrow> string list \<Rightarrow>
    GetPricesResult" where
  "price_loop byProductId [] ps ms = \<lparr>prices = ps, missing = ms\<rparr>"
| "price_loop byProductId (productId # productIds) ps ms = (case byProductId productId of
     Some product \<Rightarrow> price_loop byProductId productIds (ps @ [(productId, product_price product)]) ms
   | None \<Rightarrow> price_loop byProductId productIds ps (ms @ [productId]))"

definition getPrices :: "exn option \<Rightarrow> string list \<Rightarrow> bool \<Rightarrow> Product list \<Rightarrow> GetPricesResult reply" where
  "getPrices fault productIds redelivered products =
     (if redelivered then Nack False
      else Reply (case attempt fault (Inr products) of
        Inl _ \<Rightarrow> \<lparr>prices = [], missing = productIds\<rparr>
      | Inr products \<Rightarrow>
          price_loop (js_Map (map (\<lambda>p. (product_productId p, p)) products)) productIds [] []))"

section \<open>The product table\<close>

interpretation product_table: unique_store product_productId "find_row product_productId"
  "insert_row product_productId"
  by (rule unique_table_store)

definition catalog_inv :: "Product list \<Rightarrow> bool" where
  "catalog_inv products \<longleftrightarrow> distinct (map product_productId products)"

text \<open>The price the catalog lists.\<close>

definition listed_price :: "Product list \<Rightarrow> string \<Rightarrow> js_number option" where
  "listed_price products pid = map_option product_price (find_row product_productId pid products)"

lemma map_of_rows: "map_of (map (\<lambda>r. (key r, r)) rows) k = find_row key k rows"
  by (induction rows) auto

lemma index_is_lookup:
  assumes "catalog_inv products"
  shows "js_Map (map (\<lambda>p. (product_productId p, p)) products) pid = find_row product_productId pid products"
proof -
  have "distinct (map fst (map (\<lambda>p. (product_productId p, p)) products))"
    using assms by (simp add: catalog_inv_def comp_def)
  then have "map_of (rev (map (\<lambda>p. (product_productId p, p)) products)) =
      map_of (map (\<lambda>p. (product_productId p, p)) products)"
    by (intro map_of_inject_set [THEN iffD2]) (simp_all add: rev_map [symmetric])
  then show ?thesis by (simp add: js_Map_map_of map_of_rows)
qed

lemma price_loop_result:
  "price_loop m ids ps ms = \<lparr>prices = ps @ map (\<lambda>i. (i, product_price (the (m i)))) (filter (\<lambda>i. m i \<noteq> None) ids),
     missing = ms @ filter (\<lambda>i. m i = None) ids\<rparr>"
  by (induction ids arbitrary: ps ms) (auto split: option.splits)

lemma create_cases:
  "create None None pk dto products =
     (case find_row product_productId (dto_productId dto) products of
        Some _ \<Rightarrow> (Inl (ConflictException (''Product '' @ dto_productId dto @ '' already registered'')), products)
      | None \<Rightarrow> (Inr (product_of_dto pk dto), products @ [product_of_dto pk dto]))"
proof (cases "find_row product_productId (dto_productId dto) products")
  case None
  then have "insert_row product_productId (product_of_dto pk dto) products = Inr (products @ [product_of_dto pk dto])"
    by (intro insert_row_fresh) (simp add: product_of_dto_def find_row_None_iff)
  with None show ?thesis by (simp add: create_def check_unregistered_def save_product_def)
qed (simp add: create_def check_unregistered_def)

section \<open>The price RPC as its client sees it\<close>

text \<open>
  Whoever answers a price request promises that every price it names is one the seller lists,
  that every product asked about is either priced or reported missing, and that nothing else is
  reported missing.
\<close>

locale price_source =
  fixes ask :: "string list \<Rightarrow> GetPricesResult" and listed :: "string \<Rightarrow> js_number option"
  assumes honest: "(pid, price) \<in> set (prices (ask ids)) \<Longrightarrow> listed pid = Some price"
    and covers: "pid \<in> set ids \<Longrightarrow> pid \<in> fst ` set (prices (ask ids)) \<or> pid \<in> set (missing (ask ids))"
    and only_asked: "set (missing (ask ids)) \<subseteq> set ids"
begin

lemma price_of_reply:
  assumes "missing (ask ids) = []" and "pid \<in> set ids"
  shows "\<exists>price. js_Map (prices (ask ids)) pid = Some price \<and> listed pid = Some price"
proof -
  have "pid \<in> fst ` set (prices (ask ids))"
    using covers [OF assms(2)] assms(1) by simp
  then obtain price where "js_Map (prices (ask ids)) pid = Some price"
    using js_Map_None_iff [of "prices (ask ids)" pid] by (cases "js_Map (prices (ask ids)) pid") auto
  then show ?thesis using honest [of pid _ ids] js_Map_SomeD [of _ pid] by metis
qed

end

text \<open>The reply of the catalog to a message that is not redelivered.\<close>

definition catalog_answer :: "exn option \<Rightarrow> Product list \<Rightarrow> string list \<Rightarrow> GetPricesResult" where
  "catalog_answer fault products ids = (case getPrices fault ids False products of
     Reply r \<Rightarrow> r | Nack _ \<Rightarrow> \<lparr>prices = [], missing = ids\<rparr>)"

lemma catalog_answer_fault: "catalog_answer (Some e) products ids = \<lparr>prices = [], missing = ids\<rparr>"
  by (simp add: catalog_answer_def getPrices_def)

lemma catalog_answer_ok:
  assumes "catalog_inv products"
  shows "catalog_answer None products ids =
    \<lparr>prices = map (\<lambda>i. (i, the (listed_price products i))) (filter (\<lambda>i. listed_price products i \<noteq> None) ids),
     missing = filter (\<lambda>i. listed_price products i = None) ids\<rparr>"
  by (auto simp: catalog_answer_def getPrices_def price_loop_result index_is_lookup [OF assms]
      listed_price_def)

text \<open>Only the lookup matters for the contract, and it goes through an index of the rows, so no
  uniqueness is needed: the index itself is the price list.\<close>

definition indexed_price :: "Product list \<Rightarrow> string \<Rightarrow> js_number option" where
  "indexed_price products pid =
     map_option product_price (js_Map (map (\<lambda>p. (product_productId p, p)) products) pid)"

interpretation catalog_rpc: price_source "catalog_answer fault products" "indexed_price products"
  for fault products
  by unfold_locales
    (cases fault; auto simp: catalog_answer_def getPrices_def price_loop_result indexed_price_def image_iff)+

lemma indexed_price_listed: "catalog_inv products \<Longrightarrow> indexed_price products = listed_price products"
  by (simp add: fun_eq_iff indexed_price_def listed_price_def index_is_lookup)

section \<open>Properties\<close>

definition a_product :: "string \<Rightarrow> int \<Rightarrow> Product" where
  "a_product pid price = \<lparr>product_id = ''uuid-'' @ pid, product_productId = pid, product_name = pid,
     product_price = js_int price, product_description = None\<rparr>"

text \<open>The price RPC splits the request: the prices it returns are those of the catalog, in the
  order asked, and the ids it reports missing are exactly those the catalog does not list; when the
  database fails it reports every id missing, and a redelivered message goes to the dead-letter
  queue unanswered.\<close>
theorem getPrices_partitions_request:
  assumes "catalog_inv products"
  shows "getPrices fault ids redelivered products =
    (if redelivered then Nack False
     else Reply (if fault = None
       then \<lparr>prices = map (\<lambda>i. (i, the (listed_price products i))) (filter (\<lambda>i. listed_price products i \<noteq> None) ids),
             missing = filter (\<lambda>i. listed_price products i = None) ids\<rparr>
       else \<lparr>prices = [], missing = ids\<rparr>))"
  using catalog_answer_ok [OF assms, of ids]
  by (cases fault) (auto simp: getPrices_def catalog_answer_def)

theorem getPrices_partitions_request_witness:
  "getPrices None [''tea'', ''tin'', ''cup''] False [a_product ''cup'' 7, a_product ''tea'' 3] =
     Reply \<lparr>prices = [(''tea'', js_int 3), (''cup'', js_int 7)], missing = [''tin'']\<rparr>"
proof -
  have "catalog_inv [a_product ''cup'' 7, a_product ''tea'' 3]"
    by (simp add: catalog_inv_def a_product_def)
  from getPrices_partitions_request [OF this, of None] show ?thesis
    by (simp add: listed_price_def a_product_def)
qed

text \<open>Registering a product: a second product with a registered \<open>productId\<close> is refused with a
  conflict and changes nothing, a new one is listed with its price, no other listing changes and
  the catalog keeps its product ids distinct.\<close>
theorem create_registers_once:
  assumes "catalog_inv products"
  shows "case create None None pk dto products of (r, products') \<Rightarrow>
    catalog_inv products' \<and>
    (\<forall>pid. pid \<noteq> dto_productId dto \<longrightarrow> listed_price products' pid = listed_price products pid) \<and>
    (case listed_price products (dto_productId dto) of
       Some _ \<Rightarrow> products' = products \<and>
         r = Inl (ConflictException (''Product '' @ dto_productId dto @ '' already registered''))
     | None \<Rightarrow> listed_price products' (dto_productId dto) = Some (dto_price dto) \<and>
         r = Inr (product_of_dto pk dto))"
proof (cases "find_row product_productId (dto_productId dto) products")
  case None
  moreover from this have "dto_productId dto \<notin> product_productId ` set products"
    by (simp add: find_row_None_iff)
  ultimately show ?thesis
    using assms by (simp add: create_cases catalog_inv_def listed_price_def find_row_append product_of_dto_def
        split: option.split)
qed (simp add: create_cases listed_price_def assms)

theorem create_registers_once_witness:
  "fst (create None None ''k'' \<lparr>dto_productId = ''tea'', dto_name = ''Tea'', dto_price = js_int 1,
      dto_description = None\<rparr> [a_product ''tea'' 3])
    = Inl (ConflictException ''Product tea already registered'')"
proof -
  have "catalog_inv [a_product ''tea'' 3]"
    by (simp add: catalog_inv_def)
  from create_registers_once [OF this, where pk = "''k''" and dto = "\<lparr>dto_productId = ''tea'', dto_name = ''Tea'',
      dto_price = js_int 1, dto_description = None\<rparr>"]
  show ?thesis by (auto simp: listed_price_def a_product_def split: prod.splits)
qed

text \<open>Two registrations of one \<open>productId\<close> that both pass the check before either insert: the
  unique column lets exactly the first insert through, and the second one fails (with the
  database's error, not the conflict of the check) without a change.\<close>
theorem overlapping_creates_one_wins:
  assumes "check_unregistered None dto products = Inr ()" and "dto_productId dto' = dto_productId dto"
  shows "let (r1, products1) = save_product None pk dto products;
      (r2, products2) = save_product None pk' dto' products1 in
    r1 = Inr (product_of_dto pk dto) \<and> (\<exists>e. r2 = Inl (Error e)) \<and> products2 = products1"
  using assms
  by (auto simp: check_unregistered_def save_product_def product_of_dto_def insert_row_def
      find_row_None_iff split: option.splits)

theorem overlapping_creates_one_wins_witness:
  "let dto = \<lparr>dto_productId = ''tea'', dto_name = ''Tea'', dto_price = js_int 1, dto_description = None\<rparr>;
      (r1, products1) = save_product None ''k1'' dto [a_product ''cup'' 7];
      (r2, products2) = save_product None ''k2'' dto products1 in
    length products2 = 2 \<and> (\<exists>e. r2 = Inl (Error e))"
  using overlapping_creates_one_wins [of "\<lparr>dto_productId = ''tea'', dto_name = ''Tea'', dto_price = js_int 1,
      dto_description = None\<rparr>" "[a_product ''cup'' 7]" _ "''k1''" "''k2''"]
  by (auto simp: check_unregistered_def save_product_def product_of_dto_def insert_row_def a_product_def)

end
