(* ===== verification/Order.thy ===== *)
theory Order
  imports Catalog
begin

text \<open>
  The order service up to its outbox (\<open>order-service/src/order/order.service.ts\<close>): an order is
  priced against the catalog, and the order row and its \<open>order.created\<close> event are written in one
  transaction. What the circuit breaker of the library opossum lets through is an argument, the
  function \<open>fire\<close>.
\<close>

section \<open>Data\<close>

datatype OrderStatus = PENDING | INVENTORY_RESERVED | COMPLETED | CANCELLED

text \<open>The values of the database enum compare in the order of its declaration.\<close>

fun status_rank :: "OrderStatus \<Rightarrow> nat" where
  "status_rank PENDING = 0"
| "status_rank INVENTORY_RESERVED = 1"
| "status_rank COMPLETED = 2"
| "status_rank CANCELLED = 3"

lemma status_rank_inj: "status_rank s = status_rank t \<Longrightarrow> s = t"
  by (cases s; cases t) simp_all

instantiation OrderStatus :: linorder
begin

definition less_eq_OrderStatus :: "OrderStatus \<Rightarrow> OrderStatus \<Rightarrow> bool" where
  "less_eq_OrderStatus s t \<longleftrightarrow> status_rank s \<le> status_rank t"

definition less_OrderStatus :: "OrderStatus \<Rightarrow> OrderStatus \<Rightarrow> bool" where
  "less_OrderStatus s t \<longleftrightarrow> status_rank s < status_rank t"

instance
  by intro_classes (auto simp: less_eq_OrderStatus_def less_OrderStatus_def intro: status_rank_inj)

end

text \<open>A price that was not found is \<open>undefined\<close>, here \<open>None\<close>.\<close>

record OrderItem =
  oi_productId :: string
  oi_quantity :: js_number
  oi_price :: "js_number option"

record Order =
  order_id :: string
  order_customerId :: string
  order_items :: "OrderItem list"
  order_total :: js_number
  order_status :: OrderStatus
  order_createdAt :: string

record OrderCreatedEvent =
  ev_orderId :: string
  ev_customerId :: string
  ev_total :: js_number
  ev_items :: "OrderItem list"
  ev_createdAt :: string

record OutboxEvent =
  outbox_id :: string
  aggregateType :: string
  aggregateId :: string
  eventType :: string
  payload :: OrderCreatedEvent

record OrderDB =
  orders :: "Order list"
  outbox_events :: "OutboxEvent list"

record DtoItem =
  dto_item_productId :: string
  dto_item_quantity :: js_number

record CreateOrderDto =
  dto_customerId :: string
  dto_items :: "DtoItem list"

text \<open>What the database supplies to one call: the generated keys and time, and what each of the
  two inserts and the commit reject with, if they do.\<close>

record order_env =
  new_order_id :: string
  new_outbox_id :: string
  now_iso :: string
  order_fault :: "exn option"
  outbox_fault :: "exn option"
  commit_fault :: "exn option"

section \<open>Pricing\<close>

definition unverified :: exn where
  "unverified = BadRequestException ''Unable to verify product prices right now''"

definition priceItems :: "(string list \<Rightarrow> GetPricesResult result) \<Rightarrow> DtoItem list \<Rightarrow> OrderItem list result" where
  "priceItems fire items = (let productIds = map dto_item_productId items in
     case fire productIds of
       Inl _ \<Rightarrow> Inl unverified
     | Inr result \<Rightarrow>
         (if missing result \<noteq> []
          then Inl (BadRequestException (''Unknown product(s): '' @ join_comma (missing result)))
          else let priceByProductId = js_Map (prices result) in
            Inr (map (\<lambda>item. \<lparr>oi_productId = dto_item_productId item, oi_quantity = dto_item_quantity item,
                oi_price = priceByProductId (dto_item_productId item)\<rparr>) items)))"

definition item_amount :: "OrderItem \<Rightarrow> js_number" where
  "item_amount item = (case oi_price item of None \<Rightarrow> NaN | Some price \<Rightarrow> js_mul price (oi_quantity item))"

definition order_sum :: "OrderItem list \<Rightarrow> js_number" where
  "order_sum items = foldl (\<lambda>sum item. js_add sum (item_amount item)) (js_int 0) items"

section \<open>Creating an order\<close>

definition event_of :: "Order \<Rightarrow> OrderCreatedEvent" where
  "event_of order = \<lparr>ev_orderId = order_id order, ev_customerId = order_customerId order,
     ev_total = order_total order, ev_items = order_items order, ev_createdAt = order_createdAt order\<rparr>"

definition outbox_of :: "string \<Rightarrow> Order \<Rightarrow> OutboxEvent" where
  "outbox_of eid order = \<lparr>outbox_id = eid, aggregateType = ''Order'', aggregateId = order_id order,
     eventType = ''order.created'', payload = event_of order\<rparr>"

definition order_tx :: "order_env \<Rightarrow> string \<Rightarrow> OrderItem list \<Rightarrow> js_number \<Rightarrow> OrderDB \<Rightarrow> (Order \<times> OrderDB) result" where
  "order_tx env customerId items tot db =
     (let order = \<lparr>order_id = new_order_id env, order_customerId = customerId, order_items = items,
         order_total = tot, order_status = PENDING, order_createdAt = now_iso env\<rparr> in
      case attempt (order_fault env) (insert_row order_id order (orders db)) of
        Inl e \<Rightarrow> Inl e
      | Inr orders' \<Rightarrow> (case attempt (outbox_fault env)
            (insert_row outbox_id (outbox_of (new_outbox_id env) order) (outbox_events db)) of
          Inl e \<Rightarrow> Inl e
        | Inr outbox' \<Rightarrow> attempt (commit_fault env) (Inr (order, \<lparr>orders = orders', outbox_events = outbox'\<rparr>))))"

definition createOrder :: "(string list \<Rightarrow> GetPricesResult result) \<Rightarrow> order_env \<Rightarrow> CreateOrderDto \<Rightarrow> OrderDB \<Rightarrow>
    Order result \<times> OrderDB" where
  "createOrder fire env dto db = (case priceItems fire (dto_items dto) of
     Inl e \<Rightarrow> (Inl e, db)
   | Inr items \<Rightarrow> transaction (order_tx env (dto_customerId dto) items (order_sum items)) db)"

section \<open>The order and its event\<close>

interpretation order_table: unique_store order_id "find_row order_id" "insert_row order_id"
  by (rule unique_table_store)

text \<open>Every order has its event and every event its order, in the order they were written; the
  status of an order may have moved on since.\<close>

definition announced :: "Order \<Rightarrow> OutboxEvent \<Rightarrow> bool" where
  "announced order e \<longleftrightarrow> aggregateType e = ''Order'' \<and> aggregateId e = order_id order \<and>
     eventType e = ''order.created'' \<and> payload e = event_of order"

definition order_inv :: "OrderDB \<Rightarrow> bool" where
  "order_inv db \<longleftrightarrow> distinct (map order_id (orders db)) \<and> distinct (map outbox_id (outbox_events db)) \<and>
     list_all2 announced (orders db) (outbox_events db)"

lemma announced_outbox_of: "announced order (outbox_of eid order)"
  by (simp add: announced_def outbox_of_def)

lemma order_tx_Inr:
  assumes "order_tx env c items tot db = Inr (order, db')"
  shows "order = \<lparr>order_id = new_order_id env, order_customerId = c, order_items = items,
      order_total = tot, order_status = PENDING, order_createdAt = now_iso env\<rparr>"
    and "orders db' = orders db @ [order]"
    and "outbox_events db' = outbox_events db @ [outbox_of (new_outbox_id env) order]"
    and "new_order_id env \<notin> order_id ` set (orders db)"
    and "new_outbox_id env \<notin> outbox_id ` set (outbox_events db)"
  using assms
  by (auto simp: order_tx_def Let_def attempt_Inr insert_row_Inr outbox_of_def split: sum.splits)

lemma outbox_of_id [simp]: "outbox_id (outbox_of eid order) = eid"
  by (simp add: outbox_of_def)

lemma order_tx_inv: "order_tx env c items tot db = Inr (order, db') \<Longrightarrow> order_inv db \<Longrightarrow> order_inv db'"
  using order_tx_Inr(1-3) [of env c items tot db order db'] order_tx_Inr(4,5) [of env c items tot db order db']
  by (simp add: order_inv_def list_all2_appendI announced_outbox_of)

lemma createOrder_inv: "order_inv db \<Longrightarrow> order_inv (snd (createOrder fire env dto db))"
  by (auto simp: createOrder_def intro: order_tx_inv split: sum.splits prod.splits)

section \<open>Amounts\<close>

definition whole_item :: "OrderItem \<Rightarrow> bool" where
  "whole_item item \<longleftrightarrow> (\<exists>p q. oi_price item = Some (js_int p) \<and> oi_quantity item = js_int q \<and> 0 \<le> p \<and> 0 \<le> q)"

definition whole_amount :: "OrderItem \<Rightarrow> int" where
  "whole_amount item = (case (oi_price item, oi_quantity item) of
     (Some (Fin p), Fin q) \<Rightarrow> \<lfloor>p\<rfloor> * \<lfloor>q\<rfloor> | _ \<Rightarrow> 0)"

lemma whole_amount_nonneg: "whole_item item \<Longrightarrow> 0 \<le> whole_amount item"
  by (auto simp: whole_item_def whole_amount_def js_int_def)

lemma item_amount_whole:
  "whole_item item \<Longrightarrow> whole_amount item < 2 ^ 53 \<Longrightarrow> item_amount item = js_int (whole_amount item)"
  by (auto simp: whole_item_def whole_amount_def item_amount_def js_int_def simp flip: of_int_mult
      intro!: round_double_int)

lemma order_sum_from:
  assumes "\<forall>item \<in> set items. whole_item item" and "0 \<le> acc" and "acc + sum_of whole_amount items < 2 ^ 53"
  shows "foldl (\<lambda>sum item. js_add sum (item_amount item)) (js_int acc) items
    = js_int (acc + sum_of whole_amount items)"
  using assms
proof (induction items arbitrary: acc)
  case (Cons item items)
  have nonneg: "0 \<le> whole_amount item" "0 \<le> sum_of whole_amount items"
    using Cons.prems(1) by (auto intro: whole_amount_nonneg sum_of_nonneg)
  with Cons.prems have "item_amount item = js_int (whole_amount item)"
    by (intro item_amount_whole) simp_all
  moreover have "js_add (js_int acc) (js_int (whole_amount item)) = js_int (acc + whole_amount item)"
    using Cons.prems nonneg by (intro js_add_int) simp
  ultimately show ?case
    using Cons.IH [of "acc + whole_amount item"] Cons.prems nonneg by (simp add: add.assoc)
qed simp

section \<open>Properties\<close>

text \<open>C12: Creating an order is all or nothing: on any failure neither table changes; on success
  exactly one order, PENDING and with the sum of its items as total, and exactly one
  \<open>order.created\<close> event that carries the data of this order are added, in one transaction.\<close>
theorem createOrder_all_or_nothing:
  "case createOrder fire env dto db of
     (Inl e, db') \<Rightarrow> db' = db
   | (Inr order, db') \<Rightarrow> orders db' = orders db @ [order] \<and>
       outbox_events db' = outbox_events db @ [outbox_of (new_outbox_id env) order] \<and>
       order_status order = PENDING \<and> order_customerId order = dto_customerId dto \<and>
       order_total order = order_sum (order_items order)"
proof (cases "createOrder fire env dto db")
  case (Pair r db')
  show ?thesis
  proof (cases r)
    case (Inr order)
    with Pair obtain items where "order_tx env (dto_customerId dto) items (order_sum items) db = Inr (order, db')"
      by (auto simp: createOrder_def split: sum.splits)
    from order_tx_Inr [OF this] show ?thesis using Pair Inr by auto
  qed (use Pair in \<open>auto simp: createOrder_def split: sum.splits\<close>)
qed

text \<open>Every order in the database has its \<open>order.created\<close> event in the outbox and every event
  in the outbox its order, with the order's id and contents, whatever calls succeed or fail.\<close>
theorem createOrder_keeps_order_inv:
  assumes "order_inv db"
  shows "order_inv (snd (createOrder fire env dto db))"
  using assms by (rule createOrder_inv)

definition tea_order :: "int \<Rightarrow> CreateOrderDto" where
  "tea_order n = \<lparr>dto_customerId = ''c1'', dto_items = [\<lparr>dto_item_productId = ''tea'', dto_item_quantity = js_int n\<rparr>]\<rparr>"

definition an_env :: "string \<Rightarrow> order_env" where
  "an_env oid = \<lparr>new_order_id = oid, new_outbox_id = ''e-'' @ oid, now_iso = ''2025-01-01T00:00:00.000Z'',
     order_fault = None, outbox_fault = None, commit_fault = None\<rparr>"

definition no_orders :: OrderDB where
  "no_orders = \<lparr>orders = [], outbox_events = []\<rparr>"

abbreviation ask_catalog :: "Product list \<Rightarrow> string list \<Rightarrow> GetPricesResult result" where
  "ask_catalog products \<equiv> \<lambda>ids. Inr (catalog_answer None products ids)"

theorem createOrder_keeps_order_inv_witness:
  "order_inv (snd (createOrder (ask_catalog [a_product ''tea'' 3]) (an_env ''o1'') (tea_order 2) no_orders))"
  by (rule createOrder_keeps_order_inv) (simp add: order_inv_def no_orders_def)

lemma priceItems_catalog:
  assumes "priceItems (\<lambda>ids. Inr (catalog_answer fault products ids)) items = Inr priced"
  shows "list_all2 (\<lambda>d i. oi_productId i = dto_item_productId d \<and> oi_quantity i = dto_item_quantity d \<and>
      oi_price i = indexed_price products (dto_item_productId d) \<and> oi_price i \<noteq> None) items priced"
proof -
  let ?ids = "map dto_item_productId items" and ?r = "catalog_answer fault products (map dto_item_productId items)"
  have m: "missing ?r = []" and priced: "priced = map (\<lambda>item. \<lparr>oi_productId = dto_item_productId item,
      oi_quantity = dto_item_quantity item, oi_price = js_Map (prices ?r) (dto_item_productId item)\<rparr>) items"
    using assms by (auto simp: priceItems_def Let_def split: if_splits)
  have "\<exists>price. js_Map (prices ?r) pid = Some price \<and> indexed_price products pid = Some price" if "pid \<in> set ?ids" for pid
    using catalog_rpc.price_of_reply [OF m that] .
  then show ?thesis
    unfolding priced by (fastforce simp: list_all2_map2 intro: list.rel_refl_strong)
qed

text \<open>C13: The client cannot choose a price: whatever the catalog's state and faults, an order that
  is created has for each item of the request, in order, the product and quantity of the request
  and the price the catalog lists.\<close>
theorem order_prices_are_the_catalogs:
  assumes "catalog_inv products"
    and "fst (createOrder (\<lambda>ids. Inr (catalog_answer fault products ids)) env dto db) = Inr order"
  shows "list_all2 (\<lambda>d i. oi_productId i = dto_item_productId d \<and> oi_quantity i = dto_item_quantity d \<and>
      oi_price i = listed_price products (dto_item_productId d) \<and> oi_price i \<noteq> None)
    (dto_items dto) (order_items order)"
proof -
  obtain items db' where "priceItems (\<lambda>ids. Inr (catalog_answer fault products ids)) (dto_items dto) = Inr items"
    and tx: "order_tx env (dto_customerId dto) items (order_sum items) db = Inr (order, db')"
    using assms(2) by (auto simp: createOrder_def split: sum.splits)
  from priceItems_catalog [OF this(1)] order_tx_Inr(1) [OF tx] show ?thesis
    by (simp add: indexed_price_listed [OF assms(1)])
qed

theorem order_prices_are_the_catalogs_witness:
  "\<exists>order. fst (createOrder (ask_catalog [a_product ''tea'' 3]) (an_env ''o1'') (tea_order 2) no_orders) = Inr order \<and>
     map oi_price (order_items order) = [Some (js_int 3)]"
proof -
  have inv: "catalog_inv [a_product ''tea'' 3]"
    by (simp add: catalog_inv_def)
  have answer: "catalog_answer None [a_product ''tea'' 3] [''tea''] = \<lparr>prices = [(''tea'', js_int 3)], missing = []\<rparr>"
    unfolding catalog_answer_ok [OF inv] by (simp add: listed_price_def a_product_def)
  have "priceItems (ask_catalog [a_product ''tea'' 3]) (dto_items (tea_order 2)) = Inr
      [\<lparr>oi_productId = ''tea'', oi_quantity = js_int 2, oi_price = Some (js_int 3)\<rparr>]"
    by (simp add: priceItems_def tea_order_def answer Let_def js_Map_def)
  then obtain order where made:
    "fst (createOrder (ask_catalog [a_product ''tea'' 3]) (an_env ''o1'') (tea_order 2) no_orders) = Inr order"
    by (simp add: createOrder_def order_tx_def an_env_def no_orders_def insert_row_def Let_def)
  from order_prices_are_the_catalogs [OF inv made] made show ?thesis
    by (auto simp: tea_order_def listed_price_def a_product_def list_all2_Cons1)
qed

text \<open>When the price lookup fails, or reports a product as unknown, the request is refused with
  the corresponding \<open>BadRequestException\<close>, which names the unknown products, and nothing is
  stored.\<close>
theorem createOrder_refuses_unpriced:
  assumes "case fire (map dto_item_productId (dto_items dto)) of Inl _ \<Rightarrow> True | Inr reply \<Rightarrow> missing reply \<noteq> []"
  shows "createOrder fire env dto db = (Inl (BadRequestException
    (case fire (map dto_item_productId (dto_items dto)) of
       Inl _ \<Rightarrow> ''Unable to verify product prices right now''
     | Inr reply \<Rightarrow> ''Unknown product(s): '' @ join_comma (missing reply))), db)"
  using assms by (auto simp: createOrder_def priceItems_def unverified_def Let_def split: sum.splits)

theorem createOrder_refuses_unpriced_witness:
  "createOrder (ask_catalog [a_product ''cup'' 7]) (an_env ''o1'') (tea_order 2) no_orders =
     (Inl (BadRequestException ''Unknown product(s): tea''), no_orders)"
proof -
  have "catalog_inv [a_product ''cup'' 7]"
    by (simp add: catalog_inv_def)
  then have m: "missing (catalog_answer None [a_product ''cup'' 7] (map dto_item_productId (dto_items (tea_order 2)))) = [''tea'']"
    by (simp add: catalog_answer_ok listed_price_def a_product_def tea_order_def)
  have "case ask_catalog [a_product ''cup'' 7] (map dto_item_productId (dto_items (tea_order 2))) of
      Inl _ \<Rightarrow> True | Inr reply \<Rightarrow> missing reply \<noteq> []"
    by (simp add: m)
  from createOrder_refuses_unpriced [of "ask_catalog [a_product ''cup'' 7]" "tea_order 2", OF this]
  show ?thesis by (simp add: m)
qed

text \<open>C20: The total is computed in floating point; for whole prices and quantities whose sum stays
  below \<open>2 ^ 53\<close> every rounding is exact and the stored total is the true sum.\<close>
theorem order_total_exact:
  assumes "\<forall>item \<in> set items. whole_item item" and "sum_of whole_amount items < 2 ^ 53"
  shows "order_sum items = js_int (sum_of whole_amount items)"
  using order_sum_from [of items 0] assms by (simp add: order_sum_def)

definition priced_item :: "string \<Rightarrow> js_number \<Rightarrow> js_number \<Rightarrow> OrderItem" where
  "priced_item pid price q = \<lparr>oi_productId = pid, oi_quantity = q, oi_price = Some price\<rparr>"

theorem order_total_exact_witness:
  "order_sum [priced_item ''tea'' (js_int 3) (js_int 2), priced_item ''cup'' (js_int 7) (js_int 1)] = js_int 13"
  using order_total_exact [of "[priced_item ''tea'' (js_int 3) (js_int 2), priced_item ''cup'' (js_int 7) (js_int 1)]"]
  by (force simp: whole_item_def whole_amount_def priced_item_def js_int_def)

text \<open>The roundings of 0.1 + 0.1 + 0.1, and of 0.3.\<close>

lemma round_tenth_sum: "round_double (3602879701896397 / 36028797018963968) = Fin (3602879701896397 / 36028797018963968)"
  by (rule round_double_eqI [where e = "-56" and m = 7205759403792794]) (simp_all add: double_eval)

lemma round_two_tenths_sum: "round_double (3602879701896397 / 18014398509481984) = Fin (3602879701896397 / 18014398509481984)"
  by (rule round_double_eqI [where e = "-55" and m = 7205759403792794]) (simp_all add: double_eval)

lemma round_three_tenths_summed_sum: "round_double (10808639105689191 / 36028797018963968) = Fin (1351079888211149 / 4503599627370496)"
  by (rule round_double_eqI [where e = "-54" and m = 5404319552844596]) (simp_all add: double_eval)

lemma round_three_tenths_sum: "round_double (3 / 10) = Fin (5404319552844595 / 18014398509481984)"
  by (rule round_double_eqI [where e = "-54" and m = 5404319552844595]) (simp_all add: double_eval)

lemmas tenths = round_tenth_sum round_two_tenths_sum round_three_tenths_summed_sum round_three_tenths_sum

text \<open>With decimal prices the total is not exact: three items at 0.1 add up to
  0.30000000000000004, the double above 0.3.\<close>
theorem order_total_of_tenths:
  "order_sum (replicate 3 (priced_item ''x'' (round_double (1 / 10)) (js_int 1))) =
     Fin (1351079888211149 / 4503599627370496) \<and>
   round_double (3 / 10) = Fin (5404319552844595 / 18014398509481984)"
  by (simp add: order_sum_def item_amount_def priced_item_def round_tenth js_int_def tenths numeral_3_eq_3)

end
