(* ===== verification/Messages.thy ===== *)
theory Messages
  imports Order
begin

text \<open>
  The messages of the exchange: the payloads the services publish and consume
  (\<open>order.created\<close>, \<open>payment.requested\<close>, \<open>payment.succeeded\<close> and \<open>payment.failed\<close>,
  \<open>order.status-changed\<close>), each published with its exchange and routing key.
\<close>

datatype PaymentStatus = SUCCESS | FAILED

lemma outcome_of_status [simp]: "(if s = SUCCESS then SUCCESS else FAILED) = s"
  by (cases s) simp_all

record PaymentRequestedEvent =
  pr_orderId :: string
  pr_customerId :: string
  pr_total :: js_number

record PaymentResultEvent =
  res_event_orderId :: string
  res_event_paymentId :: "string option"
  res_event_status :: PaymentStatus

record OrderStatusChangedEvent =
  sc_orderId :: string
  sc_customerId :: string
  sc_status :: OrderStatus

datatype message =
    OrderCreated OrderCreatedEvent
  | PaymentRequested PaymentRequestedEvent
  | PaymentResult PaymentResultEvent
  | StatusChanged OrderStatusChangedEvent

record publication =
  to_exchange :: string
  routing_key :: string
  body :: message

definition publication :: "string \<Rightarrow> string \<Rightarrow> message \<Rightarrow> publication" where
  "publication exchange key m = \<lparr>to_exchange = exchange, routing_key = key, body = m\<rparr>"

text \<open>The exchange name that the decorators and the saga write out.\<close>

definition EXCHANGE :: string where
  "EXCHANGE = ''ecommerce.events''"

text \<open>\<open>await amqpConnection.publish(...)\<close>, appended to the log of what was published.\<close>

definition publish :: "exn option \<Rightarrow> publication \<Rightarrow> publication list \<Rightarrow> publication list result" where
  "publish fault p sent = attempt fault (Inr (sent @ [p]))"

lemma publish_simps [simp]:
  "publish None p sent = Inr (sent @ [p])"
  "publish (Some e) p sent = Inl e"
  by (simp_all add: publish_def)

text \<open>A publish whose exception is caught and logged.\<close>

definition publish_quietly :: "exn option \<Rightarrow> publication \<Rightarrow> publication list \<Rightarrow> publication list" where
  "publish_quietly fault p sent = (case publish fault p sent of Inl _ \<Rightarrow> sent | Inr sent' \<Rightarrow> sent')"

lemma publish_quietly_simps [simp]:
  "publish_quietly None p sent = sent @ [p]"
  "publish_quietly (Some e) p sent = sent"
  by (simp_all add: publish_quietly_def)

lemma set_publish_quietly:
  "q \<in> set (publish_quietly fault p sent) \<longleftrightarrow> q \<in> set sent \<or> (fault = None \<and> q = p)"
  by (cases fault) auto

end
