(* ===== verification/Saga.thy ===== *)
theory Saga
  imports Messages Inventory_Concurrency
begin

text \<open>
  The saga orchestrator (\<open>order-service/src/saga/saga-orchestrator.service.ts\<close>): it reserves the
  items of a created order, asks for the payment, and confirms or releases the reservation when
  the payment's result comes in. The inventory is behind an RPC and a circuit breaker; the saga is
  written over any \<open>fire\<close> that may answer or throw and may change the world. The locale
  \<open>inventory_port\<close> is what the saga relies on; it is interpreted on the inventory model.
\<close>

section \<open>Data\<close>

datatype inventory_routing = InventoryReserve | InventoryConfirm | InventoryRelease

record InventoryRpcRequest =
  rpc_routing :: inventory_routing
  rpc_orderId :: string
  rpc_items :: "OrderItem list"

record saga_faults =
  update_fault :: "exn option"
  order_find_fault :: "exn option"
  status_publish_fault :: "exn option"
  payment_publish_fault :: "exn option"

definition no_saga_faults :: saga_faults where
  "no_saga_faults = \<lparr>update_fault = None, order_find_fault = None, status_publish_fault = None,
     payment_publish_fault = None\<rparr>"

record 'w saga_state =
  order_db :: OrderDB
  saga_sent :: "publication list"
  world :: 'w

type_synonym 'w inventory_rpc = "InventoryRpcRequest \<Rightarrow> 'w \<Rightarrow> RpcResult result \<times> 'w"

abbreviation findOrder :: "string \<Rightarrow> OrderDB \<Rightarrow> Order option" where
  "findOrder oid db \<equiv> find_row order_id oid (orders db)"

section \<open>The status of an order\<close>

text \<open>\<open>orderRepository.update({ id }, { status })\<close>\<close>

definition update_status :: "string \<Rightarrow> OrderStatus \<Rightarrow> OrderDB \<Rightarrow> OrderDB" where
  "update_status oid status db =
     db\<lparr>orders := update_rows order_id oid (\<lambda>order. order\<lparr>order_status := status\<rparr>) (orders db)\<rparr>"

definition status_message :: "string \<Rightarrow> string \<Rightarrow> OrderStatus \<Rightarrow> publication" where
  "status_message oid customerId status = publication EXCHANGE ''order.status-changed''
     (StatusChanged \<lparr>sc_orderId = oid, sc_customerId = customerId, sc_status = status\<rparr>)"

definition publishStatusChanged :: "saga_faults \<Rightarrow> string \<Rightarrow> OrderStatus \<Rightarrow> 'w saga_state \<Rightarrow> 'w saga_state" where
  "publishStatusChanged faults oid status s =
     (case attempt (order_find_fault faults) (Inr (findOrder oid (order_db s))) of
        Inl _ \<Rightarrow> s
      | Inr None \<Rightarrow> s
      | Inr (Some order) \<Rightarrow> s\<lparr>saga_sent := publish_quietly (status_publish_fault faults)
          (status_message oid (order_customerId order) status) (saga_sent s)\<rparr>)"

definition setStatus :: "saga_faults \<Rightarrow> string \<Rightarrow> OrderStatus \<Rightarrow> 'w saga_state \<Rightarrow> 'w saga_state" where
  "setStatus faults oid status s =
     (case attempt (update_fault faults) (Inr (update_status oid status (order_db s))) of
        Inl _ \<Rightarrow> s
      | Inr db \<Rightarrow> (let s' = s\<lparr>order_db := db\<rparr> in
          if status = COMPLETED \<or> status = CANCELLED then publishStatusChanged faults oid status s' else s'))"

section \<open>The handlers\<close>

definition reserve_request :: "OrderCreatedEvent \<Rightarrow> InventoryRpcRequest" where
  "reserve_request event =
     \<lparr>rpc_routing = InventoryReserve, rpc_orderId = ev_orderId event, rpc_items = ev_items event\<rparr>"

definition payment_request :: "OrderCreatedEvent \<Rightarrow> publication" where
  "payment_request event = publication EXCHANGE ''payment.requested''
     (PaymentRequested \<lparr>pr_orderId = ev_orderId event, pr_customerId = ev_customerId event, pr_total = ev_total event\<rparr>)"

definition handleOrderCreated :: "'w inventory_rpc \<Rightarrow> saga_faults \<Rightarrow> OrderCreatedEvent \<Rightarrow>
    'w saga_state \<Rightarrow> 'w saga_state" where
  "handleOrderCreated fire faults event s =
     (case fire (reserve_request event) (world s) of
        (Inl _, w) \<Rightarrow> setStatus faults (ev_orderId event) CANCELLED (s\<lparr>world := w\<rparr>)
      | (Inr reserveResult, w) \<Rightarrow>
          (if \<not> success reserveResult
           then setStatus faults (ev_orderId event) CANCELLED (s\<lparr>world := w\<rparr>)
           else let s1 = setStatus faults (ev_orderId event) INVENTORY_RESERVED (s\<lparr>world := w\<rparr>) in
             s1\<lparr>saga_sent := publish_quietly (payment_publish_fault faults) (payment_request event) (saga_sent s1)\<rparr>))"

definition confirm_request :: "string \<Rightarrow> InventoryRpcRequest" where
  "confirm_request oid = \<lparr>rpc_routing = InventoryConfirm, rpc_orderId = oid, rpc_items = []\<rparr>"

definition release_request :: "string \<Rightarrow> InventoryRpcRequest" where
  "release_request oid = \<lparr>rpc_routing = InventoryRelease, rpc_orderId = oid, rpc_items = []\<rparr>"

definition handlePaymentSucceeded :: "'w inventory_rpc \<Rightarrow> saga_faults \<Rightarrow> PaymentResultEvent \<Rightarrow>
    'w saga_state \<Rightarrow> 'w saga_state" where
  "handlePaymentSucceeded fire faults event s =
     (case fire (confirm_request (res_event_orderId event)) (world s) of
        (Inl _, w) \<Rightarrow> s\<lparr>world := w\<rparr>
      | (Inr result, w) \<Rightarrow>
          (if \<not> success result then s\<lparr>world := w\<rparr>
           else setStatus faults (res_event_orderId event) COMPLETED (s\<lparr>world := w\<rparr>)))"

definition handlePaymentFailed :: "'w inventory_rpc \<Rightarrow> saga_faults \<Rightarrow> PaymentResultEvent \<Rightarrow>
    'w saga_state \<Rightarrow> 'w saga_state" where
  "handlePaymentFailed fire faults event s =
     (case fire (release_request (res_event_orderId event)) (world s) of
        (_, w) \<Rightarrow> setStatus faults (res_event_orderId event) CANCELLED (s\<lparr>world := w\<rparr>))"

section \<open>What a handler does to the orders\<close>

definition status_of :: "string \<Rightarrow> 'w saga_state \<Rightarrow> OrderStatus option" where
  "status_of oid s = map_option order_status (findOrder oid (order_db s))"

lemma update_status_find:
  "findOrder oid' (update_status oid st db) =
     (if oid' = oid then map_option (\<lambda>order. order\<lparr>order_status := st\<rparr>) (findOrder oid db) else findOrder oid' db)"
  by (simp add: update_status_def find_row_update)

lemma setStatus_db:
  "order_db (setStatus faults oid st s) =
     (if update_fault faults = None then update_status oid st (order_db s) else order_db s)"
  by (cases "update_fault faults")
    (auto simp: setStatus_def publishStatusChanged_def Let_def attempt_def split: option.splits sum.splits)

lemma setStatus_world [simp]: "world (setStatus faults oid st s) = world s"
  by (auto simp: setStatus_def publishStatusChanged_def Let_def split: option.splits sum.splits)

lemma setStatus_sent:
  "set (saga_sent (setStatus faults oid st s)) \<subseteq> set (saga_sent s) \<union>
     (if st = COMPLETED \<or> st = CANCELLED then range (\<lambda>c. status_message oid c st) else {})"
  by (auto simp: setStatus_def publishStatusChanged_def Let_def set_publish_quietly
      split: option.splits sum.splits if_splits)

lemma status_of_setStatus:
  "status_of oid' (setStatus faults oid st s) =
     (if oid' = oid \<and> update_fault faults = None then map_option (\<lambda>_. st) (status_of oid s) else status_of oid' s)"
  by (auto simp: status_of_def setStatus_db update_status_find option.map_comp comp_def)

lemma status_of_more [simp]:
  "status_of oid (s\<lparr>saga_sent := l\<rparr>) = status_of oid s"
  "status_of oid (s\<lparr>world := w\<rparr>) = status_of oid s"
  by (simp_all add: status_of_def)

text \<open>A status written without a fault, with its notification.\<close>

lemma setStatus_ok:
  "findOrder oid (order_db s) = Some order \<Longrightarrow> setStatus no_saga_faults oid st s =
     s\<lparr>order_db := update_status oid st (order_db s),
       saga_sent := saga_sent s @ (if st = COMPLETED \<or> st = CANCELLED
         then [status_message oid (order_customerId order) st] else [])\<rparr>"
  by (simp add: setStatus_def publishStatusChanged_def no_saga_faults_def Let_def update_status_find)

section \<open>What the saga relies on\<close>

text \<open>
  The claims the inventory keeps, seen through the RPC: an answer with success means that the
  operation holds, an answer without it that nothing changed, and no call touches the claim of
  another order. Nothing is promised when the call throws.
\<close>

locale inventory_port =
  fixes fire :: "'w inventory_rpc" and claim_of :: "'w \<Rightarrow> string \<Rightarrow> ReservationStatus option"
  assumes reserved: "fire req w = (Inr r, w') \<Longrightarrow> success r \<Longrightarrow> rpc_routing req = InventoryReserve \<Longrightarrow>
      claim_of w' (rpc_orderId req) = Some RESERVED \<or> claim_of w' (rpc_orderId req) = Some CONFIRMED"
    and confirmed: "fire req w = (Inr r, w') \<Longrightarrow> success r \<Longrightarrow> rpc_routing req = InventoryConfirm \<Longrightarrow>
      claim_of w' (rpc_orderId req) = Some CONFIRMED"
    and released: "fire req w = (Inr r, w') \<Longrightarrow> success r \<Longrightarrow> rpc_routing req = InventoryRelease \<Longrightarrow>
      claim_of w' (rpc_orderId req) \<noteq> Some RESERVED"
    and declined: "fire req w = (Inr r, w') \<Longrightarrow> \<not> success r \<Longrightarrow> claim_of w' = claim_of w"
    and others: "fire req w = (a, w') \<Longrightarrow> oid \<noteq> rpc_orderId req \<Longrightarrow> claim_of w' oid = claim_of w oid"
begin

lemma order_created_backed:
  assumes "status_of oid (handleOrderCreated fire faults event s) = Some INVENTORY_RESERVED"
    and "status_of oid s \<noteq> Some INVENTORY_RESERVED"
  shows "claim_of (world (handleOrderCreated fire faults event s)) oid \<in> {Some RESERVED, Some CONFIRMED}"
proof -
  obtain a w where f: "fire (reserve_request event) (world s) = (a, w)" by force
  have oid: "oid = ev_orderId event" and "\<exists>r. a = Inr r \<and> success r"
    using assms f by (auto simp: handleOrderCreated_def status_of_setStatus Let_def split: sum.splits if_splits)
  then show ?thesis
    using f reserved [of "reserve_request event" "world s" _ w]
    by (auto simp: handleOrderCreated_def Let_def reserve_request_def)
qed

lemma completed_backed:
  assumes "status_of oid (handlePaymentSucceeded fire faults event s) = Some COMPLETED"
    and "status_of oid s \<noteq> Some COMPLETED"
  shows "claim_of (world (handlePaymentSucceeded fire faults event s)) oid = Some CONFIRMED"
proof -
  obtain a w where f: "fire (confirm_request (res_event_orderId event)) (world s) = (a, w)" by force
  have oid: "oid = res_event_orderId event" and "\<exists>r. a = Inr r \<and> success r"
    using assms f by (auto simp: handlePaymentSucceeded_def status_of_setStatus split: sum.splits if_splits)
  then show ?thesis
    using f confirmed [of "confirm_request (res_event_orderId event)" "world s" _ w]
    by (auto simp: handlePaymentSucceeded_def confirm_request_def)
qed

lemma failed_released:
  assumes "fire (release_request (res_event_orderId event)) (world s) = (Inr r, w)" and "success r"
  shows "claim_of (world (handlePaymentFailed fire faults event s)) (res_event_orderId event) \<noteq> Some RESERVED"
  using assms released [OF assms] by (simp add: handlePaymentFailed_def release_request_def)

lemma handlers_keep_others:
  "oid \<noteq> ev_orderId event \<Longrightarrow> claim_of (world (handleOrderCreated fire faults event s)) oid = claim_of (world s) oid"
  "oid \<noteq> res_event_orderId r \<Longrightarrow> claim_of (world (handlePaymentSucceeded fire faults r s)) oid = claim_of (world s) oid"
  "oid \<noteq> res_event_orderId r \<Longrightarrow> claim_of (world (handlePaymentFailed fire faults r s)) oid = claim_of (world s) oid"
  using others [of "reserve_request event" "world s" _ _ oid]
    others [of "confirm_request (res_event_orderId r)" "world s" _ _ oid]
    others [of "release_request (res_event_orderId r)" "world s" _ _ oid]
  by (auto simp: handleOrderCreated_def handlePaymentSucceeded_def handlePaymentFailed_def Let_def
      reserve_request_def confirm_request_def release_request_def split: prod.splits sum.splits)

end

section \<open>The inventory behind the RPC\<close>

text \<open>The request as the inventory's handlers read it.\<close>

definition reserved_item :: "OrderItem \<Rightarrow> ReservedItem" where
  "reserved_item item = \<lparr>item_productId = oi_productId item, item_quantity = oi_quantity item\<rparr>"

fun call_of :: "InventoryRpcRequest \<Rightarrow> inventory_call" where
  "call_of req = (case rpc_routing req of
     InventoryReserve \<Rightarrow> ReserveCall \<lparr>req_orderId = rpc_orderId req, req_items = map reserved_item (rpc_items req)\<rparr>
   | InventoryConfirm \<Rightarrow> ConfirmCall (rpc_orderId req)
   | InventoryRelease \<Rightarrow> ReleaseCall (rpc_orderId req))"

text \<open>
  What may become of a call: the breaker is open or the request is lost; the handler runs and its
  answer arrives in time; or it runs (perhaps on a redelivered message) and the caller times out.
\<close>

datatype rpc_delivery = Unsent exn | Answered inventory_faults | Unanswered inventory_faults bool

abbreviation timed_out :: exn where
  "timed_out \<equiv> Error ''Failed to receive response within timeout''"

fun inventory_fire :: "rpc_delivery \<Rightarrow> InventoryDB inventory_rpc" where
  "inventory_fire (Unsent e) req db = (Inl e, db)"
| "inventory_fire (Answered f) req db = (case handle_inventory f False (call_of req) db of
     (Reply r, db') \<Rightarrow> (Inr r, db') | (Nack _, db') \<Rightarrow> (Inl timed_out, db'))"
| "inventory_fire (Unanswered f rd) req db = (Inl timed_out, snd (handle_inventory f rd (call_of req) db))"

definition claim_status :: "InventoryDB \<Rightarrow> string \<Rightarrow> ReservationStatus option" where
  "claim_status db oid = map_option res_status (findReservation oid db)"

lemma statements_keep_reservations:
  "ensureStockExists pid db = Inr db' \<Longrightarrow> reservations db' = reservations db"
  "reserve_update pid n db = Inr (k, db') \<Longrightarrow> reservations db' = reservations db"
  "decrement get put pid n db = Inr db' \<Longrightarrow> reservations db' = reservations db"
  by (auto simp: ensureStockExists_def reserve_update_def decrement_def
      split: option.splits sum.splits if_splits js_number.splits)

lemma reserve_item_keeps_reservations:
  "reserve_item fault item db = Inr db' \<Longrightarrow> reservations db' = reservations db"
  by (auto simp: reserve_item_def Let_def statements_keep_reservations
      dest!: statements_keep_reservations(1) statements_keep_reservations(2) split: sum.splits if_splits)

lemma items_keep_reservations:
  "reserve_items fault items db = Inr (fault', db') \<Longrightarrow> reservations db' = reservations db"
  "confirm_items fault items db = Inr (fault', db') \<Longrightarrow> reservations db' = reservations db"
  "release_items fault items db = Inr (fault', db') \<Longrightarrow> reservations db' = reservations db"
  by (induction items arbitrary: fault db)
    (fastforce dest: reserve_item_keeps_reservations statements_keep_reservations(3) split: sum.splits if_splits)+

lemma claim_status_upd:
  "claim_status (db\<lparr>reservations := update_rows res_orderId oid (\<lambda>r. r\<lparr>res_status := st\<rparr>) rs\<rparr>) oid' =
     (if oid' = oid then map_option (\<lambda>_. st) (find_row res_orderId oid rs)
      else map_option res_status (find_row res_orderId oid' rs))"
  by (simp add: claim_status_def find_row_update option.map_comp comp_def)

lemma not_RELEASED: "st \<noteq> RELEASED \<longleftrightarrow> st = RESERVED \<or> st = CONFIRMED"
  by (cases st) simp_all

text \<open>What each handler does to the claims, whatever fails: nothing, or the one change it is for.\<close>

lemma reserve_claims:
  assumes "reserve f request rd db = (a, db')"
  obtains (reserved) "a = Reply rpc_ok" and "claim_status db (req_orderId request) = None"
      and "claim_status db' = (claim_status db)(req_orderId request \<mapsto> RESERVED)"
  | (kept) "claim_status db' = claim_status db"
      and "\<And>r. a = Reply r \<Longrightarrow> success r \<Longrightarrow> claim_status db (req_orderId request) \<in> {Some RESERVED, Some CONFIRMED}"
proof (cases "rd \<or> lookup_fault f \<noteq> None \<or> findReservation (req_orderId request) db \<noteq> None")
  case True
  then show ?thesis
    using assms kept
    by (cases "lookup_fault f"; cases "findReservation (req_orderId request) db")
      (auto simp: reserve_def claim_status_def not_RELEASED split: if_splits)
next
  case False
  then obtain r where r: "reserve_tx (tx_fault f) request db = (r, db')" and a: "a = Reply r"
    using assms by (auto simp: reserve_def split: prod.splits)
  show ?thesis
  proof (cases "reserve_body (tx_fault f) request db")
    case (Inl e)
    with r have "db' = db" and "\<not> success r"
      by (auto simp: reserve_tx_def split: inventory_exn.splits)
    with a show ?thesis by (intro kept) auto
  next
    case (Inr x)
    with r have ok: "r = rpc_ok" and body: "reserve_body (tx_fault f) request db = Inr ((), db')"
      by (auto simp: reserve_tx_def split: prod.splits)
    then have "reservations db' = reservations db @ [\<lparr>res_orderId = req_orderId request,
        res_items = req_items request, res_status = RESERVED\<rparr>]"
      by (auto simp: reserve_body_def attempt_Inr insert_row_Inr dest!: items_keep_reservations(1) split: sum.splits)
    then have "claim_status db' = (claim_status db)(req_orderId request \<mapsto> RESERVED)"
      using False by (auto simp: claim_status_def fun_eq_iff find_row_append split: option.splits)
    with False ok a show ?thesis by (intro reserved) (simp_all add: claim_status_def)
  qed
qed

lemma settle_body_claims:
  assumes "findReservation oid db = Some r"
  shows "confirm_body k r db = Inr x \<Longrightarrow> claim_status (snd x) = (claim_status db)(oid \<mapsto> CONFIRMED)"
    and "release_body k r db = Inr x \<Longrightarrow> claim_status (snd x) = (claim_status db)(oid \<mapsto> RELEASED)"
  using assms find_row_SomeD [OF assms]
  by (auto simp: confirm_body_def release_body_def save_status_def attempt_Inr fun_eq_iff claim_status_upd
      claim_status_def find_row_update dest!: items_keep_reservations(2,3) split: sum.splits)

lemma confirm_claims:
  assumes "confirm f oid rd db = (a, db')"
  obtains (confirmed) "a = Reply rpc_ok" and "claim_status db oid \<in> {Some RESERVED, Some RELEASED}"
      and "claim_status db' = (claim_status db)(oid \<mapsto> CONFIRMED)"
  | (kept) "claim_status db' = claim_status db"
      and "\<And>r. a = Reply r \<Longrightarrow> success r \<Longrightarrow> claim_status db oid = Some CONFIRMED"
proof (cases "rd \<or> lookup_fault f \<noteq> None \<or> claim_status db oid \<in> {None, Some CONFIRMED}")
  case True
  then show ?thesis
    using assms kept
    by (cases "lookup_fault f"; cases "findReservation oid db") (auto simp: confirm_def claim_status_def split: if_splits)
next
  case False
  then obtain r where r: "findReservation oid db = Some r" "res_status r \<noteq> CONFIRMED"
    by (auto simp: claim_status_def)
  then have run: "(a, db') = apfst Reply (confirm_tx (tx_fault f) r db)"
    using assms False by (auto simp: confirm_def)
  show ?thesis
  proof (cases "confirm_body (tx_fault f) r db")
    case (Inl e)
    with run show ?thesis by (intro kept) (auto simp: confirm_tx_def rpc_of_tx_def)
  next
    case (Inr x)
    with run have "a = Reply rpc_ok" "db' = snd x"
      by (auto simp: confirm_tx_def rpc_of_tx_def split: prod.splits)
    with settle_body_claims(1) [OF r(1) Inr] r show ?thesis
      by (intro confirmed) (cases "res_status r"; simp add: claim_status_def)+
  qed
qed

lemma release_claims:
  assumes "release f oid rd db = (a, db')"
  obtains (released) "a = Reply rpc_ok" and "claim_status db oid = Some RESERVED"
      and "claim_status db' = (claim_status db)(oid \<mapsto> RELEASED)"
  | (kept) "claim_status db' = claim_status db"
      and "\<And>r. a = Reply r \<Longrightarrow> success r \<Longrightarrow> claim_status db oid \<noteq> Some RESERVED"
proof (cases "rd \<or> lookup_fault f \<noteq> None \<or> claim_status db oid \<noteq> Some RESERVED")
  case True
  then show ?thesis
    using assms kept
    by (cases "lookup_fault f"; cases "findReservation oid db") (auto simp: release_def claim_status_def split: if_splits)
next
  case False
  then obtain r where r: "findReservation oid db = Some r" "res_status r = RESERVED"
    by (auto simp: claim_status_def)
  then have run: "(a, db') = apfst Reply (release_tx (tx_fault f) r db)"
    using assms False by (auto simp: release_def)
  show ?thesis
  proof (cases "release_body (tx_fault f) r db")
    case (Inl e)
    with run show ?thesis by (intro kept) (auto simp: release_tx_def rpc_of_tx_def)
  next
    case (Inr x)
    with run have "a = Reply rpc_ok" "db' = snd x"
      by (auto simp: release_tx_def rpc_of_tx_def split: prod.splits)
    with settle_body_claims(2) [OF r(1) Inr] r show ?thesis
      by (intro released) (simp_all add: claim_status_def)
  qed
qed

lemma inventory_fire_reply:
  assumes "inventory_fire d req db = (a, db')"
  obtains (unsent) e where "a = Inl e" and "db' = db"
  | (run) f rd reply where "handle_inventory f rd (call_of req) db = (reply, db')"
      and "\<And>r. a = Inr r \<Longrightarrow> reply = Reply r"
proof (cases d)
  case (Unsent e)
  with assms unsent [of e] show ?thesis by auto
next
  case (Answered f)
  with assms run [of f False "fst (handle_inventory f False (call_of req) db)"] show ?thesis
    by (auto split: prod.splits reply.splits)
next
  case (Unanswered f rd)
  with assms run [of f rd "fst (handle_inventory f rd (call_of req) db)"] show ?thesis
    by (auto simp del: call_of.simps handle_inventory.simps)
qed

interpretation inventory_rpc: inventory_port "inventory_fire d" claim_status for d
proof unfold_locales
  fix req w r w' oid a
  show "claim_status w' (rpc_orderId req) = Some RESERVED \<or> claim_status w' (rpc_orderId req) = Some CONFIRMED"
    if "inventory_fire d req w = (Inr r, w')" "success r" "rpc_routing req = InventoryReserve"
    using that(2,3) by (cases rule: inventory_fire_reply [OF that(1)])
      (auto elim!: reserve_claims)
  show "claim_status w' (rpc_orderId req) = Some CONFIRMED"
    if "inventory_fire d req w = (Inr r, w')" "success r" "rpc_routing req = InventoryConfirm"
    using that(2,3) by (cases rule: inventory_fire_reply [OF that(1)]) (auto elim!: confirm_claims)
  show "claim_status w' (rpc_orderId req) \<noteq> Some RESERVED"
    if "inventory_fire d req w = (Inr r, w')" "success r" "rpc_routing req = InventoryRelease"
    using that(2,3) by (cases rule: inventory_fire_reply [OF that(1)]) (auto elim!: release_claims)
  show "claim_status w' = claim_status w"
    if "inventory_fire d req w = (Inr r, w')" "\<not> success r"
    using that(2) by (cases rule: inventory_fire_reply [OF that(1)]; cases "rpc_routing req")
      (auto elim!: reserve_claims confirm_claims release_claims)
  show "claim_status w' oid = claim_status w oid"
    if "inventory_fire d req w = (a, w')" "oid \<noteq> rpc_orderId req"
    using that(2) by (cases rule: inventory_fire_reply [OF that(1)]; cases "rpc_routing req")
      (auto elim!: reserve_claims confirm_claims release_claims)
qed

end
