(* ===== verification/Saga_Props.thy ===== *)
theory Saga_Props
  imports Saga
begin

text \<open>
  The properties of the saga's handlers over the inventory model: what an order's status says
  about the reservation, what each outcome of a call leads to, and what a timeout and a duplicate
  event do.
\<close>

section \<open>Outcomes\<close>

lemma handleOrderCreated_ok:
  assumes "fire (reserve_request event) (world s) = (Inr r, w)" and "success r"
    and "findOrder (ev_orderId event) (order_db s) = Some order"
  shows "handleOrderCreated fire no_saga_faults event s =
    s\<lparr>order_db := update_status (ev_orderId event) INVENTORY_RESERVED (order_db s),
      saga_sent := saga_sent s @ [payment_request event], world := w\<rparr>"
  using assms setStatus_ok [of "ev_orderId event" "s\<lparr>world := w\<rparr>" order INVENTORY_RESERVED]
  by (simp add: handleOrderCreated_def Let_def no_saga_faults_def)

lemma handleOrderCreated_refused:
  assumes "fire (reserve_request event) (world s) = (a, w)" and "\<forall>r. a = Inr r \<longrightarrow> \<not> success r"
    and "findOrder (ev_orderId event) (order_db s) = Some order"
  shows "handleOrderCreated fire no_saga_faults event s =
    s\<lparr>order_db := update_status (ev_orderId event) CANCELLED (order_db s),
      saga_sent := saga_sent s @ [status_message (ev_orderId event) (order_customerId order) CANCELLED], world := w\<rparr>"
  using assms setStatus_ok [of "ev_orderId event" "s\<lparr>world := w\<rparr>" order CANCELLED]
  by (auto simp: handleOrderCreated_def split: sum.splits)

lemma handlePaymentSucceeded_ok:
  assumes "fire (confirm_request (res_event_orderId event)) (world s) = (Inr r, w)" and "success r"
    and "findOrder (res_event_orderId event) (order_db s) = Some order"
  shows "handlePaymentSucceeded fire no_saga_faults event s =
    s\<lparr>order_db := update_status (res_event_orderId event) COMPLETED (order_db s),
      saga_sent := saga_sent s @ [status_message (res_event_orderId event) (order_customerId order) COMPLETED], world := w\<rparr>"
  using assms setStatus_ok [of "res_event_orderId event" "s\<lparr>world := w\<rparr>" order COMPLETED]
  by (simp add: handlePaymentSucceeded_def)

lemma handlePaymentFailed_ok:
  assumes "fire (release_request (res_event_orderId event)) (world s) = (a, w)"
    and "findOrder (res_event_orderId event) (order_db s) = Some order"
  shows "handlePaymentFailed fire no_saga_faults event s =
    s\<lparr>order_db := update_status (res_event_orderId event) CANCELLED (order_db s),
      saga_sent := saga_sent s @ [status_message (res_event_orderId event) (order_customerId order) CANCELLED], world := w\<rparr>"
  using assms setStatus_ok [of "res_event_orderId event" "s\<lparr>world := w\<rparr>" order CANCELLED]
  by (simp add: handlePaymentFailed_def)

section \<open>A small shop\<close>

definition tea_ordered :: "OrderStatus \<Rightarrow> Order" where
  "tea_ordered st = \<lparr>order_id = ''o1'', order_customerId = ''c1'',
     order_items = [\<lparr>oi_productId = ''scarce'', oi_quantity = js_int 2, oi_price = Some (js_int 3)\<rparr>],
     order_total = js_int 6, order_status = st, order_createdAt = ''2025-01-01T00:00:00.000Z''\<rparr>"

definition shop_with :: "OrderStatus \<Rightarrow> InventoryDB \<Rightarrow> InventoryDB saga_state" where
  "shop_with st db = \<lparr>order_db = \<lparr>orders = [tea_ordered st], outbox_events = [outbox_of ''e1'' (tea_ordered PENDING)]\<rparr>,
     saga_sent = [], world = db\<rparr>"

abbreviation tea_event :: OrderCreatedEvent where
  "tea_event \<equiv> event_of (tea_ordered PENDING)"

definition tea_result :: "PaymentStatus \<Rightarrow> PaymentResultEvent" where
  "tea_result st = \<lparr>res_event_orderId = ''o1'', res_event_paymentId = Some ''p1'', res_event_status = st\<rparr>"

section \<open>Properties\<close>

text \<open>The saga never claims more than the inventory holds: whenever handling a payment result
  makes an order COMPLETED, the inventory has its reservation CONFIRMED, whether or not the call was
  answered, whichever statements failed, and whatever state the inventory was in.\<close>
theorem completed_only_when_confirmed:
  assumes "status_of oid (handlePaymentSucceeded (inventory_fire d) faults event s) = Some COMPLETED"
    and "status_of oid s \<noteq> Some COMPLETED"
  shows "claim_status (world (handlePaymentSucceeded (inventory_fire d) faults event s)) oid = Some CONFIRMED"
  using assms by (rule inventory_rpc.completed_backed)

theorem completed_only_when_confirmed_witness:
  "claim_status (world (handlePaymentSucceeded (inventory_fire (Answered no_faults)) no_saga_faults (tea_result SUCCESS)
     (shop_with INVENTORY_RESERVED (stock_with RESERVED)))) ''o1'' = Some CONFIRMED"
proof (rule completed_only_when_confirmed)
  show "status_of ''o1'' (handlePaymentSucceeded (inventory_fire (Answered no_faults)) no_saga_faults (tea_result SUCCESS)
      (shop_with INVENTORY_RESERVED (stock_with RESERVED))) = Some COMPLETED"
    by code_simp
  show "status_of ''o1'' (shop_with INVENTORY_RESERVED (stock_with RESERVED)) \<noteq> Some COMPLETED"
    by code_simp
qed

text \<open>C14: Handling \<open>order.created\<close> for a stored order, when the database and the publishes work:
  if the inventory reserves, the order becomes INVENTORY_RESERVED and exactly one payment request
  with the event's total is published; in every other case (declined, breaker open, timeout) it
  becomes CANCELLED, the customer's notification is published and no payment is requested.\<close>
theorem order_created_outcome:
  assumes "findOrder (ev_orderId event) (order_db s) = Some order"
    and "fire (reserve_request event) (world s) = (a, w)"
  shows "handleOrderCreated fire no_saga_faults event s =
    (if (case a of Inr r \<Rightarrow> success r | Inl _ \<Rightarrow> False)
     then s\<lparr>order_db := update_status (ev_orderId event) INVENTORY_RESERVED (order_db s),
        saga_sent := saga_sent s @ [payment_request event], world := w\<rparr>
     else s\<lparr>order_db := update_status (ev_orderId event) CANCELLED (order_db s),
        saga_sent := saga_sent s @ [status_message (ev_orderId event) (order_customerId order) CANCELLED], world := w\<rparr>)"
  using handleOrderCreated_ok [of fire event s _ w order] handleOrderCreated_refused [of fire event s a w order] assms
  by (cases a) auto

theorem order_created_outcome_witness:
  "order_db (handleOrderCreated (\<lambda>_ db. (Inl timed_out, db)) no_saga_faults tea_event (shop_with PENDING stock_of_5))
     = order_db (shop_with CANCELLED stock_of_5)"
proof -
  have "findOrder (ev_orderId tea_event) (order_db (shop_with PENDING stock_of_5)) = Some (tea_ordered PENDING)"
    by (simp add: event_of_def shop_with_def tea_ordered_def)
  from order_created_outcome [OF this, of "\<lambda>_ db. (Inl timed_out, db)"] show ?thesis
    by (simp add: event_of_def shop_with_def tea_ordered_def update_status_def update_rows_def outbox_of_def)
qed

text \<open>A handler for one order leaves every other order alone: its status, and the inventory's
  claim for it, whatever fails.\<close>
theorem handlers_touch_one_order:
  assumes "oid \<noteq> ev_orderId event" and "oid \<noteq> res_event_orderId r"
  shows "list_all (\<lambda>s'. status_of oid s' = status_of oid s \<and> claim_status (world s') oid = claim_status (world s) oid)
    [handleOrderCreated (inventory_fire d) faults event s,
     handlePaymentSucceeded (inventory_fire d) faults r s,
     handlePaymentFailed (inventory_fire d) faults r s]"
  using assms inventory_rpc.handlers_keep_others [of oid]
  by (auto simp: handleOrderCreated_def handlePaymentSucceeded_def handlePaymentFailed_def Let_def
      status_of_setStatus split: prod.splits sum.splits)

theorem handlers_touch_one_order_witness:
  "status_of ''o2'' (handlePaymentFailed (inventory_fire (Unsent timed_out)) no_saga_faults (tea_result FAILED)
     (shop_with INVENTORY_RESERVED (stock_with RESERVED))) = None"
proof -
  have "''o2'' \<noteq> ev_orderId tea_event" and "''o2'' \<noteq> res_event_orderId (tea_result FAILED)"
    by (simp_all add: event_of_def tea_ordered_def tea_result_def)
  from handlers_touch_one_order [OF this, of "shop_with INVENTORY_RESERVED (stock_with RESERVED)" "Unsent timed_out" no_saga_faults]
  show ?thesis by (simp add: status_of_def shop_with_def tea_ordered_def)
qed

text \<open>A reserve that is carried out but answered too late leaks its stock: the saga cancels the
  order without releasing, the two pieces stay reserved for the cancelled order, and since no payment
  was requested no result will ever release them.\<close>
theorem timed_out_reserve_leaks_stock:
  "let s = handleOrderCreated (inventory_fire (Unanswered no_faults False)) no_saga_faults tea_event
      (shop_with PENDING stock_of_5) in
   status_of ''o1'' s = Some CANCELLED \<and> claim_status (world s) ''o1'' = Some RESERVED \<and>
   resv ''scarce'' (world s) = 2 \<and> map routing_key (saga_sent s) = [''order.status-changed'']"
  by code_simp

text \<open>The saga does not check where an order is: when \<open>order.created\<close> is delivered a second time
  after the order was completed, the reserve call succeeds (the reservation is confirmed) and the
  order goes back from COMPLETED to INVENTORY_RESERVED.\<close>
theorem duplicate_event_reopens_completed_order:
  "let s0 = shop_with PENDING stock_of_5; call = inventory_fire (Answered no_faults);
       s1 = handleOrderCreated call no_saga_faults tea_event s0;
       s2 = handlePaymentSucceeded call no_saga_faults (tea_result SUCCESS) s1;
       s3 = handleOrderCreated call no_saga_faults tea_event s2 in
   status_of ''o1'' s2 = Some COMPLETED \<and> status_of ''o1'' s3 = Some INVENTORY_RESERVED"
  by code_simp

end
