(* ===== verification/Payment.thy ===== *)
theory Payment
  imports Messages
begin

text \<open>
  The payment service (\<open>payment-service/src/payment/payment.service.ts\<close>): one charge per order,
  transient gateway failures sent to staged retry queues (\<open>rabbitmq/rabbitmq.module.ts\<close>), and
  the result published for the saga. The circuit breaker around the gateway is the argument
  \<open>fire\<close>; dead-lettering is the broker's work and an argument of the retry analysis.
\<close>

section \<open>Data\<close>

record Payment =
  payment_id :: string
  payment_orderId :: string
  payment_customerId :: string
  payment_amount :: js_number
  payment_status :: PaymentStatus

text \<open>An entry of the \<open>x-death\<close> header: the queue the message died in, and how often.\<close>

type_synonym x_death = "(string \<times> nat) list"

record payment_faults =
  find_fault :: "exn option"
  save_fault :: "exn option"
  retry_publish_fault :: "exn option"
  dlq_publish_fault :: "exn option"
  result_publish_fault :: "exn option"

definition no_payment_faults :: payment_faults where
  "no_payment_faults = \<lparr>find_fault = None, save_fault = None, retry_publish_fault = None,
     dlq_publish_fault = None, result_publish_fault = None\<rparr>"

record payment_state =
  payments :: "Payment list"
  published :: "publication list"

definition MAX_RETRIES :: nat where
  "MAX_RETRIES = 3"

section \<open>Exchanges and queues\<close>

definition payment_exchange :: "string option \<Rightarrow> string" where
  "payment_exchange env = config_string env ''ecommerce.events''"

definition retryExchange :: "string option \<Rightarrow> string" where
  "retryExchange env = payment_exchange env @ ''.retry''"

definition dlqExchange :: "string option \<Rightarrow> string" where
  "dlqExchange env = payment_exchange env @ ''.dlq''"

record queue =
  queue_name :: string
  bound_exchange :: string
  bound_key :: string
  message_ttl :: "nat option"
  dead_letter_to :: "(string \<times> string) option"

definition payment_queues :: "string option \<Rightarrow> queue list" where
  "payment_queues env =
    [\<lparr>queue_name = ''payment.requested-queue.retry-1'', bound_exchange = retryExchange env,
       bound_key = ''payment.requested.retry-1'', message_ttl = Some 2000,
       dead_letter_to = Some (payment_exchange env, ''payment.requested'')\<rparr>,
     \<lparr>queue_name = ''payment.requested-queue.retry-2'', bound_exchange = retryExchange env,
       bound_key = ''payment.requested.retry-2'', message_ttl = Some 5000,
       dead_letter_to = Some (payment_exchange env, ''payment.requested'')\<rparr>,
     \<lparr>queue_name = ''payment.requested-queue.retry-3'', bound_exchange = retryExchange env,
       bound_key = ''payment.requested.retry-3'', message_ttl = Some 12000,
       dead_letter_to = Some (payment_exchange env, ''payment.requested'')\<rparr>,
     \<lparr>queue_name = ''payment.requested-queue.dlq'', bound_exchange = dlqExchange env,
       bound_key = ''payment.requested'', message_ttl = None, dead_letter_to = None\<rparr>]"

section \<open>The gateway\<close>

text \<open>\<open>callPaymentGateway\<close> with its two draws of \<open>Math.random()\<close>.\<close>

definition callPaymentGateway :: "js_number \<Rightarrow> js_number \<times> js_number \<Rightarrow> js_number \<Rightarrow> PaymentStatus result" where
  "callPaymentGateway transientFailureRate draws amount =
     (if js_lt (fst draws) transientFailureRate
      then Inl (Error ''Simulated transient payment gateway failure'')
      else Inr (if js_lt (snd draws) (round_double (85 / 100)) then SUCCESS else FAILED))"

section \<open>Processing a request\<close>

definition publishResult :: "string option \<Rightarrow> exn option \<Rightarrow> string \<Rightarrow> PaymentStatus \<Rightarrow> string option \<Rightarrow>
    payment_state \<Rightarrow> payment_state" where
  "publishResult env fault orderId status paymentId s =
     (let routingKey = (if status = SUCCESS then ''payment.succeeded'' else ''payment.failed'');
          resultEvent = \<lparr>res_event_orderId = orderId, res_event_paymentId = paymentId, res_event_status = status\<rparr>
      in s\<lparr>published := publish_quietly fault
            (publication (payment_exchange env) routingKey (PaymentResult resultEvent)) (published s)\<rparr>)"

definition retry_count :: "x_death option \<Rightarrow> nat" where
  "retry_count headers = (case headers of Some ((_, n) # _) \<Rightarrow> n | _ \<Rightarrow> 0)"

definition retry_key :: "nat \<Rightarrow> string" where
  "retry_key retryCount = ''payment.requested.retry-'' @ string_of_nat (retryCount + 1)"

text \<open>The part after the lookup that found no payment: give up, or ask the gateway and then
  either schedule a retry or store and publish the result. An \<open>Inl\<close> is an exception that leaves
  the handler.\<close>

definition charge :: "string option \<Rightarrow> payment_faults \<Rightarrow> (js_number \<Rightarrow> PaymentStatus result) \<Rightarrow> string \<Rightarrow>
    PaymentRequestedEvent \<Rightarrow> x_death option \<Rightarrow> payment_state \<Rightarrow> unit result \<times> payment_state" where
  "charge env faults fire pid event headers s =
     (let retryCount = retry_count headers in
      if MAX_RETRIES \<le> retryCount
      then (case publish (dlq_publish_fault faults)
              (publication (dlqExchange env) ''payment.requested'' (PaymentRequested event)) (published s) of
          Inl e \<Rightarrow> (Inl e, s)
        | Inr sent \<Rightarrow> (Inr (), publishResult env (result_publish_fault faults) (pr_orderId event) FAILED None
            (s\<lparr>published := sent\<rparr>)))
      else (case fire (pr_total event) of
          Inl _ \<Rightarrow> (case publish (retry_publish_fault faults)
              (publication (retryExchange env) (retry_key retryCount) (PaymentRequested event)) (published s) of
            Inl e \<Rightarrow> (Inl e, s)
          | Inr sent \<Rightarrow> (Inr (), s\<lparr>published := sent\<rparr>))
        | Inr status \<Rightarrow>
            (let payment = \<lparr>payment_id = pid, payment_orderId = pr_orderId event,
                payment_customerId = pr_customerId event, payment_amount = pr_total event,
                payment_status = status\<rparr> in
             case attempt (save_fault faults) (append_row payment (payments s)) of
               Inl e \<Rightarrow> (Inl e, s)
             | Inr rows \<Rightarrow> (Inr (), publishResult env (result_publish_fault faults) (pr_orderId event)
                 (if status = SUCCESS then SUCCESS else FAILED) (Some pid) (s\<lparr>payments := rows\<rparr>)))))"

definition find_payment :: "exn option \<Rightarrow> string \<Rightarrow> payment_state \<Rightarrow> Payment option result" where
  "find_payment fault orderId s = attempt fault (Inr (find_row payment_orderId orderId (payments s)))"

definition processPaymentRequested :: "string option \<Rightarrow> payment_faults \<Rightarrow> (js_number \<Rightarrow> PaymentStatus result) \<Rightarrow>
    string \<Rightarrow> PaymentRequestedEvent \<Rightarrow> x_death option \<Rightarrow> payment_state \<Rightarrow> unit result \<times> payment_state" where
  "processPaymentRequested env faults fire pid event headers s =
     (case find_payment (find_fault faults) (pr_orderId event) s of
        Inl e \<Rightarrow> (Inl e, s)
      | Inr (Some _) \<Rightarrow> (Inr (), s)
      | Inr None \<Rightarrow> charge env faults fire pid event headers s)"

text \<open>The span around it ends whether or not the inner call throws, and the outcome is that call's.\<close>

definition handlePaymentRequested :: "string option \<Rightarrow> payment_faults \<Rightarrow> (js_number \<Rightarrow> PaymentStatus result) \<Rightarrow>
    string \<Rightarrow> PaymentRequestedEvent \<Rightarrow> x_death option \<Rightarrow> payment_state \<Rightarrow> unit result \<times> payment_state" where
  "handlePaymentRequested env faults fire pid event headers s =
     processPaymentRequested env faults fire pid event headers s"

section \<open>The payment table\<close>

text \<open>There is no unique constraint on the order: the table is a plain store.\<close>

interpretation payment_table: row_store payment_orderId "find_row payment_orderId" append_row
  by (rule plain_table_store)

definition payment_inv :: "payment_state \<Rightarrow> bool" where
  "payment_inv s \<longleftrightarrow> distinct (map payment_orderId (payments s))"

definition payment_row :: "string \<Rightarrow> PaymentRequestedEvent \<Rightarrow> PaymentStatus \<Rightarrow> Payment" where
  "payment_row pid event status = \<lparr>payment_id = pid, payment_orderId = pr_orderId event,
     payment_customerId = pr_customerId event, payment_amount = pr_total event, payment_status = status\<rparr>"

definition result_message :: "string option \<Rightarrow> string \<Rightarrow> PaymentStatus \<Rightarrow> string option \<Rightarrow> publication" where
  "result_message env oid status pid = publication (payment_exchange env)
     (if status = SUCCESS then ''payment.succeeded'' else ''payment.failed'')
     (PaymentResult \<lparr>res_event_orderId = oid, res_event_paymentId = pid, res_event_status = status\<rparr>)"

text \<open>What a request can do to the payments and the log, whatever fails.\<close>

definition quiet_or :: "publication list \<Rightarrow> publication \<Rightarrow> publication list \<Rightarrow> bool" where
  "quiet_or sent p sent' \<longleftrightarrow> sent' = sent \<or> sent' = sent @ [p]"

lemma publishResult_effect:
  "payments (publishResult env fault oid status pid s) = payments s"
  "published (publishResult env fault oid status pid s) =
     publish_quietly fault (result_message env oid status pid) (published s)"
  by (simp_all add: publishResult_def result_message_def Let_def)

end
