(* ===== verification/Payment_Props.thy ===== *)
theory Payment_Props
  imports Payment
begin

text \<open>
  The properties of the payment service: one payment per order, results backed by payments,
  what an exception leaves behind, and where the retry queues send a message.
\<close>

section \<open>What a request does\<close>

text \<open>The four ways a request can end, seen on the payments and the published messages.\<close>

datatype charge_end = Untouched | GaveUp | Retried | Charged PaymentStatus

fun end_state :: "string option \<Rightarrow> exn option \<Rightarrow> string \<Rightarrow> PaymentRequestedEvent \<Rightarrow> x_death option \<Rightarrow>
    charge_end \<Rightarrow> payment_state \<Rightarrow> payment_state" where
  "end_state env fault pid event headers Untouched s = s"
| "end_state env fault pid event headers GaveUp s =
     publishResult env fault (pr_orderId event) FAILED None
       (s\<lparr>published := published s @
          [publication (dlqExchange env) ''payment.requested'' (PaymentRequested event)]\<rparr>)"
| "end_state env fault pid event headers Retried s = s\<lparr>published := published s @
     [publication (retryExchange env) (retry_key (retry_count headers)) (PaymentRequested event)]\<rparr>"
| "end_state env fault pid event headers (Charged status) s =
     publishResult env fault (pr_orderId event) status (Some pid)
       (s\<lparr>payments := payments s @ [payment_row pid event status]\<rparr>)"

lemma handlePaymentRequested_ends:
  obtains (thrown) e where "handlePaymentRequested env faults fire pid event headers s = (Inl e, s)"
  | (ended) ending where "handlePaymentRequested env faults fire pid event headers s =
        (Inr (), end_state env (result_publish_fault faults) pid event headers ending s)"
    and "ending \<noteq> Untouched \<Longrightarrow> find_row payment_orderId (pr_orderId event) (payments s) = None"
    and "ending = GaveUp \<longleftrightarrow> ending \<noteq> Untouched \<and> MAX_RETRIES \<le> retry_count headers"
    and "\<And>status. ending = Charged status \<Longrightarrow> fire (pr_total event) = Inr status"
proof (cases "find_payment (find_fault faults) (pr_orderId event) s")
  case (Inl e)
  with thrown show ?thesis by (simp add: handlePaymentRequested_def processPaymentRequested_def)
next
  case (Inr known)
  show ?thesis
  proof (cases known)
    case (Some p)
    with Inr ended [of Untouched] show ?thesis
      by (simp add: handlePaymentRequested_def processPaymentRequested_def)
  next
    case None
    then have new: "find_row payment_orderId (pr_orderId event) (payments s) = None"
      and run: "handlePaymentRequested env faults fire pid event headers s =
        charge env faults fire pid event headers s"
      using Inr by (simp_all add: handlePaymentRequested_def processPaymentRequested_def find_payment_def attempt_Inr)
    show ?thesis
    proof (cases "MAX_RETRIES \<le> retry_count headers")
      case True
      show ?thesis
      proof (cases "dlq_publish_fault faults")
        case None
        with True show ?thesis using run new by (intro ended [of GaveUp]) (simp_all add: charge_def Let_def)
      next
        case (Some e)
        with True show ?thesis using run by (intro thrown [of e]) (simp add: charge_def Let_def)
      qed
    next
      case False
      show ?thesis
      proof (cases "fire (pr_total event)")
        case failed: (Inl e)
        show ?thesis
        proof (cases "retry_publish_fault faults")
          case None
          with False failed show ?thesis
            using run new by (intro ended [of Retried]) (simp_all add: charge_def Let_def)
        next
          case (Some e')
          with False failed show ?thesis using run by (intro thrown [of e']) (simp add: charge_def Let_def)
        qed
      next
        case answered: (Inr status)
        show ?thesis
        proof (cases "save_fault faults")
          case None
          with False answered show ?thesis using run new
            by (intro ended [of "Charged status"]) (simp_all add: charge_def Let_def append_row_def payment_row_def)
        next
          case (Some e')
          with False answered show ?thesis using run by (intro thrown [of e']) (simp add: charge_def Let_def)
        qed
      qed
    qed
  qed
qed

section \<open>Invariants\<close>

text \<open>Every result that was published for a charge belongs to a stored payment with that outcome;
  a success is never announced without one.\<close>

definition result_backed :: "Payment list \<Rightarrow> PaymentResultEvent \<Rightarrow> bool" where
  "result_backed rows r \<longleftrightarrow>
     (case res_event_paymentId r of
        Some pid \<Rightarrow> \<exists>p \<in> set rows. payment_id p = pid \<and> payment_orderId p = res_event_orderId r \<and>
          payment_status p = res_event_status r
      | None \<Rightarrow> res_event_status r = FAILED)"

definition message_ok :: "Payment list \<Rightarrow> publication \<Rightarrow> bool" where
  "message_ok rows m \<longleftrightarrow> (case body m of
     PaymentResult r \<Rightarrow> result_backed rows r \<and>
       routing_key m = (if res_event_status r = SUCCESS then ''payment.succeeded'' else ''payment.failed'')
   | _ \<Rightarrow> True)"

definition payment_books_inv :: "payment_state \<Rightarrow> bool" where
  "payment_books_inv s \<longleftrightarrow> payment_inv s \<and> (\<forall>m \<in> set (published s). message_ok (payments s) m)"

lemma body_publication [simp]:
  "body (publication x k m) = m" "routing_key (publication x k m) = k" "to_exchange (publication x k m) = x"
  by (simp_all add: publication_def)

lemma message_ok_mono: "message_ok rows m \<Longrightarrow> set rows \<subseteq> set rows' \<Longrightarrow> message_ok rows' m"
  by (fastforce simp: message_ok_def result_backed_def split: option.splits message.splits)

lemma message_ok_result:
  "message_ok rows (result_message env oid FAILED None)"
  "payment_row pid event status \<in> set rows \<Longrightarrow>
     message_ok rows (result_message env (pr_orderId event) status (Some pid))"
  "message_ok rows (publication exchange key (PaymentRequested event))"
  by (auto simp: message_ok_def result_message_def result_backed_def payment_row_def
      split: option.splits intro!: bexI [of _ "payment_row pid event status"])

lemma end_state_inv:
  assumes "payment_books_inv s"
    and "ending \<noteq> Untouched \<Longrightarrow> find_row payment_orderId (pr_orderId event) (payments s) = None"
  shows "payment_books_inv (end_state env fault pid event headers ending s)"
proof (cases ending)
  case (Charged status)
  then have "pr_orderId event \<notin> payment_orderId ` set (payments s)"
    using assms(2) by (simp add: find_row_None_iff)
  moreover have "message_ok (payments s @ [payment_row pid event status]) m" if "m \<in> set (published s)" for m
    using assms(1) that by (auto simp: payment_books_inv_def intro: message_ok_mono)
  ultimately show ?thesis
    using assms(1) Charged message_ok_result(2) [of pid event status "payments s @ [payment_row pid event status]" env]
    by (auto simp: payment_books_inv_def payment_inv_def publishResult_effect set_publish_quietly payment_row_def)
qed (use assms(1) in \<open>auto simp: payment_books_inv_def payment_inv_def publishResult_effect
    set_publish_quietly message_ok_result\<close>)

lemma handlePaymentRequested_inv:
  "payment_books_inv s \<Longrightarrow> payment_books_inv (snd (handlePaymentRequested env faults fire pid event headers s))"
  by (rule handlePaymentRequested_ends [of env faults fire pid event headers s])
    (auto intro: end_state_inv)

definition no_payments :: payment_state where
  "no_payments = \<lparr>payments = [], published = []\<rparr>"

definition a_payment_request :: PaymentRequestedEvent where
  "a_payment_request = \<lparr>pr_orderId = ''o1'', pr_customerId = ''c1'', pr_total = js_int 6\<rparr>"

text \<open>One payment per order: handling a request, however often it is delivered, whatever its
  headers and whichever statement fails, keeps at most one payment for each order, and every result
  it publishes belongs to a stored payment with the announced outcome (or, without a payment id, is
  the failure of a request that was given up), under the routing key of that outcome.\<close>
theorem payment_books_stay_consistent:
  assumes "payment_books_inv s"
  shows "payment_books_inv (snd (handlePaymentRequested env faults fire pid event headers s))"
  using assms by (rule handlePaymentRequested_inv)

theorem payment_books_stay_consistent_witness:
  "payment_books_inv (snd (handlePaymentRequested None no_payment_faults (\<lambda>_. Inr SUCCESS) ''p1''
     a_payment_request None no_payments))"
  by (rule payment_books_stay_consistent) (simp add: payment_books_inv_def payment_inv_def no_payments_def)

text \<open>An exception that leaves the handler (the lookup, the insert, or the publish to a retry
  or dead-letter exchange rejects; none of them is in a \<open>try\<close>) leaves no trace: no payment is stored
  and no message published. A handler that returns adds at most one payment.\<close>
theorem payment_exception_leaves_no_trace:
  "case handlePaymentRequested env faults fire pid event headers s of
     (Inl e, s') \<Rightarrow> s' = s
   | (Inr _, s') \<Rightarrow> payments s' = payments s \<or>
       (\<exists>status. fire (pr_total event) = Inr status \<and> payments s' = payments s @ [payment_row pid event status])"
proof (rule handlePaymentRequested_ends [of env faults fire pid event headers s])
  fix ending
  assume "handlePaymentRequested env faults fire pid event headers s =
      (Inr (), end_state env (result_publish_fault faults) pid event headers ending s)"
    and "\<And>status. ending = Charged status \<Longrightarrow> fire (pr_total event) = Inr status"
  then show ?thesis by (cases ending) (auto simp: publishResult_effect)
qed simp

text \<open>C11: A first request that the gateway answers is charged exactly once with the order's total,
  and the result is published with the payment's id; any later delivery of the request, whatever its
  headers and whatever the gateway would say, does nothing.\<close>
theorem payment_charged_exactly_once:
  assumes "find_row payment_orderId (pr_orderId event) (payments s) = None"
    and "fire (pr_total event) = Inr status" and "retry_count headers < MAX_RETRIES"
  shows "let s1 = snd (handlePaymentRequested env no_payment_faults fire pid event headers s) in
    payments s1 = payments s @ [payment_row pid event status] \<and>
    published s1 = published s @ [result_message env (pr_orderId event) status (Some pid)] \<and>
    handlePaymentRequested env no_payment_faults fire' pid' event headers' s1 = (Inr (), s1)"
  using assms
  by (auto simp: handlePaymentRequested_def processPaymentRequested_def find_payment_def charge_def Let_def
      no_payment_faults_def append_row_def payment_row_def publishResult_effect find_row_append)

theorem payment_charged_exactly_once_witness:
  "let s1 = snd (handlePaymentRequested None no_payment_faults (\<lambda>_. Inr FAILED) ''p1'' a_payment_request None no_payments) in
    map payment_status (payments s1) = [FAILED] \<and> map routing_key (published s1) = [''payment.failed''] \<and>
    snd (handlePaymentRequested None no_payment_faults (\<lambda>_. Inr SUCCESS) ''p2'' a_payment_request None s1) = s1"
  using payment_charged_exactly_once [of a_payment_request no_payments "\<lambda>_. Inr FAILED" FAILED None None "''p1''"
      "\<lambda>_. Inr SUCCESS" "''p2''" None]
  by (simp add: no_payments_def a_payment_request_def retry_count_def MAX_RETRIES_def Let_def payment_row_def
      result_message_def)

text \<open>C22: A result can be lost for good: when the payment is stored and publishing its result fails
  (or the process dies in between), no later delivery of the request publishes it, since the payment
  it finds makes it return at once. The saga then never learns the outcome.\<close>
theorem lost_payment_result_is_never_sent:
  assumes "find_row payment_orderId (pr_orderId event) (payments s) = None"
    and "fire (pr_total event) = Inr status" and "retry_count headers < MAX_RETRIES"
  shows "let s1 = snd (handlePaymentRequested env (no_payment_faults\<lparr>result_publish_fault := Some e\<rparr>)
        fire pid event headers s) in
    payments s1 = payments s @ [payment_row pid event status] \<and> published s1 = published s \<and>
    snd (handlePaymentRequested env faults' fire' pid' event headers' s1) = s1"
  using assms
  by (cases "find_fault faults'")
    (auto simp: handlePaymentRequested_def processPaymentRequested_def find_payment_def charge_def Let_def
      no_payment_faults_def append_row_def payment_row_def publishResult_effect find_row_append)

theorem lost_payment_result_is_never_sent_witness:
  "let s1 = snd (handlePaymentRequested None (no_payment_faults\<lparr>result_publish_fault := Some (Error ''channel closed'')\<rparr>)
        (\<lambda>_. Inr SUCCESS) ''p1'' a_payment_request None no_payments) in
    length (payments s1) = 1 \<and> published s1 = []"
  using lost_payment_result_is_never_sent [of a_payment_request no_payments "\<lambda>_. Inr SUCCESS" SUCCESS None None
      "Error ''channel closed''" "''p1''"]
  by (simp add: no_payments_def a_payment_request_def retry_count_def MAX_RETRIES_def Let_def)

section \<open>Overlapping requests\<close>

text \<open>The check for an earlier payment and the charge are not one step: two deliveries of a
  request that overlap (two replicas, or a prefetch above one) both find no payment and both charge
  the customer, since the table has no unique constraint on the order.\<close>
theorem overlapping_requests_charge_twice:
  "let s0 = no_payments;
       looked = find_payment None ''o1'' s0;
       s1 = snd (charge None no_payment_faults (\<lambda>_. Inr SUCCESS) ''p1'' a_payment_request None s0);
       s2 = snd (charge None no_payment_faults (\<lambda>_. Inr SUCCESS) ''p2'' a_payment_request None s1) in
   looked = Inr None \<and> map payment_orderId (payments s2) = [''o1'', ''o1''] \<and>
   map payment_status (payments s2) = [SUCCESS, SUCCESS]"
  by (simp add: no_payments_def a_payment_request_def find_payment_def charge_def Let_def no_payment_faults_def
      append_row_def publishResult_def retry_count_def MAX_RETRIES_def)

section \<open>Retries\<close>

definition route :: "string option \<Rightarrow> string \<Rightarrow> string \<Rightarrow> queue option" where
  "route env exchange key = find (\<lambda>q. bound_exchange q = exchange \<and> bound_key q = key) (payment_queues env)"

lemma retry_key_cases:
  "retry_key 0 = ''payment.requested.retry-1''"
  "retry_key (Suc 0) = ''payment.requested.retry-2''"
  "retry_key 2 = ''payment.requested.retry-3''"
  by (simp_all add: retry_key_def string_of_nat.simps)

text \<open>Every retry finds its queue: for each attempt below the limit the routing key the handler
  publishes with is bound to exactly the queue of that stage, with a delay of 2, 5 and 12 seconds,
  and the queue dead-letters back to the key the handler consumes; a request that is given up has a
  queue that keeps it.\<close>
theorem retries_are_staged:
  assumes "retryCount < MAX_RETRIES"
  shows "\<exists>q d. route env (retryExchange env) (retry_key retryCount) = Some q \<and>
      message_ttl q = Some ([2000, 5000, 12000] ! retryCount) \<and>
      dead_letter_to q = Some (payment_exchange env, ''payment.requested'') \<and>
      route env (dlqExchange env) ''payment.requested'' = Some d \<and> message_ttl d = None \<and> dead_letter_to d = None"
proof -
  have "retryCount = 0 \<or> retryCount = Suc 0 \<or> retryCount = 2"
    using assms by (auto simp: MAX_RETRIES_def)
  then show ?thesis
    by (elim disjE) (simp_all add: route_def payment_queues_def retry_key_cases)
qed

theorem retries_are_staged_witness:
  "\<exists>q. route (Some ''shop'') ''shop.retry'' ''payment.requested.retry-3'' = Some q \<and>
     message_ttl q = Some 12000 \<and> dead_letter_to q = Some (''shop'', ''payment.requested'')"
proof -
  have "2 < MAX_RETRIES" by (simp add: MAX_RETRIES_def)
  from retries_are_staged [OF this, of "Some ''shop''"] show ?thesis
    by (auto simp: retry_key_cases retryExchange_def payment_exchange_def config_string_def)
qed

text \<open>The headers of the \<open>n\<close>-th delivery of a request whose charges all fail: the handler publishes
  the event without headers, and the broker adds what it adds when the message dies in the queue.\<close>

fun delivery_headers :: "(string \<Rightarrow> x_death \<Rightarrow> x_death) \<Rightarrow> string option \<Rightarrow> nat \<Rightarrow> x_death option" where
  "delivery_headers dead_letter env 0 = None"
| "delivery_headers dead_letter env (Suc n) =
     (case route env (retryExchange env) (retry_key (retry_count (delivery_headers dead_letter env n))) of
        None \<Rightarrow> None
      | Some q \<Rightarrow> Some (dead_letter (queue_name q) []))"

lemma route_retry:
  "route env (retryExchange env) (retry_key 0) \<noteq> None"
  "route env (retryExchange env) (retry_key (Suc 0)) \<noteq> None"
  by (simp_all add: route_def payment_queues_def retry_key_cases)

text \<open>The retry limit is never reached: RabbitMQ records the first death of a message in a queue
  with count 1 in front of its \<open>x-death\<close> entries, and each retry is a new message without them, so
  the handler reads 0 on the first delivery and 1 on every later one, forever: the message goes round
  the second queue and neither the third queue nor the dead-letter exchange is ever used.\<close>
theorem retry_limit_is_never_reached:
  assumes "\<And>q deaths. q \<notin> fst ` set deaths \<Longrightarrow> dead_letter q deaths = (q, 1) # deaths"
  shows "retry_count (delivery_headers dead_letter env n) = (if n = 0 then 0 else 1) \<and>
    retry_count (delivery_headers dead_letter env n) < MAX_RETRIES"
proof (induction n)
  case (Suc n)
  then have "retry_count (delivery_headers dead_letter env n) = 0 \<or>
      retry_count (delivery_headers dead_letter env n) = Suc 0"
    by (auto split: if_splits)
  then obtain q where "route env (retryExchange env) (retry_key (retry_count (delivery_headers dead_letter env n))) = Some q"
    using route_retry [of env] by auto
  then show ?case using assms by (simp add: retry_count_def MAX_RETRIES_def)
qed (simp add: retry_count_def MAX_RETRIES_def)

definition rabbit_dead_letter :: "string \<Rightarrow> x_death \<Rightarrow> x_death" where
  "rabbit_dead_letter q deaths = (case map_of deaths q of
     None \<Rightarrow> (q, 1) # deaths
   | Some n \<Rightarrow> (q, n + 1) # filter (\<lambda>d. fst d \<noteq> q) deaths)"

theorem retry_limit_is_never_reached_witness:
  "retry_count (delivery_headers rabbit_dead_letter None 100) = 1"
proof -
  have "rabbit_dead_letter q deaths = (q, 1) # deaths" if "q \<notin> fst ` set deaths" for q deaths
    using that by (simp add: rabbit_dead_letter_def map_of_eq_None_iff [THEN iffD2])
  from retry_limit_is_never_reached [OF this, of None 100] show ?thesis by simp
qed

end
