(* ===== verification/System.thy ===== *)
theory System
  imports Saga Payment_Props
begin

text \<open>
  The services together: orders are placed, their events relayed, the saga and the payment service
  exchange messages, and the inventory is called. Messages are delivered at least once and in any
  order: what was published once may be handed to its consumer at any later time, any number of
  times. Any statement, publish or call may fail, a call that timed out may still be carried out
  later, and the gateway may answer anything. Each handler runs without interruption.
\<close>

section \<open>State and steps\<close>

record system =
  saga :: "InventoryDB saga_state"
  paid_rows :: "Payment list"
  rpcs :: "InventoryRpcRequest list"

definition events :: "OrderDB \<Rightarrow> OrderCreatedEvent list" where
  "events db = map payload (outbox_events db)"

definition place_order :: "(string list \<Rightarrow> GetPricesResult result) \<Rightarrow> order_env \<Rightarrow> CreateOrderDto \<Rightarrow> system \<Rightarrow> system" where
  "place_order fire env dto S =
     S\<lparr>saga := (saga S)\<lparr>order_db := snd (createOrder fire env dto (order_db (saga S)))\<rparr>\<rparr>"

definition saga_order_created :: "rpc_delivery \<Rightarrow> saga_faults \<Rightarrow> OrderCreatedEvent \<Rightarrow> system \<Rightarrow> system" where
  "saga_order_created d faults event S =
     S\<lparr>saga := handleOrderCreated (inventory_fire d) faults event (saga S),
       rpcs := reserve_request event # rpcs S\<rparr>"

definition saga_payment_succeeded :: "rpc_delivery \<Rightarrow> saga_faults \<Rightarrow> PaymentResultEvent \<Rightarrow> system \<Rightarrow> system" where
  "saga_payment_succeeded d faults r S =
     S\<lparr>saga := handlePaymentSucceeded (inventory_fire d) faults r (saga S),
       rpcs := confirm_request (res_event_orderId r) # rpcs S\<rparr>"

definition saga_payment_failed :: "rpc_delivery \<Rightarrow> saga_faults \<Rightarrow> PaymentResultEvent \<Rightarrow> system \<Rightarrow> system" where
  "saga_payment_failed d faults r S =
     S\<lparr>saga := handlePaymentFailed (inventory_fire d) faults r (saga S),
       rpcs := release_request (res_event_orderId r) # rpcs S\<rparr>"

definition payment_requested :: "payment_faults \<Rightarrow> (js_number \<Rightarrow> PaymentStatus result) \<Rightarrow> string \<Rightarrow>
    PaymentRequestedEvent \<Rightarrow> x_death option \<Rightarrow> system \<Rightarrow> system" where
  "payment_requested faults fire pid event headers S =
     (case snd (handlePaymentRequested None faults fire pid event headers
         \<lparr>payments = paid_rows S, published = saga_sent (saga S)\<rparr>) of
        s \<Rightarrow> S\<lparr>paid_rows := payments s, saga := (saga S)\<lparr>saga_sent := published s\<rparr>\<rparr>)"

definition late_rpc :: "inventory_faults \<Rightarrow> bool \<Rightarrow> InventoryRpcRequest \<Rightarrow> system \<Rightarrow> system" where
  "late_rpc f rd req S =
     S\<lparr>saga := (saga S)\<lparr>world := snd (handle_inventory f rd (call_of req) (world (saga S)))\<rparr>\<rparr>"

datatype system_event =
    Placed CreateOrderDto
  | OrderCreatedDelivered OrderCreatedEvent
  | PaymentRequestedDelivered PaymentRequestedEvent
  | PaymentSucceededDelivered PaymentResultEvent
  | PaymentFailedDelivered PaymentResultEvent
  | LateRpc InventoryRpcRequest

definition delivered :: "string \<Rightarrow> message \<Rightarrow> system \<Rightarrow> bool" where
  "delivered key m S \<longleftrightarrow> publication EXCHANGE key m \<in> set (saga_sent (saga S))"

inductive system_step :: "system \<Rightarrow> system_event \<Rightarrow> system \<Rightarrow> bool" where
  placed: "system_step S (Placed dto) (place_order fire env dto S)"
| order_created: "event \<in> set (events (order_db (saga S))) \<Longrightarrow>
    system_step S (OrderCreatedDelivered event) (saga_order_created d sf event S)"
| payment_due: "delivered ''payment.requested'' (PaymentRequested ev) S \<Longrightarrow> retry_count headers < MAX_RETRIES \<Longrightarrow>
    system_step S (PaymentRequestedDelivered ev) (payment_requested pf gateway pid ev headers S)"
| payment_succeeded: "delivered ''payment.succeeded'' (PaymentResult r) S \<Longrightarrow>
    system_step S (PaymentSucceededDelivered r) (saga_payment_succeeded d sf r S)"
| payment_failed: "delivered ''payment.failed'' (PaymentResult r) S \<Longrightarrow>
    system_step S (PaymentFailedDelivered r) (saga_payment_failed d sf r S)"
| late: "req \<in> set (rpcs S) \<Longrightarrow> system_step S (LateRpc req) (late_rpc f rd req S)"

inductive_cases system_stepE: "system_step S e T"

definition system_start :: "system \<Rightarrow> bool" where
  "system_start S \<longleftrightarrow> inventory_start (world (saga S)) \<and> order_db (saga S) = no_orders \<and>
     saga_sent (saga S) = [] \<and> paid_rows S = [] \<and> rpcs S = []"

section \<open>The invariant of the stock\<close>

definition paid :: "Payment list \<Rightarrow> string \<Rightarrow> PaymentStatus \<Rightarrow> bool" where
  "paid ps oid status \<longleftrightarrow> (\<exists>p \<in> set ps. payment_orderId p = oid \<and> payment_status p = status)"

lemma paid_once: "distinct (map payment_orderId ps) \<Longrightarrow> paid ps oid SUCCESS \<Longrightarrow> \<not> paid ps oid FAILED"
  by (metis PaymentStatus.distinct(1) eq_key_imp_eq_value paid_def find_row_member option.inject)

text \<open>The calls the saga may make, by what has happened.\<close>

definition allowed :: "OrderCreatedEvent list \<Rightarrow> Payment list \<Rightarrow> InventoryRpcRequest \<Rightarrow> bool" where
  "allowed evs ps req = (case rpc_routing req of
     InventoryReserve \<Rightarrow> (\<exists>ev \<in> set evs. rpc_orderId req = ev_orderId ev \<and> rpc_items req = ev_items ev)
   | InventoryConfirm \<Rightarrow> paid ps (rpc_orderId req) SUCCESS
   | InventoryRelease \<Rightarrow> paid ps (rpc_orderId req) FAILED)"

text \<open>What justifies a claim: an event with its items, and a payment once it is settled.\<close>

definition justified :: "OrderCreatedEvent list \<Rightarrow> Payment list \<Rightarrow> string \<Rightarrow> ReservationStatus \<Rightarrow>
    ReservedItem list \<Rightarrow> bool" where
  "justified evs ps oid st items \<longleftrightarrow> (st = CONFIRMED \<longrightarrow> paid ps oid SUCCESS) \<and> (st = RELEASED \<longrightarrow> paid ps oid FAILED) \<and>
     (\<exists>ev \<in> set evs. ev_orderId ev = oid \<and> items = map reserved_item (ev_items ev))"

definition stock_books :: "OrderCreatedEvent list \<Rightarrow> Payment list \<Rightarrow> InventoryDB \<Rightarrow> bool" where
  "stock_books evs ps db \<longleftrightarrow> inventory_inv db \<and>
     (\<forall>oid st items. claim (ledger_of db) oid = Some (st, items) \<longrightarrow> justified evs ps oid st items)"

lemma paid_mono: "paid ps oid st \<Longrightarrow> set ps \<subseteq> set ps' \<Longrightarrow> paid ps' oid st"
  by (auto simp: paid_def)

lemma allowed_mono: "allowed evs ps req \<Longrightarrow> set evs \<subseteq> set evs' \<Longrightarrow> set ps \<subseteq> set ps' \<Longrightarrow> allowed evs' ps' req"
  by (auto simp: allowed_def intro: paid_mono split: inventory_routing.splits)

lemma justified_mono: "justified evs ps oid st items \<Longrightarrow> set evs \<subseteq> set evs' \<Longrightarrow> set ps \<subseteq> set ps' \<Longrightarrow>
    justified evs' ps' oid st items"
  by (auto simp: justified_def intro: paid_mono)

lemma stock_books_mono:
  "stock_books evs ps db \<Longrightarrow> set evs \<subseteq> set evs' \<Longrightarrow> set ps \<subseteq> set ps' \<Longrightarrow> stock_books evs' ps' db"
  unfolding stock_books_def using justified_mono by blast

lemma allowed_in_turn:
  assumes "stock_books evs ps db" and "distinct (map payment_orderId ps)" and "allowed evs ps req"
  shows "in_turn (call_of req) db"
proof (cases "rpc_routing req")
  case InventoryConfirm
  then have "paid ps (rpc_orderId req) SUCCESS"
    using assms(3) by (simp add: allowed_def)
  then have "\<not> paid ps (rpc_orderId req) FAILED"
    by (rule paid_once [OF assms(2)])
  then have "claim (ledger_of db) (rpc_orderId req) \<noteq> Some (RELEASED, items)" for items
    using assms(1) by (auto simp: stock_books_def justified_def)
  then show ?thesis
    using InventoryConfirm in_turn_claim [of "rpc_orderId req" db] by simp
qed simp_all

lemma claim_after_call:
  assumes "claim (ledger_call c l) oid = Some (st, items)"
  obtains "claim l oid = Some (st, items)"
  | request where "c = ReserveCall request" "req_orderId request = oid" "req_items request = items" "st = RESERVED"
  | "c = ConfirmCall oid" "claim l oid = Some (RESERVED, items)" "st = CONFIRMED"
  | "c = ReleaseCall oid" "claim l oid = Some (RESERVED, items)" "st = RELEASED"
  using assms
  by (cases c) (auto simp: ledger_reserve_def ledger_confirm_def ledger_release_def
      split: option.splits ReservationStatus.splits if_splits)

lemma justified_call:
  assumes "\<forall>oid st items. claim l oid = Some (st, items) \<longrightarrow> justified evs ps oid st items" and "allowed evs ps req"
    and "claim (ledger_call (call_of req) l) oid = Some (st, items)"
  shows "justified evs ps oid st items"
  using assms(3)
proof (cases rule: claim_after_call)
  case 1
  with assms(1) show ?thesis by blast
next
  case (2 request)
  with assms(2) show ?thesis
    by (auto simp: allowed_def justified_def split: inventory_routing.splits)
next
  case 3
  with assms(1,2) show ?thesis
    by (fastforce simp: allowed_def justified_def split: inventory_routing.splits)
next
  case 4
  with assms(1,2) show ?thesis
    by (fastforce simp: allowed_def justified_def split: inventory_routing.splits)
qed

lemma stock_books_call:
  assumes "stock_books evs ps db" and "distinct (map payment_orderId ps)" and "allowed evs ps req"
  shows "stock_books evs ps (snd (handle_inventory f rd (call_of req) db))"
proof -
  have inv: "inventory_inv db" using assms(1) by (simp add: stock_books_def)
  note turn = allowed_in_turn [OF assms]
  have "snd (handle_inventory f rd (call_of req) db) = db \<or>
      ledger_of (snd (handle_inventory f rd (call_of req) db)) = ledger_call (call_of req) (ledger_of db)"
    using handle_inventory_cases(1) [OF inv turn, of f rd] by (auto simp: call_effect_def)
  with handle_inventory_inv [OF inv turn, of f rd] justified_call [of "ledger_of db" evs ps req] assms(1,3)
  show ?thesis unfolding stock_books_def by metis
qed

text \<open>A claim that was made stays, and a confirmed one stays confirmed.\<close>

lemma claims_stay:
  assumes "stock_books evs ps db" and "distinct (map payment_orderId ps)" and "allowed evs ps req"
  shows "claim_status db oid \<noteq> None \<Longrightarrow> claim_status (snd (handle_inventory f rd (call_of req) db)) oid \<noteq> None"
    and "claim_status db oid = Some CONFIRMED \<Longrightarrow>
      claim_status (snd (handle_inventory f rd (call_of req) db)) oid = Some CONFIRMED"
proof -
  let ?db = "snd (handle_inventory f rd (call_of req) db)"
  have inv: "inventory_inv db" using assms(1) by (simp add: stock_books_def)
  have st: "claim_status db' = map_option fst \<circ> claim (ledger_of db')" for db'
    by (simp add: claim_status_def fun_eq_iff claim_lookup option.map_comp comp_def)
  have "?db = db \<or> ledger_of ?db = ledger_call (call_of req) (ledger_of db)"
    using handle_inventory_cases(1) [OF inv allowed_in_turn [OF assms], of f rd] by (auto simp: call_effect_def)
  then show "claim_status db oid \<noteq> None \<Longrightarrow> claim_status ?db oid \<noteq> None"
    and "claim_status db oid = Some CONFIRMED \<Longrightarrow> claim_status ?db oid = Some CONFIRMED"
    using settled_claim_kept [of "ledger_of db" oid CONFIRMED _ "call_of req"]
    unfolding st
    by (auto simp del: call_of.simps)
      (cases "call_of req"; auto simp: ledger_reserve_def ledger_confirm_def ledger_release_def
        split: option.splits ReservationStatus.splits if_splits)
qed

section \<open>The invariant of the whole\<close>

text \<open>The event an order was announced with, and what a message may say.\<close>

definition truthful :: "OrderCreatedEvent list \<Rightarrow> Payment list \<Rightarrow> InventoryDB \<Rightarrow> publication \<Rightarrow> bool" where
  "truthful evs ps db m \<longleftrightarrow> (case body m of
     PaymentRequested pr \<Rightarrow> claim_status db (pr_orderId pr) \<noteq> None \<and>
       (\<exists>ev \<in> set evs. pr = \<lparr>pr_orderId = ev_orderId ev, pr_customerId = ev_customerId ev, pr_total = ev_total ev\<rparr>)
   | PaymentResult r \<Rightarrow> paid ps (res_event_orderId r) (res_event_status r) \<and>
       routing_key m = (if res_event_status r = SUCCESS then ''payment.succeeded'' else ''payment.failed'')
   | StatusChanged sc \<Rightarrow> sc_status sc = COMPLETED \<longrightarrow> claim_status db (sc_orderId sc) = Some CONFIRMED
   | OrderCreated _ \<Rightarrow> True)"

definition charged_for_order :: "OrderCreatedEvent list \<Rightarrow> InventoryDB \<Rightarrow> Payment \<Rightarrow> bool" where
  "charged_for_order evs db p \<longleftrightarrow> claim_status db (payment_orderId p) \<noteq> None \<and>
     (\<exists>ev \<in> set evs. payment_orderId p = ev_orderId ev \<and> payment_customerId p = ev_customerId ev \<and>
        payment_amount p = ev_total ev)"

text \<open>The inventory backs a status.\<close>

definition backed :: "InventoryDB \<Rightarrow> string \<Rightarrow> OrderStatus \<Rightarrow> bool" where
  "backed db oid status \<longleftrightarrow> (status = COMPLETED \<longrightarrow> claim_status db oid = Some CONFIRMED) \<and>
     (status = INVENTORY_RESERVED \<longrightarrow> claim_status db oid \<noteq> None)"

definition system_inv :: "system \<Rightarrow> bool" where
  "system_inv S \<longleftrightarrow> (let db = order_db (saga S); evs = events db; ps = paid_rows S; w = world (saga S) in
     order_inv db \<and> stock_books evs ps w \<and> distinct (map payment_orderId ps) \<and>
     list_all (allowed evs ps) (rpcs S) \<and> list_all (truthful evs ps w) (saga_sent (saga S)) \<and>
     list_all (charged_for_order evs w) ps \<and>
     list_all (\<lambda>order. backed w (order_id order) (order_status order)) (orders db))"

lemma system_inv_start: "system_start S \<Longrightarrow> system_inv S"
  by (auto simp: system_start_def system_inv_def Let_def no_orders_def order_inv_def events_def stock_books_def
      inventory_start_inv) (simp add: inventory_start_def claim_lookup)

subsection \<open>What stays true when the inventory moves on\<close>

definition claims_grow :: "InventoryDB \<Rightarrow> InventoryDB \<Rightarrow> bool" where
  "claims_grow db db' \<longleftrightarrow> (\<forall>oid. (claim_status db oid \<noteq> None \<longrightarrow> claim_status db' oid \<noteq> None) \<and>
     (claim_status db oid = Some CONFIRMED \<longrightarrow> claim_status db' oid = Some CONFIRMED))"

lemma claims_grow_refl [simp]: "claims_grow db db"
  by (simp add: claims_grow_def)

lemma truthful_mono:
  assumes "truthful evs ps db m" and "set evs \<subseteq> set evs'" and "set ps \<subseteq> set ps'" and "claims_grow db db'"
  shows "truthful evs' ps' db' m"
  using assms by (cases "body m") (auto simp: truthful_def claims_grow_def intro: paid_mono)

lemma charged_mono:
  "charged_for_order evs db p \<Longrightarrow> set evs \<subseteq> set evs' \<Longrightarrow> claims_grow db db' \<Longrightarrow> charged_for_order evs' db' p"
  by (auto simp: charged_for_order_def claims_grow_def)

lemma backed_mono: "backed db oid st \<Longrightarrow> claims_grow db db' \<Longrightarrow> backed db' oid st"
  by (auto simp: backed_def claims_grow_def)

lemma handler_claims_grow:
  "stock_books evs ps db \<Longrightarrow> distinct (map payment_orderId ps) \<Longrightarrow> allowed evs ps req \<Longrightarrow>
     claims_grow db (snd (handle_inventory f rd (call_of req) db))"
  unfolding claims_grow_def using claims_stay by blast

text \<open>The world after a call through the breaker.\<close>

lemma fire_keeps_books:
  assumes "stock_books evs ps db" and "distinct (map payment_orderId ps)" and "allowed evs ps req"
    and "inventory_fire d req db = (a, db')"
  shows "stock_books evs ps db'" and "claims_grow db db'"
  using stock_books_call [OF assms(1-3)] handler_claims_grow [OF assms(1-3)] assms(1)
  by (cases rule: inventory_fire_reply [OF assms(4)]; metis claims_grow_refl snd_conv)+

subsection \<open>What a saga handler changes\<close>

definition saga_change :: "OrderCreatedEvent set \<Rightarrow> string \<Rightarrow> InventoryDB \<Rightarrow> InventoryDB saga_state \<Rightarrow>
    InventoryDB saga_state \<Rightarrow> bool" where
  "saga_change evs oid w s s' \<longleftrightarrow> world s' = w \<and>
     (order_db s' = order_db s \<or> (\<exists>st. backed w oid st \<and> order_db s' = update_status oid st (order_db s))) \<and>
     (\<forall>m \<in> set (saga_sent s'). m \<in> set (saga_sent s) \<or>
        (\<exists>c st. backed w oid st \<and> m = status_message oid c st) \<or>
        (\<exists>ev \<in> evs. claim_status w (ev_orderId ev) \<noteq> None \<and> m = payment_request ev))"

lemma setStatus_change:
  assumes "backed w oid st"
  shows "saga_change evs oid w s (setStatus faults oid st (s\<lparr>world := w\<rparr>))"
  using assms setStatus_sent [of faults oid st "s\<lparr>world := w\<rparr>"]
  by (fastforce simp: saga_change_def setStatus_db split: if_splits)

lemma backed_simps [simp]: "backed w oid CANCELLED" "backed w oid PENDING"
  by (simp_all add: backed_def)

lemma saga_handlers_change:
  "inventory_fire d (reserve_request event) (world s) = (a, w) \<Longrightarrow>
     saga_change {event} (ev_orderId event) w s (handleOrderCreated (inventory_fire d) faults event s)"
  "inventory_fire d (confirm_request (res_event_orderId r)) (world s) = (a, w) \<Longrightarrow>
     saga_change {} (res_event_orderId r) w s (handlePaymentSucceeded (inventory_fire d) faults r s)"
  "inventory_fire d (release_request (res_event_orderId r)) (world s) = (a, w) \<Longrightarrow>
     saga_change {} (res_event_orderId r) w s (handlePaymentFailed (inventory_fire d) faults r s)"
proof -
  assume f: "inventory_fire d (reserve_request event) (world s) = (a, w)"
  show "saga_change {event} (ev_orderId event) w s (handleOrderCreated (inventory_fire d) faults event s)"
  proof (cases "\<exists>r. a = Inr r \<and> success r")
    case True
    then have c: "claim_status w (ev_orderId event) \<noteq> None"
      using f inventory_rpc.reserved [of d "reserve_request event" "world s" _ w] by (auto simp: reserve_request_def)
    then have "saga_change {event} (ev_orderId event) w s
        (setStatus faults (ev_orderId event) INVENTORY_RESERVED (s\<lparr>world := w\<rparr>))"
      by (intro setStatus_change) (simp add: backed_def)
    with True f c show ?thesis
      by (auto simp: handleOrderCreated_def Let_def saga_change_def set_publish_quietly)
  next
    case False
    with f setStatus_change [of w "ev_orderId event" CANCELLED] show ?thesis
      by (auto simp: handleOrderCreated_def split: sum.splits)
  qed
next
  assume f: "inventory_fire d (confirm_request (res_event_orderId r)) (world s) = (a, w)"
  show "saga_change {} (res_event_orderId r) w s (handlePaymentSucceeded (inventory_fire d) faults r s)"
  proof (cases "\<exists>r. a = Inr r \<and> success r")
    case True
    then have "claim_status w (res_event_orderId r) = Some CONFIRMED"
      using f inventory_rpc.confirmed [of d "confirm_request (res_event_orderId r)" "world s" _ w]
      by (auto simp: confirm_request_def)
    then show ?thesis
      using True f setStatus_change [of w "res_event_orderId r" COMPLETED]
      by (auto simp: handlePaymentSucceeded_def backed_def)
  next
    case False
    with f show ?thesis
      by (auto simp: handlePaymentSucceeded_def saga_change_def split: sum.splits)
  qed
next
  assume "inventory_fire d (release_request (res_event_orderId r)) (world s) = (a, w)"
  then show "saga_change {} (res_event_orderId r) w s (handlePaymentFailed (inventory_fire d) faults r s)"
    using setStatus_change [of w "res_event_orderId r" CANCELLED] by (simp add: handlePaymentFailed_def)
qed

lemma update_status_order_inv: "order_inv db \<Longrightarrow> order_inv (update_status oid st db)"
proof -
  assume inv: "order_inv db"
  have "map order_id (orders (update_status oid st db)) = map order_id (orders db)"
    by (simp add: update_status_def update_rows_keys)
  moreover have "list_all2 announced (orders (update_status oid st db)) (outbox_events db)"
    using inv by (auto simp: order_inv_def update_status_def update_rows_def list_all2_map1
        announced_def event_of_def elim!: list_all2_mono)
  ultimately show "order_inv (update_status oid st db)"
    using inv by (simp add: order_inv_def) (simp add: update_status_def)
qed

lemma events_update_status [simp]: "events (update_status oid st db) = events db"
  by (simp add: events_def update_status_def)

subsection \<open>Every step keeps it\<close>

lemma system_inv_saga:
  assumes "system_inv S" and "allowed (events (order_db (saga S))) (paid_rows S) req"
    and "inventory_fire d req (world (saga S)) = (a, w)"
    and "saga_change evs (rpc_orderId req) w (saga S) s'" and "evs \<subseteq> set (events (order_db (saga S)))"
  shows "system_inv (S\<lparr>saga := s', rpcs := req # rpcs S\<rparr>)"
proof -
  let ?evs = "events (order_db (saga S))" and ?ps = "paid_rows S" and ?oid = "rpc_orderId req"
  have inv: "order_inv (order_db (saga S))" "stock_books ?evs ?ps (world (saga S))"
    "distinct (map payment_orderId ?ps)" "list_all (allowed ?evs ?ps) (rpcs S)"
    "list_all (truthful ?evs ?ps (world (saga S))) (saga_sent (saga S))"
    "list_all (charged_for_order ?evs (world (saga S))) ?ps"
    "list_all (\<lambda>order. backed (world (saga S)) (order_id order) (order_status order)) (orders (order_db (saga S)))"
    using assms(1) by (simp_all add: system_inv_def Let_def)
  note books = fire_keeps_books [OF inv(2,3) assms(2,3)]
  have ch: "world s' = w" "order_db s' = order_db (saga S) \<or>
      (\<exists>st. backed w ?oid st \<and> order_db s' = update_status ?oid st (order_db (saga S)))"
    "\<forall>m \<in> set (saga_sent s'). m \<in> set (saga_sent (saga S)) \<or>
        (\<exists>c st. backed w ?oid st \<and> m = status_message ?oid c st) \<or>
        (\<exists>ev \<in> evs. claim_status w (ev_orderId ev) \<noteq> None \<and> m = payment_request ev)"
    using assms(4) by (simp_all add: saga_change_def)
  have evs: "events (order_db s') = ?evs" and "order_inv (order_db s')"
    using ch(2) inv(1) update_status_order_inv by auto
  moreover have "list_all (truthful ?evs ?ps w) (saga_sent s')"
    unfolding list_all_iff
  proof
    fix m assume "m \<in> set (saga_sent s')"
    with ch(3) consider "m \<in> set (saga_sent (saga S))"
      | c st where "backed w ?oid st" "m = status_message ?oid c st"
      | ev where "ev \<in> evs" "claim_status w (ev_orderId ev) \<noteq> None" "m = payment_request ev" by blast
    then show "truthful ?evs ?ps w m"
    proof cases
      case 1
      with inv(5) books(2) show ?thesis by (auto simp: list_all_iff intro: truthful_mono)
    next
      case 2
      then show ?thesis by (simp add: truthful_def status_message_def backed_def)
    next
      case 3
      with assms(5) show ?thesis by (auto simp: truthful_def payment_request_def)
    qed
  qed
  moreover have "list_all (\<lambda>order. backed w (order_id order) (order_status order)) (orders (order_db s'))"
  proof -
    have "\<forall>order \<in> set (orders (order_db (saga S))). backed w (order_id order) (order_status order)"
      using inv(7) books(2) by (auto simp: list_all_iff intro: backed_mono)
    with ch(2) show ?thesis
      by (auto simp: list_all_iff update_status_def dest!: set_update_rows)
  qed
  moreover have "list_all (charged_for_order ?evs w) ?ps"
    using inv(6) books(2) by (auto simp: list_all_iff intro: charged_mono)
  ultimately show ?thesis
    using books(1) inv(3,4) assms(2) ch(1) by (simp add: system_inv_def Let_def)
qed

lemma createOrder_db:
  obtains "snd (createOrder fire env dto db) = db"
  | order where "orders (snd (createOrder fire env dto db)) = orders db @ [order]"
    and "outbox_events (snd (createOrder fire env dto db)) = outbox_events db @ [outbox_of (new_outbox_id env) order]"
    and "order_status order = PENDING"
proof (cases "priceItems fire (dto_items dto)")
  case (Inl e)
  with that(1) show ?thesis by (simp add: createOrder_def)
next
  case priced: (Inr items)
  show ?thesis
  proof (cases "order_tx env (dto_customerId dto) items (order_sum items) db")
    case (Inl e)
    with priced that(1) show ?thesis by (simp add: createOrder_def)
  next
    case (Inr x)
    obtain order db' where x: "x = (order, db')" by force
    from order_tx_Inr(1-3) [OF Inr [unfolded x]] that(2) [of order] priced Inr x show ?thesis
      by (simp add: createOrder_def)
  qed
qed

lemma system_inv_place:
  assumes "system_inv S"
  shows "system_inv (place_order fire env dto S)"
proof -
  let ?db = "order_db (saga S)" and ?db' = "snd (createOrder fire env dto (order_db (saga S)))"
  have oi: "order_inv ?db'"
    using assms by (intro createOrder_inv) (simp add: system_inv_def Let_def)
  have evs: "set (events ?db) \<subseteq> set (events ?db')"
    by (rule createOrder_db [of fire env dto ?db]) (auto simp: events_def)
  have rows: "orders ?db' = orders ?db \<or> (\<exists>order. orders ?db' = orders ?db @ [order] \<and> order_status order = PENDING)"
    by (rule createOrder_db [of fire env dto ?db]) auto
  note mono = stock_books_mono [OF _ evs subset_refl] allowed_mono [OF _ evs subset_refl]
    truthful_mono [OF _ evs subset_refl claims_grow_refl] charged_mono [OF _ evs claims_grow_refl]
  show ?thesis
    using assms oi rows
    by (auto simp: system_inv_def Let_def place_order_def list_all_iff intro: mono)
qed

lemma system_inv_payment:
  assumes inv: "system_inv S" and due: "delivered ''payment.requested'' (PaymentRequested ev) S"
    and retry: "retry_count headers < MAX_RETRIES"
  shows "system_inv (payment_requested faults fire pid ev headers S)"
proof -
  let ?s = "\<lparr>payments = paid_rows S, published = saga_sent (saga S)\<rparr>" and ?evs = "events (order_db (saga S))"
    and ?w = "world (saga S)"
  have t: "truthful ?evs (paid_rows S) ?w (publication EXCHANGE ''payment.requested'' (PaymentRequested ev))"
    using inv due by (auto simp: system_inv_def Let_def list_all_iff delivered_def)
  have t': "truthful ?evs ps ?w (publication x k (PaymentRequested ev))" for ps x k
    using t by (simp add: truthful_def)
  have res: "truthful ?evs ps ?w (result_message None (pr_orderId ev) status (Some pid))"
    if "paid ps (pr_orderId ev) status" for ps status
    using that by (simp add: truthful_def result_message_def)
  show ?thesis
  proof (rule handlePaymentRequested_ends [of None faults fire pid ev headers ?s])
    fix e assume "handlePaymentRequested None faults fire pid ev headers ?s = (Inl e, ?s)"
    with inv show ?thesis by (simp add: payment_requested_def)
  next
    fix ending
    assume run: "handlePaymentRequested None faults fire pid ev headers ?s =
        (Inr (), end_state None (result_publish_fault faults) pid ev headers ending ?s)"
      and new: "ending \<noteq> Untouched \<Longrightarrow> find_row payment_orderId (pr_orderId ev) (payments ?s) = None"
      and gave: "ending = GaveUp \<longleftrightarrow> ending \<noteq> Untouched \<and> MAX_RETRIES \<le> retry_count headers"
    show ?thesis
    proof (cases ending)
      case Untouched
      with run inv show ?thesis by (simp add: payment_requested_def)
    next
      case GaveUp
      with gave retry show ?thesis by simp
    next
      case Retried
      with run inv t' show ?thesis by (simp add: payment_requested_def system_inv_def Let_def)
    next
      case (Charged status)
      define row where "row = payment_row pid ev status"
      have row: "payment_orderId row = pr_orderId ev" "payment_status row = status"
        by (simp_all add: row_def payment_row_def)
      let ?ps = "paid_rows S @ [row]"
      have fresh: "pr_orderId ev \<notin> payment_orderId ` set (paid_rows S)"
        using new Charged by (simp add: find_row_None_iff)
      have up: "set (paid_rows S) \<subseteq> set ?ps" by auto
      have p: "paid ?ps (pr_orderId ev) status"
        using row by (simp add: paid_def)
      have c: "charged_for_order ?evs ?w row"
        using t by (auto simp: truthful_def charged_for_order_def row_def payment_row_def)
      note mono = stock_books_mono [OF _ subset_refl up] allowed_mono [OF _ subset_refl up]
        truthful_mono [OF _ subset_refl up claims_grow_refl]
      have "system_inv (S\<lparr>paid_rows := ?ps, saga := (saga S)\<lparr>saga_sent :=
          publish_quietly (result_publish_fault faults)
            (result_message None (pr_orderId ev) status (Some pid)) (saga_sent (saga S))\<rparr>\<rparr>)"
        using inv fresh c res [OF p] row(1)
        by (auto simp: system_inv_def Let_def list_all_iff set_publish_quietly intro: mono)
      with run Charged show ?thesis by (simp add: payment_requested_def publishResult_effect row_def)
    qed
  qed
qed

lemma system_inv_late:
  assumes "system_inv S" and "req \<in> set (rpcs S)"
  shows "system_inv (late_rpc f rd req S)"
proof -
  have inv: "stock_books (events (order_db (saga S))) (paid_rows S) (world (saga S))"
    "distinct (map payment_orderId (paid_rows S))"
    "allowed (events (order_db (saga S))) (paid_rows S) req"
    using assms by (auto simp: system_inv_def Let_def list_all_iff)
  note mono = truthful_mono [OF _ subset_refl subset_refl handler_claims_grow [OF inv]]
    charged_mono [OF _ subset_refl handler_claims_grow [OF inv]] backed_mono [OF _ handler_claims_grow [OF inv]]
  show ?thesis
    using assms stock_books_call [OF inv]
    by (auto simp del: call_of.simps handle_inventory.simps
        simp: system_inv_def Let_def late_rpc_def list_all_iff intro: mono)
qed

lemma system_inv_step: "system_step S e T \<Longrightarrow> system_inv S \<Longrightarrow> system_inv T"
proof (induction rule: system_step.induct [case_names placed created due succeeded failed late])
  case (placed S dto fire env)
  then show ?case by (simp add: system_inv_place)
next
  case (created event S d sf)
  obtain a w where f: "inventory_fire d (reserve_request event) (world (saga S)) = (a, w)" by force
  have "allowed (events (order_db (saga S))) (paid_rows S) (reserve_request event)"
    using created by (auto simp: allowed_def reserve_request_def)
  from system_inv_saga [OF created(2) this f, of "{event}"] saga_handlers_change(1) [OF f] created(1)
  show ?case by (simp add: saga_order_created_def reserve_request_def)
next
  case (due ev S headers pf gateway pid)
  then show ?case by (simp add: system_inv_payment)
next
  case (succeeded r S d sf)
  obtain a w where f: "inventory_fire d (confirm_request (res_event_orderId r)) (world (saga S)) = (a, w)" by force
  have "truthful (events (order_db (saga S))) (paid_rows S) (world (saga S)) (publication EXCHANGE ''payment.succeeded'' (PaymentResult r))"
    using succeeded by (auto simp: system_inv_def Let_def list_all_iff delivered_def)
  then have "paid (paid_rows S) (res_event_orderId r) SUCCESS"
    by (cases "res_event_status r") (simp_all add: truthful_def)
  then have "allowed (events (order_db (saga S))) (paid_rows S) (confirm_request (res_event_orderId r))"
    by (simp add: allowed_def confirm_request_def)
  from system_inv_saga [OF succeeded(2) this f, of "{}"] saga_handlers_change(2) [OF f]
  show ?case by (simp add: saga_payment_succeeded_def confirm_request_def)
next
  case (failed r S d sf)
  obtain a w where f: "inventory_fire d (release_request (res_event_orderId r)) (world (saga S)) = (a, w)" by force
  have "truthful (events (order_db (saga S))) (paid_rows S) (world (saga S)) (publication EXCHANGE ''payment.failed'' (PaymentResult r))"
    using failed by (auto simp: system_inv_def Let_def list_all_iff delivered_def)
  then have "paid (paid_rows S) (res_event_orderId r) FAILED"
    by (cases "res_event_status r") (simp_all add: truthful_def)
  then have "allowed (events (order_db (saga S))) (paid_rows S) (release_request (res_event_orderId r))"
    by (simp add: allowed_def release_request_def)
  from system_inv_saga [OF failed(2) this f, of "{}"] saga_handlers_change(3) [OF f]
  show ?case by (simp add: saga_payment_failed_def release_request_def)
next
  case (late req S f rd)
  then show ?case by (simp add: system_inv_late)
qed

interpretation shop: inductive_invariant system_start system_step system_inv
  by unfold_locales (auto intro: system_inv_start system_inv_step)

end
