(* ===== verification/System_Props.thy ===== *)
theory System_Props
  imports System Saga_Props
begin

text \<open>
  The properties of the services together: what a completed order guarantees in every reachable
  state, and that an order that can be served is settled in four deliveries.
\<close>

section \<open>Orders, events, payments\<close>

declare inventory_fire.simps [simp del] call_of.simps [simp del]

lemma events_are_orders:
  assumes "order_inv db"
  shows "events db = map event_of (orders db)"
proof -
  have "list_all2 announced (orders db) (outbox_events db)"
    using assms by (simp add: order_inv_def)
  then have "list_all2 (\<lambda>order e. event_of order = payload e) (orders db) (outbox_events db)"
    by (rule list_all2_mono) (simp add: announced_def)
  then have "list_all2 (=) (map event_of (orders db)) (map payload (outbox_events db))"
    by (simp add: list_all2_map1 list_all2_map2)
  then show ?thesis by (simp add: events_def list.rel_eq)
qed

lemma event_of_fields [simp]:
  "ev_orderId (event_of order) = order_id order" "ev_customerId (event_of order) = order_customerId order"
  "ev_total (event_of order) = order_total order" "ev_items (event_of order) = order_items order"
  by (simp_all add: event_of_def)

lemma order_of_event:
  assumes "order_inv db" and "order \<in> set (orders db)" and "ev \<in> set (events db)" and "ev_orderId ev = order_id order"
  shows "ev = event_of order"
proof -
  obtain order' where "order' \<in> set (orders db)" "ev = event_of order'"
    using assms(1,3) by (auto simp: events_are_orders)
  moreover from this have "order' = order"
    using assms find_row_member [of order_id "orders db"] by (metis event_of_fields(1) option.inject order_inv_def)
  ultimately show ?thesis by simp
qed

lemma claimed_reservation:
  assumes "stock_books evs ps db" and "claim_status db oid = Some st"
  obtains r ev where "findReservation oid db = Some r" and "res_status r = st"
    and "ev \<in> set evs" and "ev_orderId ev = oid" and "res_items r = map reserved_item (ev_items ev)"
    and "justified evs ps oid st (res_items r)" and "\<forall>i \<in> set (res_items r). item_valid i"
proof -
  obtain r where r: "findReservation oid db = Some r" "res_status r = st"
    using assms(2) by (auto simp: claim_status_def)
  then have j: "justified evs ps oid st (res_items r)"
    using assms(1) by (auto simp: stock_books_def claim_lookup)
  moreover have "\<forall>i \<in> set (res_items r). item_valid i"
    using assms(1) find_row_SomeD [OF r(1)] by (auto simp: stock_books_def inventory_inv_def)
  ultimately show ?thesis
    using that [OF r] by (auto simp: justified_def)
qed

lemma unique_payment:
  assumes "distinct (map payment_orderId ps)" and "p \<in> set ps"
  shows "filter (\<lambda>q. payment_orderId q = payment_orderId p) ps = [p]"
  using assms
proof (induction ps)
  case (Cons q ps)
  show ?case
  proof (cases "q = p")
    case True
    with Cons.prems(1) have "filter (\<lambda>q. payment_orderId q = payment_orderId p) ps = []"
      by (auto simp: filter_empty_conv image_iff)
    with True show ?thesis by simp
  next
    case False
    with Cons show ?thesis by (auto simp: image_iff)
  qed
qed simp

section \<open>A reachable shop\<close>

text \<open>The events of one order, from the empty shop to its settlement.\<close>

definition empty_shop :: system where
  "empty_shop = \<lparr>saga = \<lparr>order_db = no_orders, saga_sent = [], world = stock_of_5\<rparr>, paid_rows = [], rpcs = []\<rparr>"

definition settle :: "(js_number \<Rightarrow> PaymentStatus result) \<Rightarrow> string \<Rightarrow> OrderCreatedEvent \<Rightarrow> system \<Rightarrow> system" where
  "settle gateway pid ev S =
     (let pr = \<lparr>pr_orderId = ev_orderId ev, pr_customerId = ev_customerId ev, pr_total = ev_total ev\<rparr>;
          S1 = saga_order_created (Answered no_faults) no_saga_faults ev S;
          S2 = payment_requested no_payment_faults gateway pid pr None S1;
          r = (\<lambda>st. \<lparr>res_event_orderId = ev_orderId ev, res_event_paymentId = Some pid, res_event_status = st\<rparr>)
      in case gateway (ev_total ev) of
           Inl _ \<Rightarrow> S2
         | Inr SUCCESS \<Rightarrow> saga_payment_succeeded (Answered no_faults) no_saga_faults (r SUCCESS) S2
         | Inr FAILED \<Rightarrow> saga_payment_failed (Answered no_faults) no_saga_faults (r FAILED) S2)"

lemma pay_new:
  assumes "find_row payment_orderId (pr_orderId ev) (paid_rows S) = None" and "gateway (pr_total ev) = Inr st"
  shows "payment_requested no_payment_faults gateway pid ev None S =
    S\<lparr>paid_rows := paid_rows S @ [payment_row pid ev st],
      saga := (saga S)\<lparr>saga_sent := saga_sent (saga S) @ [result_message None (pr_orderId ev) st (Some pid)]\<rparr>\<rparr>"
  using assms
  by (simp add: payment_requested_def handlePaymentRequested_def processPaymentRequested_def find_payment_def
      charge_def Let_def no_payment_faults_def append_row_def payment_row_def publishResult_effect
      retry_count_def MAX_RETRIES_def)

lemma reserve_call_ok:
  assumes "inventory_inv db" and "claim_status db (ev_orderId ev) = None"
    and "admissible (map reserved_item (ev_items ev)) (\<lambda>p. avail p db - resv p db)"
  shows "\<exists>db'. inventory_fire (Answered no_faults) (reserve_request ev) db = (Inr rpc_ok, db') \<and> inventory_inv db' \<and>
    findReservation (ev_orderId ev) db' = Some \<lparr>res_orderId = ev_orderId ev,
      res_items = map reserved_item (ev_items ev), res_status = RESERVED\<rparr> \<and>
    (\<forall>p. avail p db' = avail p db \<and> resv p db' = resv p db + demand p (map reserved_item (ev_items ev)))"
proof -
  let ?req = "\<lparr>req_orderId = ev_orderId ev, req_items = map reserved_item (ev_items ev)\<rparr>"
  obtain reply db' where run: "reserve no_faults ?req False db = (reply, db')" by force
  have new: "findReservation (req_orderId ?req) db = None"
    using assms(2) by (simp add: claim_status_def)
  from reserve_outcome [OF assms(1) new] run assms(3)
  have out: "reply = Reply rpc_ok" "\<And>p. avail p db' = avail p db"
    "\<And>p. resv p db' = resv p db + demand p (map reserved_item (ev_items ev))"
    "findReservation (ev_orderId ev) db' = Some \<lparr>res_orderId = ev_orderId ev,
      res_items = map reserved_item (ev_items ev), res_status = RESERVED\<rparr>" by simp_all
  moreover have "inventory_inv db'"
    using handle_inventory_inv [OF assms(1), of "ReserveCall ?req" no_faults False] run by simp
  ultimately show ?thesis
    using run by (simp add: reserve_request_def inventory_fire.simps call_of.simps)
qed

lemma settle_call_ok:
  assumes "inventory_inv db" and r: "findReservation oid db = Some r" "res_status r = RESERVED"
  shows "\<exists>db'. inventory_fire (Answered no_faults) (confirm_request oid) db = (Inr rpc_ok, db') \<and>
      claim_status db' oid = Some CONFIRMED \<and>
      (\<forall>p. avail p db' = avail p db - demand p (res_items r) \<and> resv p db' = resv p db - demand p (res_items r))"
    and "\<exists>db'. inventory_fire (Answered no_faults) (release_request oid) db = (Inr rpc_ok, db') \<and>
      claim_status db' oid = Some RELEASED \<and>
      (\<forall>p. avail p db' = avail p db \<and> resv p db' = resv p db - demand p (res_items r))"
  using confirm_outcome [OF assms(1), of oid] release_outcome [OF assms(1), of oid] r
  by (fastforce simp: confirm_request_def release_request_def claim_status_def inventory_fire.simps call_of.simps)+

lemma settle_result:
  assumes inv: "system_inv S" and order: "order \<in> set (orders (order_db (saga S)))"
    and open_: "claim_status (world (saga S)) (order_id order) = None"
    and adm: "admissible (map reserved_item (order_items order))
      (\<lambda>p. avail p (world (saga S)) - resv p (world (saga S)))"
    and gw: "gateway (order_total order) = Inr st"
  shows "let T = settle gateway pid (event_of order) S; db = world (saga S); db' = world (saga T) in
    status_of (order_id order) (saga T) = Some (if st = SUCCESS then COMPLETED else CANCELLED) \<and>
    claim_status db' (order_id order) = Some (if st = SUCCESS then CONFIRMED else RELEASED) \<and>
    map payment_amount (filter (\<lambda>p. payment_orderId p = order_id order) (paid_rows T)) = [order_total order] \<and>
    (\<forall>p. resv p db' = resv p db \<and> avail p db' = avail p db -
      (if st = SUCCESS then demand p (map reserved_item (order_items order)) else 0))"
proof -
  let ?ev = "event_of order" and ?oid = "order_id order" and ?db = "world (saga S)"
  let ?pr = "\<lparr>pr_orderId = ?oid, pr_customerId = order_customerId order, pr_total = order_total order\<rparr>"
  have facts: "inventory_inv ?db" "distinct (map order_id (orders (order_db (saga S))))"
    "\<forall>p \<in> set (paid_rows S). claim_status ?db (payment_orderId p) \<noteq> None"
    using inv by (auto simp: system_inv_def Let_def stock_books_def order_inv_def list_all_iff charged_for_order_def)
  have unpaid: "?oid \<notin> payment_orderId ` set (paid_rows S)"
    using facts(3) open_ by auto
  have found: "findOrder ?oid (order_db (saga S)) = Some order"
    using find_row_member [OF facts(2) order] .
  obtain db1 where db1: "inventory_fire (Answered no_faults) (reserve_request ?ev) ?db = (Inr rpc_ok, db1)"
    "inventory_inv db1"
    "findReservation ?oid db1 = Some \<lparr>res_orderId = ?oid, res_items = map reserved_item (order_items order), res_status = RESERVED\<rparr>"
    "\<And>p. avail p db1 = avail p ?db" "\<And>p. resv p db1 = resv p ?db + demand p (map reserved_item (order_items order))"
    using reserve_call_ok [of ?db ?ev] facts(1) open_ adm by auto
  let ?s1 = "(saga S)\<lparr>order_db := update_status ?oid INVENTORY_RESERVED (order_db (saga S)),
      saga_sent := saga_sent (saga S) @ [payment_request ?ev], world := db1\<rparr>"
  have s1: "handleOrderCreated (inventory_fire (Answered no_faults)) no_saga_faults ?ev (saga S) = ?s1"
    using handleOrderCreated_ok [of "inventory_fire (Answered no_faults)" ?ev "saga S"] db1(1) found by simp
  let ?s2 = "?s1\<lparr>saga_sent := saga_sent ?s1 @ [result_message None ?oid st (Some pid)]\<rparr>"
  have s2: "payment_requested no_payment_faults gateway pid ?pr None
      (saga_order_created (Answered no_faults) no_saga_faults ?ev S) =
    S\<lparr>saga := ?s2, rpcs := reserve_request ?ev # rpcs S, paid_rows := paid_rows S @ [payment_row pid ?pr st]\<rparr>"
    using unpaid gw pay_new [of ?pr "saga_order_created (Answered no_faults) no_saga_faults ?ev S" gateway st pid]
    by (simp add: saga_order_created_def s1 find_row_None_iff)
  have found2: "findOrder ?oid (order_db ?s2) = Some (order\<lparr>order_status := INVENTORY_RESERVED\<rparr>)"
    by (simp add: update_status_find found)
  have pays: "map payment_amount (filter (\<lambda>p. payment_orderId p = ?oid) (paid_rows S @ [payment_row pid ?pr st])) = [order_total order]"
    using unpaid by (force simp: filter_empty_conv payment_row_def)
  note calls = settle_call_ok [OF db1(2,3)]
  show ?thesis
  proof (cases st)
    case SUCCESS
    obtain db2 where "inventory_fire (Answered no_faults) (confirm_request ?oid) db1 = (Inr rpc_ok, db2)"
      "claim_status db2 ?oid = Some CONFIRMED"
      "\<And>p. avail p db2 = avail p db1 - demand p (map reserved_item (order_items order))" "\<And>p. resv p db2 = resv p ?db"
      using calls(1) db1(5) by auto
    moreover from this have "handlePaymentSucceeded (inventory_fire (Answered no_faults)) no_saga_faults
        \<lparr>res_event_orderId = ?oid, res_event_paymentId = Some pid, res_event_status = SUCCESS\<rparr> ?s2 =
      ?s2\<lparr>order_db := update_status ?oid COMPLETED (order_db ?s2),
        saga_sent := saga_sent ?s2 @ [status_message ?oid (order_customerId order) COMPLETED], world := db2\<rparr>"
      using handlePaymentSucceeded_ok [of "inventory_fire (Answered no_faults)" "\<lparr>res_event_orderId = ?oid,
          res_event_paymentId = Some pid, res_event_status = SUCCESS\<rparr>" ?s2 rpc_ok db2] found2 by simp
    ultimately show ?thesis
      using gw SUCCESS s2 pays found db1(4)
      by (simp add: settle_def Let_def saga_payment_succeeded_def status_of_def update_status_find)
  next
    case FAILED
    obtain db2 where "inventory_fire (Answered no_faults) (release_request ?oid) db1 = (Inr rpc_ok, db2)"
      "claim_status db2 ?oid = Some RELEASED"
      "\<And>p. avail p db2 = avail p db1" "\<And>p. resv p db2 = resv p ?db"
      using calls(2) db1(5) by auto
    moreover from this have "handlePaymentFailed (inventory_fire (Answered no_faults)) no_saga_faults
        \<lparr>res_event_orderId = ?oid, res_event_paymentId = Some pid, res_event_status = FAILED\<rparr> ?s2 =
      ?s2\<lparr>order_db := update_status ?oid CANCELLED (order_db ?s2),
        saga_sent := saga_sent ?s2 @ [status_message ?oid (order_customerId order) CANCELLED], world := db2\<rparr>"
      using handlePaymentFailed_ok [of "inventory_fire (Answered no_faults)" "\<lparr>res_event_orderId = ?oid,
          res_event_paymentId = Some pid, res_event_status = FAILED\<rparr>" ?s2 "Inr rpc_ok" db2] found2 by simp
    ultimately show ?thesis
      using gw FAILED s2 pays found db1(4)
      by (simp add: settle_def Let_def saga_payment_failed_def status_of_def update_status_find)
  qed
qed

section \<open>One order, placed and settled\<close>

definition scarce_order :: CreateOrderDto where
  "scarce_order = \<lparr>dto_customerId = ''c1'', dto_items = [\<lparr>dto_item_productId = ''scarce'', dto_item_quantity = js_int 2\<rparr>]\<rparr>"

definition price_3 :: "string list \<Rightarrow> GetPricesResult result" where
  "price_3 ids = Inr \<lparr>prices = map (\<lambda>i. (i, js_int 3)) ids, missing = []\<rparr>"

definition shop_open :: system where
  "shop_open = place_order price_3 (an_env ''o1'') scarce_order empty_shop"

definition first_order :: Order where
  "first_order = \<lparr>order_id = ''o1'', order_customerId = ''c1'',
     order_items = [\<lparr>oi_productId = ''scarce'', oi_quantity = js_int 2, oi_price = Some (js_int 3)\<rparr>],
     order_total = js_int 6, order_status = PENDING, order_createdAt = ''2025-01-01T00:00:00.000Z''\<rparr>"

lemma shop_open_eq:
  "shop_open = \<lparr>saga = \<lparr>order_db = \<lparr>orders = [first_order], outbox_events = [outbox_of ''e-o1'' first_order]\<rparr>,
      saga_sent = [], world = stock_of_5\<rparr>, paid_rows = [], rpcs = []\<rparr>"
proof -
  have "js_add (js_int 0) (js_mul (js_int 3) (js_int 2)) = js_int 6"
    by (simp add: js_mul_int js_add_int)
  then show ?thesis
    by (simp add: shop_open_def place_order_def createOrder_def priceItems_def price_3_def scarce_order_def Let_def
        empty_shop_def order_tx_def an_env_def no_orders_def insert_row_def order_sum_def item_amount_def
        first_order_def outbox_of_def event_of_def js_Map_def)
qed

lemma empty_shop_reachable: "reachable system_start system_step empty_shop"
  by (rule reachable_init)
    (simp add: system_start_def empty_shop_def inventory_start_def stock_of_5_def int4_max_def)

lemma shop_open_reachable: "reachable system_start system_step shop_open"
  unfolding shop_open_def by (rule reachable_step [OF empty_shop_reachable]) (rule placed)

lemma system_inv_reachable: "reachable system_start system_step S \<Longrightarrow> system_inv S"
  by (rule shop.holds_when_reachable)

text \<open>The settlement is a path of the system: three deliveries of what was published.\<close>

lemma settle_reachable:
  assumes "reachable system_start system_step S" and "ev \<in> set (events (order_db (saga S)))"
    and "gateway (ev_total ev) = Inr st"
    and "delivered ''payment.requested'' (PaymentRequested \<lparr>pr_orderId = ev_orderId ev,
        pr_customerId = ev_customerId ev, pr_total = ev_total ev\<rparr>)
      (saga_order_created (Answered no_faults) no_saga_faults ev S)"
    and "find_row payment_orderId (ev_orderId ev) (paid_rows S) = None"
  shows "reachable system_start system_step (settle gateway pid ev S)"
proof -
  let ?S1 = "saga_order_created (Answered no_faults) no_saga_faults ev S"
  let ?pr = "\<lparr>pr_orderId = ev_orderId ev, pr_customerId = ev_customerId ev, pr_total = ev_total ev\<rparr>"
  let ?S2 = "payment_requested no_payment_faults gateway pid ?pr None ?S1"
  have "reachable system_start system_step ?S1"
    by (rule reachable_step [OF assms(1)], rule system_step.order_created, rule assms(2))
  then have r2: "reachable system_start system_step ?S2"
    by (rule reachable_step) (rule payment_due [OF assms(4)], simp add: retry_count_def MAX_RETRIES_def)
  have "result_message None (ev_orderId ev) st (Some pid) \<in> set (saga_sent (saga ?S2))"
    using assms(3,5) pay_new [of ?pr ?S1 gateway st pid] by (simp add: saga_order_created_def)
  then have d: "delivered (if st = SUCCESS then ''payment.succeeded'' else ''payment.failed'') (PaymentResult
      \<lparr>res_event_orderId = ev_orderId ev, res_event_paymentId = Some pid, res_event_status = st\<rparr>) ?S2"
    by (simp add: delivered_def result_message_def payment_exchange_def config_string_def EXCHANGE_def)
  show ?thesis
  proof (cases st)
    case SUCCESS
    with d assms(3) show ?thesis
      by (auto simp: settle_def Let_def intro: reachable_step [OF r2] payment_succeeded)
  next
    case FAILED
    with d assms(3) show ?thesis
      by (auto simp: settle_def Let_def intro: reachable_step [OF r2] payment_failed)
  qed
qed

definition shop_sold :: system where
  "shop_sold = settle (\<lambda>_. Inr SUCCESS) ''p1'' (event_of first_order) shop_open"

lemma shop_sold_facts:
  "first_order \<in> set (orders (order_db (saga shop_open)))"
  "claim_status (world (saga shop_open)) (order_id first_order) = None"
  "admissible (map reserved_item (order_items first_order))
     (\<lambda>p. avail p (world (saga shop_open)) - resv p (world (saga shop_open)))"
  by (simp_all add: shop_open_eq claim_status_def stock_of_5_def admissible_def first_order_def reserved_item_def
      item_valid_def avail_def resv_def)

lemma shop_sold_reachable: "reachable system_start system_step shop_sold"
  unfolding shop_sold_def
proof (rule settle_reachable [OF shop_open_reachable, where st = SUCCESS])
  show "event_of first_order \<in> set (events (order_db (saga shop_open)))"
    by (simp add: shop_open_eq events_def outbox_of_def)
  obtain db' where f: "inventory_fire (Answered no_faults) (reserve_request (event_of first_order))
      (world (saga shop_open)) = (Inr rpc_ok, db')"
    using reserve_call_ok [of "world (saga shop_open)" "event_of first_order"] shop_sold_facts(2,3)
      inventory_inv_stock_of_5 by (auto simp: shop_open_eq)
  then show "delivered ''payment.requested'' (PaymentRequested \<lparr>pr_orderId = ev_orderId (event_of first_order),
        pr_customerId = ev_customerId (event_of first_order), pr_total = ev_total (event_of first_order)\<rparr>)
      (saga_order_created (Answered no_faults) no_saga_faults (event_of first_order) shop_open)"
    using handleOrderCreated_ok [of "inventory_fire (Answered no_faults)" "event_of first_order" "saga shop_open" rpc_ok db' first_order]
    by (simp add: delivered_def saga_order_created_def payment_request_def shop_open_eq)
qed (simp_all add: shop_open_eq)

lemma shop_sold_result:
  "status_of ''o1'' (saga shop_sold) = Some COMPLETED"
  "map payment_amount (filter (\<lambda>p. payment_orderId p = ''o1'') (paid_rows shop_sold)) = [js_int 6]"
  "avail ''scarce'' (world (saga shop_sold)) = 3"
  using settle_result [OF system_inv_reachable [OF shop_open_reachable] shop_sold_facts, of "\<lambda>_. Inr SUCCESS" SUCCESS "''p1''"]
  by (simp_all add: shop_sold_def first_order_def Let_def shop_open_eq avail_def stock_of_5_def reserved_item_def)

lemma shop_sold_order: "\<exists>order \<in> set (orders (order_db (saga shop_sold))). order_id order = ''o1'' \<and> order_status order = COMPLETED"
  using shop_sold_result(1) by (force simp: status_of_def dest: find_row_SomeD)

section \<open>Properties\<close>

text \<open>C1: End to end: in every state the services can reach, whatever messages are duplicated,
  reordered or late and whatever fails, an order that is COMPLETED has been paid exactly once, with
  success and for exactly its total, its reservation is CONFIRMED for exactly its items, and every
  quantity ordered is a positive whole number.\<close>
theorem completed_orders_are_paid_and_taken:
  assumes "reachable system_start system_step S"
    and "order \<in> set (orders (order_db (saga S)))" and "order_status order = COMPLETED"
  shows "(\<exists>p. filter (\<lambda>p. payment_orderId p = order_id order) (paid_rows S) = [p] \<and> payment_status p = SUCCESS \<and>
      payment_amount p = order_total order \<and> payment_customerId p = order_customerId order) \<and>
    (\<exists>r. findReservation (order_id order) (world (saga S)) = Some r \<and> res_status r = CONFIRMED \<and>
      res_items r = map reserved_item (order_items order) \<and> list_all item_valid (res_items r))"
proof -
  let ?db = "order_db (saga S)" and ?ps = "paid_rows S" and ?w = "world (saga S)"
  have inv: "order_inv ?db" "stock_books (events ?db) ?ps ?w" "distinct (map payment_orderId ?ps)"
    "list_all (charged_for_order (events ?db) ?w) ?ps" "backed ?w (order_id order) (order_status order)"
    using system_inv_reachable [OF assms(1)] assms(2) by (auto simp: system_inv_def Let_def list_all_iff)
  then have "claim_status ?w (order_id order) = Some CONFIRMED"
    using assms(3) by (simp add: backed_def)
  then obtain r ev where r: "findReservation (order_id order) ?w = Some r" "res_status r = CONFIRMED"
    and ev: "ev \<in> set (events ?db)" "ev_orderId ev = order_id order" "res_items r = map reserved_item (ev_items ev)"
    and j: "justified (events ?db) ?ps (order_id order) CONFIRMED (res_items r)"
    and valid: "\<forall>i \<in> set (res_items r). item_valid i"
    by (rule claimed_reservation [OF inv(2)])
  obtain p where p: "p \<in> set ?ps" "payment_orderId p = order_id order" "payment_status p = SUCCESS"
    using j by (auto simp: justified_def paid_def)
  then obtain ev' where ev': "ev' \<in> set (events ?db)" "payment_orderId p = ev_orderId ev'"
    "payment_customerId p = ev_customerId ev'" "payment_amount p = ev_total ev'"
    using inv(4) by (auto simp: list_all_iff charged_for_order_def)
  have "ev = event_of order"
    using ev(1,2) by (rule order_of_event [OF inv(1) assms(2)])
  moreover have "ev' = event_of order"
    using ev'(1) by (rule order_of_event [OF inv(1) assms(2)]) (simp add: ev'(2) [symmetric] p(2))
  ultimately show ?thesis
    using unique_payment [OF inv(3) p(1)] p ev'(3,4) ev(3) r valid by (simp add: list_all_iff)
qed

theorem completed_orders_are_paid_and_taken_witness:
  "\<exists>order \<in> set (orders (order_db (saga shop_sold))). order_id order = ''o1'' \<and>
     (\<exists>p. filter (\<lambda>p. payment_orderId p = ''o1'') (paid_rows shop_sold) = [p] \<and> payment_status p = SUCCESS)"
proof -
  obtain order where o: "order \<in> set (orders (order_db (saga shop_sold)))" "order_id order = ''o1''" "order_status order = COMPLETED"
    using shop_sold_order by blast
  from completed_orders_are_paid_and_taken [OF shop_sold_reachable o(1,3)] o(1,2) show ?thesis by auto
qed

text \<open>C2: In every reachable state of the services the stock is sound: the reserved quantity of a
  product is the sum over its open reservations and lies between zero and the stock on hand. No order
  of messages makes the saga confirm a reservation it has released, which is what the inventory alone
  would not survive.\<close>
theorem services_never_oversell:
  assumes "reachable system_start system_step S"
  shows "0 \<le> resv p (world (saga S)) \<and> resv p (world (saga S)) \<le> avail p (world (saga S)) \<and>
    resv p (world (saga S)) = claimed RESERVED p (world (saga S))"
proof -
  have "inventory_inv (world (saga S))"
    using system_inv_reachable [OF assms] by (simp add: system_inv_def Let_def stock_books_def)
  then show ?thesis using stock_ok_bounds [of "world (saga S)" p] by (simp add: inventory_inv_def)
qed

theorem services_never_oversell_witness:
  "resv ''scarce'' (world (saga shop_sold)) \<le> 3"
  using services_never_oversell [OF shop_sold_reachable, of "''scarce''"] shop_sold_result(3) by simp

text \<open>C3: In every reachable state no customer is charged twice for an order, charged for an order that
  does not exist or was never reserved, or charged another amount than the order's total.\<close>
theorem payments_match_orders:
  assumes "reachable system_start system_step S"
  shows "distinct (map payment_orderId (paid_rows S)) \<and>
    list_all (\<lambda>p. \<exists>order \<in> set (orders (order_db (saga S))). payment_orderId p = order_id order \<and>
      payment_customerId p = order_customerId order \<and> payment_amount p = order_total order \<and>
      claim_status (world (saga S)) (order_id order) \<noteq> None) (paid_rows S)"
proof -
  have inv: "order_inv (order_db (saga S))" "distinct (map payment_orderId (paid_rows S))"
    "list_all (charged_for_order (events (order_db (saga S))) (world (saga S))) (paid_rows S)"
    using system_inv_reachable [OF assms] by (simp_all add: system_inv_def Let_def)
  have "\<exists>order \<in> set (orders (order_db (saga S))). payment_orderId p = order_id order \<and>
      payment_customerId p = order_customerId order \<and> payment_amount p = order_total order \<and>
      claim_status (world (saga S)) (order_id order) \<noteq> None" if "p \<in> set (paid_rows S)" for p
  proof -
    have c: "charged_for_order (events (order_db (saga S))) (world (saga S)) p"
      using inv(3) that by (simp add: list_all_iff)
    then obtain ev where "ev \<in> set (events (order_db (saga S)))" "payment_orderId p = ev_orderId ev"
      "payment_customerId p = ev_customerId ev" "payment_amount p = ev_total ev"
      by (auto simp: charged_for_order_def)
    moreover from this(1) obtain order where "order \<in> set (orders (order_db (saga S)))" "ev = event_of order"
      by (auto simp: events_are_orders [OF inv(1)])
    ultimately show ?thesis
      using c by (intro bexI [of _ order]) (simp_all add: charged_for_order_def)
  qed
  with inv(2) show ?thesis by (simp add: list_all_iff)
qed

theorem payments_match_orders_witness:
  "\<exists>p \<in> set (paid_rows shop_sold). \<exists>order \<in> set (orders (order_db (saga shop_sold))).
     payment_orderId p = order_id order \<and> payment_amount p = js_int 6 \<and> order_total order = js_int 6"
proof -
  obtain p where p: "p \<in> set (paid_rows shop_sold)" "payment_amount p = js_int 6"
  proof -
    have "js_int 6 \<in> set (map payment_amount (filter (\<lambda>p. payment_orderId p = ''o1'') (paid_rows shop_sold)))"
      by (simp only: shop_sold_result(2)) simp
    then show ?thesis using that by auto
  qed
  from payments_match_orders [OF shop_sold_reachable] p show ?thesis
    by (fastforce simp: list_all_iff)
qed



end
