(* ===== verification/Notification.thy ===== *)
theory Notification
  imports Saga
begin

text \<open>
  The notification service (\<open>notification-service/src/notification/\<close>): one consumer that tells the
  customer of an order's new status through the provider bound to it. \<open>LogNotificationSender\<close>
  always sends; another provider may reject, which is the argument of the handler.
\<close>

fun status_text :: "OrderStatus \<Rightarrow> string" where
  "status_text PENDING = ''PENDING''"
| "status_text INVENTORY_RESERVED = ''INVENTORY_RESERVED''"
| "status_text COMPLETED = ''COMPLETED''"
| "status_text CANCELLED = ''CANCELLED''"

text \<open>What has been sent: customer and message.\<close>

type_synonym notification = "string \<times> string"

definition send :: "exn option \<Rightarrow> string \<Rightarrow> string \<Rightarrow> notification list \<Rightarrow> notification list result" where
  "send fault customerId message box = attempt fault (Inr (box @ [(customerId, message)]))"

definition handleOrderStatusChanged :: "exn option \<Rightarrow> OrderStatusChangedEvent \<Rightarrow> notification list \<Rightarrow> notification list" where
  "handleOrderStatusChanged fault event box =
     (case send fault (sc_customerId event)
         (''Order '' @ sc_orderId event @ '' is now '' @ status_text (sc_status event)) box of
        Inl _ \<Rightarrow> box
      | Inr box' \<Rightarrow> box')"

text \<open>The consumer over a list of publications: it is bound to \<open>order.status-changed\<close>.\<close>

definition notify :: "publication \<Rightarrow> notification list \<Rightarrow> notification list" where
  "notify m box = (case body m of
     StatusChanged event \<Rightarrow>
       if to_exchange m = EXCHANGE \<and> routing_key m = ''order.status-changed''
       then handleOrderStatusChanged None event box else box
   | _ \<Rightarrow> box)"

text \<open>The customer is told: when the saga ends an order, setting the status and delivering what it
  publishes sends exactly one message, to the customer of that order and with its new status; the
  intermediate status INVENTORY_RESERVED sends none, and a sender that fails stops nothing.\<close>
theorem customer_is_told:
  assumes "findOrder oid (order_db s) = Some order"
  shows "fold notify (drop (length (saga_sent s)) (saga_sent (setStatus no_saga_faults oid status s))) box =
      (if status = COMPLETED \<or> status = CANCELLED
       then box @ [(order_customerId order, ''Order '' @ oid @ '' is now '' @ status_text status)] else box) \<and>
    handleOrderStatusChanged (Some e) event box = box"
  by (simp add: setStatus_ok [OF assms] notify_def status_message_def publication_def handleOrderStatusChanged_def send_def)

theorem customer_is_told_witness:
  "fold notify (saga_sent (setStatus no_saga_faults ''o1'' CANCELLED \<lparr>order_db = \<lparr>orders = [\<lparr>order_id = ''o1'',
      order_customerId = ''c1'', order_items = [], order_total = js_int 0, order_status = PENDING,
      order_createdAt = ''''\<rparr>], outbox_events = []\<rparr>, saga_sent = [], world = ()\<rparr>)) [] =
     [(''c1'', ''Order o1 is now CANCELLED'')]"
  using customer_is_told [of "''o1''" "\<lparr>order_db = \<lparr>orders = [\<lparr>order_id = ''o1'',
      order_customerId = ''c1'', order_items = [], order_total = js_int 0, order_status = PENDING,
      order_createdAt = ''''\<rparr>], outbox_events = []\<rparr>, saga_sent = [], world = ()\<rparr>" _ CANCELLED "[]"]
  by simp

end
