(* ===== verification/Doubles.thy ===== *)
theory Doubles
  imports JS_Number
begin

text \<open>
  The numbers a JavaScript value can hold, as a predicate on \<open>js_number\<close>, and the proof that they are
  closed under the arithmetic of the services: a rounded result is a fixed point of the rounding.
\<close>

text \<open>The finite ones are the rationals that rounding leaves alone.\<close>

fun js_double :: "js_number \<Rightarrow> bool" where
  "js_double (Fin q) = (round_double \<bar>q\<bar> = Fin \<bar>q\<bar>)"
| "js_double _ = True"

section \<open>Powers of two\<close>

lemma pow2_powi: "pow2 e = 2 powi e"
  by (simp add: pow2_def power_int_def flip: power_inverse)

lemma pow2_add: "pow2 (a + b) = pow2 a * pow2 b"
  by (simp add: pow2_powi power_int_add)

lemma pow2_less: "pow2 a < pow2 b \<Longrightarrow> a < b"
proof (rule ccontr)
  assume "pow2 a < pow2 b" and "\<not> a < b"
  then have "pow2 b * pow2 (a - b) < pow2 b" by (simp flip: pow2_add)
  moreover have "1 \<le> pow2 (a - b)" using \<open>\<not> a < b\<close> by (simp add: pow2_def)
  moreover have "0 < pow2 b" by simp
  ultimately show False by (simp add: mult_less_cancel_left1)
qed

lemma pow2_mono: "a \<le> b \<Longrightarrow> pow2 a \<le> pow2 b"
  using pow2_less [of b a] by fastforce

lemma pow2_nat: "0 \<le> e \<Longrightarrow> pow2 e = of_int (2 ^ nat e)"
  by (simp add: pow2_def)

lemma flog2_bounds:
  assumes "0 < q"
  shows "pow2 (flog2 q) \<le> q" and "q < pow2 (flog2 q + 1)"
proof -
  have "pow2 (flog2 q) \<le> q \<and> q < pow2 (flog2 q + 1)"
  proof (cases "1 \<le> q")
    case True
    let ?l = "ilog2 \<lfloor>q\<rfloor>"
    have f: "0 < \<lfloor>q\<rfloor>" using True by simp
    then have "2 ^ nat ?l \<le> \<lfloor>q\<rfloor>" and "\<lfloor>q\<rfloor> + 1 \<le> 2 ^ Suc (nat ?l)"
      using ilog2_bounds [OF f] by simp_all
    then have "of_int (2 ^ nat ?l) \<le> (of_int \<lfloor>q\<rfloor> :: rat)" and "of_int (\<lfloor>q\<rfloor> + 1) \<le> (of_int (2 ^ Suc (nat ?l)) :: rat)"
      by (simp_all only: of_int_le_iff)
    moreover have "pow2 ?l = of_int (2 ^ nat ?l)" "pow2 (?l + 1) = of_int (2 ^ Suc (nat ?l))"
      using ilog2_nonneg [of "\<lfloor>q\<rfloor>"] by (simp_all add: pow2_nat nat_add_distrib)
    moreover have "flog2 q = ?l" using True by (simp add: flog2_def)
    moreover have "of_int \<lfloor>q\<rfloor> \<le> q" and "q < of_int (\<lfloor>q\<rfloor> + 1)" by (rule of_int_floor_le, linarith)
    ultimately have "pow2 ?l \<le> q" and "q < pow2 (?l + 1)" by linarith+
    then show ?thesis by (simp only: \<open>flog2 q = ?l\<close> simp_thms)
  next
    case False
    define y where "y = inverse q"
    define m where "m = \<lceil>y\<rceil>"
    let ?t = "ilog2 (m - 1)"
    have y: "1 < y" using assms False by (simp add: y_def one_less_inverse_iff)
    then have "1 < m" by (simp add: m_def less_ceiling_iff)
    then have flog: "flog2 q = - (?t + 1)" using False by (simp add: flog2_def Let_def m_def y_def)
    have "2 ^ nat ?t \<le> m - 1" and "m \<le> 2 ^ Suc (nat ?t)"
      using ilog2_bounds [of "m - 1"] \<open>1 < m\<close> by simp_all
    then have "of_int (2 ^ nat ?t) \<le> (of_int (m - 1) :: rat)" and "of_int m \<le> (of_int (2 ^ Suc (nat ?t)) :: rat)"
      by (simp_all only: of_int_le_iff)
    moreover have "of_int (m - 1) < y" and "y \<le> of_int m" by (simp_all add: m_def) linarith
    moreover have "pow2 ?t = of_int (2 ^ nat ?t)" "pow2 (?t + 1) = of_int (2 ^ Suc (nat ?t))"
      using ilog2_nonneg [of "m - 1"] by (simp_all add: pow2_nat nat_add_distrib)
    ultimately have "pow2 ?t < y" and "y \<le> pow2 (?t + 1)" by linarith+
    then have "inverse (pow2 (?t + 1)) \<le> inverse y" and "inverse y < inverse (pow2 ?t)"
      using y by (simp_all add: le_imp_inverse_le less_imp_inverse_less)
    moreover have "inverse (pow2 (?t + 1)) = pow2 (flog2 q)" "inverse (pow2 ?t) = pow2 (flog2 q + 1)"
      unfolding flog by (simp_all add: pow2_powi power_int_minus [symmetric])
    ultimately show ?thesis by (simp add: y_def)
  qed
  then show "pow2 (flog2 q) \<le> q" and "q < pow2 (flog2 q + 1)" by simp_all
qed

section \<open>Rounded numbers are doubles\<close>

lemma rne_le: "\<bar>x\<bar> < of_int n \<Longrightarrow> \<bar>rne x\<bar> \<le> n"
proof -
  assume "\<bar>x\<bar> < of_int n"
  then have "\<lfloor>x\<rfloor> < n" and "- n \<le> \<lfloor>x\<rfloor>" by linarith+
  then show ?thesis by (auto simp: rne_def Let_def)
qed

lemma rounds_to_itself:
  assumes "x = of_int m * pow2 (ulp_exp x)" and "0 < x" and "x \<le> max_finite"
  shows "round_double x = Fin x"
proof -
  have "x / pow2 (ulp_exp x) = of_int m"
    using assms(1) pow2_pos [of "ulp_exp x"] by (metis less_irrefl nonzero_mult_div_cancel_right)
  then show ?thesis
    using assms by (simp add: round_double_def Let_def flip: assms(1))
qed

lemma scaled_integer_is_double:
  assumes "0 < m" and "m \<le> 2 ^ 53" and "- 1074 \<le> e" and "of_int m * pow2 e \<le> max_finite"
  shows "round_double (of_int m * pow2 e) = Fin (of_int m * pow2 e)"
proof -
  define x where "x = of_int m * pow2 e"
  have x: "0 < x" using assms(1) by (simp add: x_def)
  note bounds = flog2_bounds [OF x]
  have ulp: "ulp_exp x = max (flog2 x - 52) (- 1074)" using x by (simp add: ulp_exp_def)
  have "\<exists>k. x = of_int k * pow2 (ulp_exp x)"
  proof (cases "m = 2 ^ 53")
    case True
    then have p: "x = pow2 (53 + e)" by (simp add: x_def pow2_add) (simp add: pow2_def)
    have "flog2 x < 53 + e + 1" and "53 + e < flog2 x + 1"
      using bounds pow2_less [of "flog2 x" "53 + e + 1"] pow2_less [of "53 + e" "flog2 x + 1"] p
      by (simp_all add: pow2_add) (simp add: pow2_def)
    then have "ulp_exp x = e + 1" using assms(3) ulp by simp
    then have "x = pow2 52 * pow2 (ulp_exp x)" using p by (simp flip: pow2_add)
    also have "pow2 52 = of_int (2 ^ 52)" by (simp add: pow2_def)
    finally show ?thesis by blast
  next
    case False
    with assms(2) have "m + 1 \<le> 2 ^ 53" by simp
    then have "(of_int (m + 1) :: rat) \<le> of_int (2 ^ 53)" by (simp only: of_int_le_iff)
    then have "x < of_int (2 ^ 53) * pow2 e" unfolding x_def by (intro mult_strict_right_mono) simp_all
    also have "\<dots> = pow2 (53 + e)" by (simp add: pow2_add) (simp add: pow2_def)
    finally have "flog2 x < 53 + e" using bounds pow2_less by fastforce
    then have "ulp_exp x \<le> e" using assms(3) ulp by simp
    have "pow2 e = pow2 (e - ulp_exp x) * pow2 (ulp_exp x)" by (simp flip: pow2_add)
    with \<open>ulp_exp x \<le> e\<close> have "pow2 e = of_int (2 ^ nat (e - ulp_exp x)) * pow2 (ulp_exp x)"
      using pow2_nat [of "e - ulp_exp x"] by simp
    then have "x = of_int (m * 2 ^ nat (e - ulp_exp x)) * pow2 (ulp_exp x)"
      by (simp add: x_def)
    then show ?thesis by blast
  qed
  then obtain k where "x = of_int k * pow2 (ulp_exp x)" ..
  then have "round_double x = Fin x"
    using x assms(4) by (intro rounds_to_itself) (simp_all add: x_def)
  then show ?thesis by (simp add: x_def)
qed

lemma round_double_js_double: "js_double (round_double q)"
proof (cases "round_double q")
  case (Fin r)
  show ?thesis
  proof (cases "q = 0 \<or> r = 0")
    case True
    with Fin show ?thesis by (auto simp: round_double_def)
  next
    case False
    define e where "e = ulp_exp q"
    define m where "m = rne (q / pow2 e)"
    have r: "r = of_int m * pow2 e" and small: "\<bar>r\<bar> \<le> max_finite"
      using Fin False by (auto simp: round_double_def Let_def e_def m_def split: if_splits)
    have "\<bar>q\<bar> < pow2 (flog2 \<bar>q\<bar> + 1)" using False by (intro flog2_bounds) simp
    also have "\<dots> \<le> pow2 (53 + e)" by (rule pow2_mono) (simp add: e_def ulp_exp_def)
    also have "\<dots> = of_int (2 ^ 53) * pow2 e" by (simp add: pow2_add) (simp add: pow2_def)
    finally have "\<bar>q / pow2 e\<bar> < of_int (2 ^ 53)"
      using pow2_pos [of e] by (simp add: abs_divide pos_divide_less_eq)
    then have "\<bar>m\<bar> \<le> 2 ^ 53" unfolding m_def by (rule rne_le)
    moreover have abs: "\<bar>r\<bar> = of_int \<bar>m\<bar> * pow2 e" using pow2_pos [of e] by (simp add: r abs_mult del: pow2_pos)
    moreover have "0 < \<bar>m\<bar>" using False r by auto
    moreover have "- 1074 \<le> e" by (simp add: e_def ulp_exp_def)
    ultimately have "round_double \<bar>r\<bar> = Fin \<bar>r\<bar>"
      using scaled_integer_is_double [of "\<bar>m\<bar>" e] small by simp
    with Fin show ?thesis by simp
  qed
qed simp_all

lemma js_add_double: "js_double (js_add x y)"
  by (cases "(x, y)" rule: js_add.cases) (simp_all add: round_double_js_double)

lemma js_mul_double: "js_double (js_mul x y)"
  by (cases "(x, y)" rule: js_mul.cases) (simp_all add: round_double_js_double js_sign_inf_def)

lemma js_int_double: "\<bar>n\<bar> < 2 ^ 53 \<Longrightarrow> js_double (js_int n)"
  using round_double_int [of "\<bar>n\<bar>"] by (simp add: js_int_def)

end
