(* ===== verification/Number_Text.thy ===== *)
theory Number_Text
  imports Doubles
begin

text \<open>
  Numbers as text: \<open>Number.prototype.toString\<close>, which \<open>JSON.stringify\<close> and template strings use,
  and the number literals of \<open>JSON.parse\<close>. A finite number is printed with the fewest decimal digits
  that round back to it; the theory ends in the proof that reading what was printed gives it back.
\<close>

section \<open>Digits\<close>

definition is_digit :: "char \<Rightarrow> bool" where
  "is_digit c \<longleftrightarrow> c \<in> set ''0123456789''"

definition digit_value :: "char \<Rightarrow> nat" where
  "digit_value c = of_char c - 48"

text \<open>A digit of a base up to sixteen.\<close>

definition hex_value :: "char \<Rightarrow> nat option" where
  "hex_value c = (if is_digit c then Some (digit_value c)
     else if c \<in> set ''abcdef'' then Some (of_char c - 87)
     else if c \<in> set ''ABCDEF'' then Some (of_char c - 55) else None)"

definition nat_of_digits :: "string \<Rightarrow> nat" where
  "nat_of_digits ds = foldl (\<lambda>n c. 10 * n + digit_value c) 0 ds"

lemma nat_of_digits_snoc [simp]: "nat_of_digits (ds @ [c]) = 10 * nat_of_digits ds + digit_value c"
  by (simp add: nat_of_digits_def)

lemma nat_of_digits_Nil [simp]: "nat_of_digits [] = 0"
  by (simp add: nat_of_digits_def)

lemma nat_of_digits_zeros: "nat_of_digits (ds @ replicate n CHR ''0'') = nat_of_digits ds * 10 ^ n"
proof (induction n)
  case (Suc n)
  then show ?case
    using nat_of_digits_snoc [of "ds @ replicate n CHR ''0''" "CHR ''0''"]
    by (simp add: digit_value_def replicate_append_same)
qed simp

lemma nat_of_digits_leading: "nat_of_digits (replicate n CHR ''0'' @ ds) = nat_of_digits ds"
proof (induction ds rule: rev_induct)
  case Nil
  then show ?case using nat_of_digits_zeros [of "[]" n] by simp
next
  case (snoc c ds)
  then show ?case using nat_of_digits_snoc [of "replicate n CHR ''0'' @ ds" c] by simp
qed

lemma less_ten_cases: "(d::nat) < 10 \<Longrightarrow> d \<in> {0, 1, 2, 3, 4, 5, 6, 7, 8, 9}"
  by auto

lemma digit_char:
  assumes "d < 10"
  shows "is_digit (''0123456789'' ! d)" and "digit_value (''0123456789'' ! d) = d"
    and "''0123456789'' ! d = CHR ''0'' \<longleftrightarrow> d = 0"
  using less_ten_cases [OF assms] by (auto simp: is_digit_def digit_value_def)

lemma nat_of_string_of_nat [simp]: "nat_of_digits (string_of_nat n) = n"
proof (induction n rule: string_of_nat.induct)
  case (1 n)
  then show ?case
    using digit_char(2) [of n] digit_char(2) [of "n mod 10"] nat_of_digits_snoc [of "[]" "''0123456789'' ! n"]
    by (subst string_of_nat.simps) (simp del: nth_Cons_numeral)
qed

lemma digits_string_of_nat: "\<forall>c \<in> set (string_of_nat n). is_digit c"
proof (induction n rule: string_of_nat.induct)
  case (1 n)
  then show ?case
    using digit_char(1) [of n] digit_char(1) [of "n mod 10"] by (subst string_of_nat.simps) auto
qed

lemma string_of_nat_nonempty [simp]: "string_of_nat n \<noteq> []"
  by (subst string_of_nat.simps) simp

lemma string_of_nat_hd: "0 < n \<Longrightarrow> hd (string_of_nat n) \<noteq> CHR ''0''"
proof (induction n rule: string_of_nat.induct)
  case (1 n)
  then show ?case
    using digit_char(3) [of n] by (subst string_of_nat.simps) auto
qed

section \<open>Printing\<close>

text \<open>The text of \<open>s * 10 ^ q\<close>, where the digits of \<open>s\<close> end in none or a single zero.\<close>

definition decimal_text :: "nat \<Rightarrow> int \<Rightarrow> string" where
  "decimal_text s q = (let ds = string_of_nat s; k = int (length ds); n = q + k; e = n - 1 in
     if k \<le> n \<and> n \<le> 21 then ds @ replicate (nat (n - k)) CHR ''0''
     else if 0 < n \<and> n \<le> 21 then take (nat n) ds @ ''.'' @ drop (nat n) ds
     else if - 6 < n \<and> n \<le> 0 then ''0.'' @ replicate (nat (- n)) CHR ''0'' @ ds
     else (if k = 1 then ds else take 1 ds @ ''.'' @ drop 1 ds) @ ''e'' @
       (if e < 0 then ''-'' else ''+'') @ string_of_nat (nat \<bar>e\<bar>))"

text \<open>The \<open>n\<close> with \<open>10 ^ (n - 1) \<le> x < 10 ^ n\<close>.\<close>

definition decimal_exponent :: "rat \<Rightarrow> int" where
  "decimal_exponent x = (if 1 \<le> x then int (length (string_of_nat (nat \<lfloor>x\<rfloor>)))
     else 1 - int (length (string_of_nat (nat \<lceil>inverse x\<rceil> - 1))))"

text \<open>The nearest of the \<open>k\<close>-digit decimals that round to \<open>x\<close>, if there is one: it is next to \<open>x\<close>.\<close>

definition digits_at :: "rat \<Rightarrow> nat \<Rightarrow> (nat \<times> int) option" where
  "digits_at x k = (let q = decimal_exponent x - int k; y = x / 10 powi q; f = nat \<lfloor>y\<rfloor>; d = y - of_nat f;
       rounds = (\<lambda>s. round_double (of_nat s * 10 powi q) = Fin x);
       upper = (if Suc f = 10 ^ k then (1, q + int k) else (Suc f, q)) in
     if rounds f \<and> (\<not> rounds (Suc f) \<or> d < 1 / 2 \<or> d = 1 / 2 \<and> even f) then Some (f, q)
     else if rounds (Suc f) then Some upper else None)"

fun shortest_digits :: "nat \<Rightarrow> rat \<Rightarrow> nat \<Rightarrow> (nat \<times> int) option" where
  "shortest_digits 0 x k = None"
| "shortest_digits (Suc fuel) x k = (case digits_at x k of
     Some r \<Rightarrow> Some r
   | None \<Rightarrow> shortest_digits fuel x (Suc k))"

text \<open>Seventeen digits are enough for every double; the bound used is the number of digits of its
  exact decimal expansion.\<close>

definition positive_text :: "rat \<Rightarrow> string" where
  "positive_text x = (case shortest_digits (nat (max 1 (decimal_exponent x + 1074))) x 1 of
     Some (s, q) \<Rightarrow> decimal_text s q
   | None \<Rightarrow> [])"

fun js_toString :: "js_number \<Rightarrow> string" where
  "js_toString NaN = ''NaN''"
| "js_toString PosInf = ''Infinity''"
| "js_toString NegInf = ''-Infinity''"
| "js_toString (Fin q) = (if q = 0 then ''0'' else if q < 0 then ''-'' @ positive_text (- q) else positive_text q)"

section \<open>Reading\<close>

text \<open>A JSON number: the value and the rest of the text, or nothing for a syntax error.\<close>

definition read_exponent :: "string \<Rightarrow> (int \<times> string) option" where
  "read_exponent s = (case s of
     c # r \<Rightarrow> (if c \<in> {CHR ''e'', CHR ''E''} then
         (let (neg, t) = (case r of d # t \<Rightarrow> if d = CHR ''-'' then (True, t) else if d = CHR ''+'' then (False, t) else (False, r)
              | [] \<Rightarrow> (False, []));
            ds = takeWhile is_digit t; v = int (nat_of_digits ds) in
          if ds = [] then None else Some (if neg then - v else v, dropWhile is_digit t))
       else Some (0, s))
   | [] \<Rightarrow> Some (0, []))"

definition read_fraction :: "string \<Rightarrow> (string \<times> string) option" where
  "read_fraction s = (case s of
     c # r \<Rightarrow> (if c = CHR ''.'' then
         (if takeWhile is_digit r = [] then None else Some (takeWhile is_digit r, dropWhile is_digit r))
       else Some ([], s))
   | [] \<Rightarrow> Some ([], []))"

definition read_integer :: "string \<Rightarrow> (string \<times> string) option" where
  "read_integer s = (case s of
     c # r \<Rightarrow> (if c = CHR ''0'' then Some (''0'', r)
       else if is_digit c then Some (takeWhile is_digit s, dropWhile is_digit s) else None)
   | [] \<Rightarrow> None)"

definition read_unsigned :: "string \<Rightarrow> (js_number \<times> string) option" where
  "read_unsigned s = (case read_integer s of
     None \<Rightarrow> None
   | Some (ip, r) \<Rightarrow> (case read_fraction r of
       None \<Rightarrow> None
     | Some (fp, r') \<Rightarrow> (case read_exponent r' of
         None \<Rightarrow> None
       | Some (e, r'') \<Rightarrow>
           Some (round_double (of_nat (nat_of_digits (ip @ fp)) * 10 powi (e - int (length fp))), r''))))"

fun js_negate :: "js_number \<Rightarrow> js_number" where
  "js_negate NaN = NaN"
| "js_negate PosInf = NegInf"
| "js_negate NegInf = PosInf"
| "js_negate (Fin q) = Fin (- q)"

definition read_number :: "string \<Rightarrow> (js_number \<times> string) option" where
  "read_number s = (case s of
     c # r \<Rightarrow> (if c = CHR ''-'' then map_option (\<lambda>(x, r'). (js_negate x, r')) (read_unsigned r) else read_unsigned s)
   | [] \<Rightarrow> None)"

text \<open>What may follow a number without being read as part of it.\<close>

definition ends_number :: "string \<Rightarrow> bool" where
  "ends_number r \<longleftrightarrow> (case r of c # _ \<Rightarrow> \<not> is_digit c \<and> c \<notin> {CHR ''.'', CHR ''e'', CHR ''E''} | [] \<Rightarrow> True)"

lemma zero_digit: "is_digit CHR ''0''"
  by (simp add: is_digit_def)

lemma takeWhile_digits:
  assumes "\<forall>c \<in> set ds. is_digit c" and "r = [] \<or> \<not> is_digit (hd r)"
  shows "takeWhile is_digit (ds @ r) = ds" and "dropWhile is_digit (ds @ r) = r"
  using assms by (cases r; simp)+

lemma read_integer_digits:
  assumes "ds \<noteq> []" and "\<forall>c \<in> set ds. is_digit c" and "hd ds \<noteq> CHR ''0''" and "r = [] \<or> \<not> is_digit (hd r)"
  shows "read_integer (ds @ r) = Some (ds, r)"
  using assms takeWhile_digits [OF assms(2,4)] by (cases ds) (simp_all add: read_integer_def)

lemma read_fraction_none: "ends_number r \<or> (\<exists>t. r = CHR ''e'' # t) \<Longrightarrow> read_fraction r = Some ([], r)"
  by (auto simp: read_fraction_def ends_number_def split: list.splits)

lemma read_fraction_digits:
  assumes "ds \<noteq> []" and "\<forall>c \<in> set ds. is_digit c" and "r = [] \<or> \<not> is_digit (hd r)"
  shows "read_fraction (CHR ''.'' # ds @ r) = Some (ds, r)"
  using assms takeWhile_digits [OF assms(2,3)] by (simp add: read_fraction_def)

lemma read_exponent_none: "ends_number r \<Longrightarrow> read_exponent r = Some (0, r)"
  by (auto simp: read_exponent_def ends_number_def split: list.splits)

lemma ends_not_digit: "ends_number r \<Longrightarrow> r = [] \<or> \<not> is_digit (hd r)"
  by (cases r) (simp_all add: ends_number_def)

lemma read_exponent_text:
  assumes "ends_number r"
  shows "read_exponent (CHR ''e'' # (if e < 0 then ''-'' else ''+'') @ string_of_nat (nat \<bar>e\<bar>) @ r) = Some (e, r)"
  using takeWhile_digits [OF digits_string_of_nat ends_not_digit [OF assms]]
  by (simp add: read_exponent_def Let_def)


section \<open>Reading what was printed\<close>

lemma decimal_text_cases:
  assumes "0 < s"
  defines "ds \<equiv> string_of_nat s"
  obtains
    (whole) m where "decimal_text s q = ds @ replicate m CHR ''0''" and "q = int m"
  | (point) a b where "decimal_text s q = a @ CHR ''.'' # b" and "ds = a @ b" and "a \<noteq> []" and "b \<noteq> []"
      and "q = - int (length b)"
  | (small) m where "decimal_text s q = CHR ''0'' # CHR ''.'' # replicate m CHR ''0'' @ ds"
      and "q = - int (m + length ds)"
  | (exponent) a b e where "decimal_text s q = a @ (if b = [] then [] else CHR ''.'' # b) @
        CHR ''e'' # (if e < 0 then ''-'' else ''+'') @ string_of_nat (nat \<bar>e\<bar>)"
      and "ds = a @ b" and "a \<noteq> []" and "q = e - int (length b)"
proof -
  let ?k = "int (length ds)" and ?n = "q + int (length ds)"
  have ds: "ds \<noteq> []" by (simp add: ds_def)
  show thesis
  proof (cases "?k \<le> ?n \<and> ?n \<le> 21")
    case True
    then have "decimal_text s q = ds @ replicate (nat q) CHR ''0''"
      by (simp add: decimal_text_def Let_def ds_def)
    with True show thesis using whole [of "nat q"] by simp
  next
    case not_whole: False
    show thesis
    proof (cases "0 < ?n \<and> ?n \<le> 21")
      case True
      with not_whole have "?n < ?k" by linarith
      have "decimal_text s q = take (nat ?n) ds @ CHR ''.'' # drop (nat ?n) ds"
        using True not_whole by (simp add: decimal_text_def Let_def ds_def)
      moreover have "int (length (drop (nat ?n) ds)) = - q"
        using True \<open>?n < ?k\<close> by simp
      ultimately show thesis
        using point [of "take (nat ?n) ds" "drop (nat ?n) ds"] True \<open>?n < ?k\<close> ds by (simp add: not_le nat_less_iff)
    next
      case not_point: False
      show thesis
      proof (cases "- 6 < ?n \<and> ?n \<le> 0")
        case True
        then have "decimal_text s q = CHR ''0'' # CHR ''.'' # replicate (nat (- ?n)) CHR ''0'' @ ds"
          using not_whole not_point by (simp add: decimal_text_def Let_def ds_def)
        with True show thesis using small [of "nat (- ?n)"] by simp
      next
        case False
        have "decimal_text s q = take 1 ds @ (if drop 1 ds = [] then [] else CHR ''.'' # drop 1 ds) @
            CHR ''e'' # (if ?n - 1 < 0 then ''-'' else ''+'') @ string_of_nat (nat \<bar>?n - 1\<bar>)"
          using not_whole not_point False ds by (cases ds) (auto simp: decimal_text_def Let_def simp flip: ds_def)
        moreover have "q = ?n - 1 - int (length (drop 1 ds))"
          using ds by (cases ds) simp_all
        ultimately show thesis
          using exponent [of "take 1 ds" "drop 1 ds" "?n - 1"] ds by simp
      qed
    qed
  qed
qed

lemma read_unsignedI:
  assumes "read_integer t = Some (ip, r1)" and "read_fraction r1 = Some (fp, r2)" and "read_exponent r2 = Some (e, r)"
    and "nat_of_digits (ip @ fp) * 10 ^ m = s * 10 ^ m'" and "e - int (length fp) + int m' = q + int m"
  shows "read_unsigned t = Some (round_double (of_nat s * 10 powi q), r)"
proof -
  have "(of_nat (nat_of_digits (ip @ fp)) * 10 powi (e - int (length fp)) :: rat) * 10 ^ m * 10 ^ m' =
      of_nat (nat_of_digits (ip @ fp) * 10 ^ m) * 10 powi (e - int (length fp) + int m')"
    by (simp add: power_int_add)
  also have "\<dots> = of_nat s * 10 powi q * 10 ^ m * 10 ^ m'"
    unfolding assms(4,5) by (simp add: power_int_add)
  finally have "(of_nat (nat_of_digits (ip @ fp)) * 10 powi (e - int (length fp)) :: rat) = of_nat s * 10 powi q"
    by simp
  with assms(1-3) show ?thesis by (simp add: read_unsigned_def)
qed

lemma read_decimal_text:
  assumes "0 < s" and "ends_number r"
  shows "read_unsigned (decimal_text s q @ r) = Some (round_double (of_nat s * 10 powi q), r)"
  using assms(1)
proof (cases rule: decimal_text_cases [of s q])
  case (whole m)
  let ?ip = "string_of_nat s @ replicate m CHR ''0''"
  show ?thesis
  proof (rule read_unsignedI)
    show "read_integer (decimal_text s q @ r) = Some (?ip, r)"
      unfolding whole(1)
    proof (rule read_integer_digits)
      show "\<forall>c \<in> set ?ip. is_digit c"
        using digits_string_of_nat [of s] zero_digit by auto
      show "hd ?ip \<noteq> CHR ''0''" using string_of_nat_hd [OF assms(1)] by simp
    qed (simp_all add: ends_not_digit [OF assms(2)])
    show "read_fraction r = Some ([], r)" using assms(2) by (intro read_fraction_none disjI1)
    show "read_exponent r = Some (0, r)" using assms(2) by (rule read_exponent_none)
    show "nat_of_digits (?ip @ []) * 10 ^ 0 = s * 10 ^ m" by (simp add: nat_of_digits_zeros)
    show "0 - int (length []) + int m = q + int 0" using whole(2) by simp
  qed
next
  case (point a b)
  have digits: "\<forall>c \<in> set a. is_digit c" "\<forall>c \<in> set b. is_digit c" "hd a \<noteq> CHR ''0''"
    using digits_string_of_nat [of s] string_of_nat_hd [OF assms(1)] point by auto
  show ?thesis
  proof (rule read_unsignedI)
    have "read_integer (a @ (CHR ''.'' # b) @ r) = Some (a, (CHR ''.'' # b) @ r)"
      using digits point by (intro read_integer_digits) (auto simp: is_digit_def)
    then show "read_integer (decimal_text s q @ r) = Some (a, CHR ''.'' # b @ r)"
      by (simp add: point(1))
    show "read_fraction (CHR ''.'' # b @ r) = Some (b, r)"
      using digits point ends_not_digit [OF assms(2)] by (intro read_fraction_digits)
    show "read_exponent r = Some (0, r)" using assms(2) by (rule read_exponent_none)
    show "nat_of_digits (a @ b) * 10 ^ 0 = s * 10 ^ 0" by (simp flip: point(2))
    show "0 - int (length b) + int 0 = q + int 0" using point by simp
  qed
next
  case (small m)
  let ?fp = "replicate m CHR ''0'' @ string_of_nat s"
  show ?thesis
  proof (rule read_unsignedI)
    show "read_integer (decimal_text s q @ r) = Some (''0'', CHR ''.'' # ?fp @ r)"
      by (simp add: small(1) read_integer_def)
    show "read_fraction (CHR ''.'' # ?fp @ r) = Some (?fp, r)"
      using digits_string_of_nat [of s] ends_not_digit [OF assms(2)] zero_digit
      by (intro read_fraction_digits) auto
    show "read_exponent r = Some (0, r)" using assms(2) by (rule read_exponent_none)
    show "nat_of_digits (''0'' @ ?fp) * 10 ^ 0 = s * 10 ^ 0"
      using nat_of_digits_leading [of "Suc m" "string_of_nat s"] by simp
    show "0 - int (length ?fp) + int 0 = q + int 0" using small by simp
  qed
next
  case (exponent a b e)
  have digits: "\<forall>c \<in> set a. is_digit c" "\<forall>c \<in> set b. is_digit c" "hd a \<noteq> CHR ''0''"
    using digits_string_of_nat [of s] string_of_nat_hd [OF assms(1)] exponent by auto
  let ?e = "CHR ''e'' # (if e < 0 then ''-'' else ''+'') @ string_of_nat (nat \<bar>e\<bar>) @ r"
  let ?f = "(if b = [] then [] else CHR ''.'' # b) @ ?e"
  show ?thesis
  proof (rule read_unsignedI)
    have "read_integer (a @ ?f) = Some (a, ?f)"
      using digits exponent by (intro read_integer_digits) (auto simp: is_digit_def)
    then show "read_integer (decimal_text s q @ r) = Some (a, ?f)"
      by (simp add: exponent(1))
    show "read_fraction ?f = Some (b, ?e)"
      using digits read_fraction_none [of ?e] read_fraction_digits [of b ?e] by (cases "b = []") (auto simp: is_digit_def)
    show "read_exponent ?e = Some (e, r)" using assms(2) by (rule read_exponent_text)
    show "nat_of_digits (a @ b) * 10 ^ 0 = s * 10 ^ 0" by (simp flip: exponent(2))
    show "e - int (length b) + int 0 = q + int 0" using exponent by simp
  qed
qed


section \<open>Enough digits\<close>

lemma digits_at_rounds:
  assumes "digits_at x k = Some (s, q)" and "0 < x"
  shows "0 < s" and "round_double (of_nat s * 10 powi q) = Fin x"
proof -
  let ?p = "decimal_exponent x - int k"
  have "of_nat (Suc f) * 10 powi ?p = (10 powi decimal_exponent x :: rat)" if "Suc f = 10 ^ k" for f
  proof -
    have "(10::rat) powi decimal_exponent x = 10 powi (int k + ?p)" by simp
    also have "\<dots> = 10 powi int k * 10 powi ?p" by (rule power_int_add) simp
    finally show ?thesis unfolding that by simp
  qed
  with assms show r: "round_double (of_nat s * 10 powi q) = Fin x"
    by (fastforce simp: digits_at_def Let_def split: if_splits)
  from r assms(2) show "0 < s"
    by (cases s) (simp_all add: round_double_def)
qed

definition subnormal_bits :: nat where
  "subnormal_bits = 1074"

lemma double_is_dyadic:
  assumes "round_double x = Fin x"
  obtains m :: int where "x * 2 ^ subnormal_bits = of_int m"
proof (cases "x = 0")
  case False
  define e where "e = ulp_exp x"
  have "x = of_int (rne (x / pow2 e)) * pow2 e"
    using assms False by (auto simp: round_double_def Let_def e_def split: if_splits)
  moreover have "pow2 e * 2 ^ subnormal_bits = (2::rat) ^ nat (e + int subnormal_bits)"
  proof (cases "0 \<le> e")
    case True
    then show ?thesis by (simp add: pow2_def nat_add_distrib power_add)
  next
    case False
    have "- int subnormal_bits \<le> e" by (simp add: e_def ulp_exp_def subnormal_bits_def)
    with False have "subnormal_bits = nat (e + int subnormal_bits) + nat (- e)" by simp
    then have "(2::rat) ^ subnormal_bits = 2 ^ nat (e + int subnormal_bits) * 2 ^ nat (- e)" by (metis power_add)
    with False show ?thesis by (simp add: pow2_def)
  qed
  ultimately have "x * 2 ^ subnormal_bits = of_int (rne (x / pow2 e)) * 2 ^ nat (e + int subnormal_bits)"
    by (metis mult.assoc)
  then have "x * 2 ^ subnormal_bits = of_int (rne (x / pow2 e) * 2 ^ nat (e + int subnormal_bits))" by simp
  then show thesis by (rule that)
qed (rule that [of 0], simp)

lemma digits_at_exact:
  assumes "round_double x = Fin x" and "0 < x" and "decimal_exponent x + 1074 \<le> int k"
  shows "digits_at x k \<noteq> None"
proof -
  define q where "q = decimal_exponent x - int k"
  define n where "n = nat (- q)"
  have n: "q = - int n" "subnormal_bits \<le> n" using assms(3) by (simp_all add: q_def n_def subnormal_bits_def)
  obtain m where m: "x * 2 ^ subnormal_bits = of_int m" by (rule double_is_dyadic [OF assms(1)])
  have "(10::rat) ^ n = 2 ^ subnormal_bits * (2 ^ (n - subnormal_bits) * 5 ^ n)"
  proof -
    have "(10::rat) ^ n = 2 ^ n * 5 ^ n" by (simp flip: power_mult_distrib)
    also have "(2::rat) ^ n = 2 ^ subnormal_bits * 2 ^ (n - subnormal_bits)" using n(2) by (simp flip: power_add)
    finally show ?thesis by (simp only: mult.assoc)
  qed
  then have "x * 10 ^ n = of_int (m * (2 ^ (n - subnormal_bits) * 5 ^ n))"
    using m by (simp only: of_int_mult of_int_power of_int_numeral mult.assoc [symmetric])
  then obtain z where z: "x * 10 ^ n = of_int z" by blast
  have y: "x / 10 powi q = of_int z" using z by (simp add: n(1) power_int_minus divide_inverse)
  have "0 < z"
  proof -
    have "(0::rat) < of_int z" using assms(2) by (simp flip: z)
    then show ?thesis by simp
  qed
  then have f: "of_nat (nat \<lfloor>x / 10 powi q\<rfloor>) = (of_int z :: rat)" unfolding y by simp
  have "of_nat (nat \<lfloor>x / 10 powi q\<rfloor>) * 10 powi q = x"
    unfolding f using y [symmetric] by simp
  then show ?thesis
    using assms(1) f y by (simp add: digits_at_def Let_def flip: q_def)
qed

lemma shortest_digits_found:
  "digits_at x (k + d) \<noteq> None \<Longrightarrow> d < fuel \<Longrightarrow> \<exists>k' r. shortest_digits fuel x k = Some r \<and> digits_at x k' = Some r"
proof (induction fuel arbitrary: k d)
  case (Suc fuel)
  show ?case
  proof (cases "digits_at x k")
    case None
    with Suc.prems have "d \<noteq> 0" by (cases d) auto
    then obtain d' where "d = Suc d'" by (cases d) auto
    with Suc.prems Suc.IH [of "Suc k" d'] None show ?thesis by simp
  next
    case (Some r)
    then show ?thesis by auto
  qed
qed simp

lemma positive_text_shape:
  assumes "round_double x = Fin x" and "0 < x"
  obtains s q where "positive_text x = decimal_text s q" and "0 < s" and "round_double (of_nat s * 10 powi q) = Fin x"
proof -
  let ?n = "nat (max 1 (decimal_exponent x + 1074))"
  have "digits_at x (1 + (?n - 1)) \<noteq> None"
    by (rule digits_at_exact [OF assms]) (simp add: max_def)
  then obtain k r where "shortest_digits ?n x 1 = Some r" and r: "digits_at x k = Some r"
    using shortest_digits_found [of x 1 "?n - 1" ?n] by auto
  then show thesis
    using that [of "fst r" "snd r"] digits_at_rounds [of x k "fst r" "snd r"] assms(2)
    by (cases r) (simp add: positive_text_def)
qed

lemma read_integer_sign: "read_integer (CHR ''-'' # r) = None"
  by (simp add: read_integer_def is_digit_def)

lemma decimal_text_hd:
  assumes "0 < s"
  shows "decimal_text s q \<noteq> [] \<and> is_digit (hd (decimal_text s q))"
  using assms
proof (cases rule: decimal_text_cases [of s q])
  case small
  then show ?thesis by (simp add: is_digit_def)
qed (use digits_string_of_nat [of s] string_of_nat_nonempty [of s] in
    \<open>auto simp: hd_append simp del: string_of_nat_nonempty dest: hd_in_set\<close>)

lemma read_number_positive:
  assumes "round_double x = Fin x" and "0 < x" and "ends_number r"
  shows "read_unsigned (positive_text x @ r) = Some (Fin x, r)"
    and "positive_text x \<noteq> [] \<and> is_digit (hd (positive_text x))"
proof -
  obtain s q where "positive_text x = decimal_text s q" and "0 < s" and "round_double (of_nat s * 10 powi q) = Fin x"
    by (rule positive_text_shape [OF assms(1,2)])
  then show "read_unsigned (positive_text x @ r) = Some (Fin x, r)"
    and "positive_text x \<noteq> [] \<and> is_digit (hd (positive_text x))"
    using read_decimal_text [OF \<open>0 < s\<close> assms(3)] decimal_text_hd [OF \<open>0 < s\<close>] by simp_all
qed

lemma number_text_hd:
  assumes "js_double (Fin q)"
  shows "js_toString (Fin q) \<noteq> [] \<and> (hd (js_toString (Fin q)) = CHR ''-'' \<or> is_digit (hd (js_toString (Fin q))))"
proof -
  consider "q = 0" | "q < 0" | "0 < q" by linarith
  then show ?thesis
  proof cases
    case 3
    with read_number_positive(2) [of q "[]"] assms show ?thesis by (simp add: ends_number_def)
  qed (simp_all add: is_digit_def)
qed

lemma read_number_toString:
  assumes "js_double (Fin q)" and "ends_number r"
  shows "read_number (js_toString (Fin q) @ r) = Some (Fin q, r)"
proof -
  consider "q = 0" | "q < 0" | "0 < q" by linarith
  then show ?thesis
  proof cases
    case 1
    have "read_unsigned (''0'' @ r) = Some (round_double (of_nat 0 * 10 powi 0), r)"
      using read_unsignedI [of "''0'' @ r" "''0''" r "[]" r 0 r 0 0 0 0] read_fraction_none [of r]
        read_exponent_none [of r] assms(2)
      by (simp add: read_integer_def nat_of_digits_def digit_value_def)
    with 1 show ?thesis by (simp add: read_number_def round_double_def)
  next
    case 2
    then show ?thesis
      using read_number_positive(1) [of "- q" r] assms by (simp add: read_number_def)
  next
    case 3
    then show ?thesis
      using read_number_positive [of q r] assms
      by (cases "positive_text q") (auto simp: read_number_def is_digit_def)
  qed
qed

end
