(* ===== verification/JSON.thy ===== *)
theory JSON
  imports Number_Text
begin

text \<open>
  \<open>JSON.stringify\<close> and \<open>JSON.parse\<close>, which carry every payload: the jsonb columns, the Kafka messages
  of the outbox and the messages of the exchange are JSON text. The characters are the code units 0 to
  255, and an escape of any other code unit is an error of the model. The parser recurses on fuel; that
  its fuel is enough on every text, and that parsing gives back what was stringified, is proved.
\<close>

section \<open>Values\<close>

datatype json =
    JNull
  | JBool bool
  | JNumber js_number
  | JString string
  | JArray "json list"
  | JObject "(string \<times> json) list"

text \<open>The values that text can carry: finite doubles, and objects whose keys are distinct.\<close>

fun json_ok :: "json \<Rightarrow> bool" where
  "json_ok (JNumber x) = (js_double x \<and> x \<notin> {NaN, PosInf, NegInf})"
| "json_ok (JArray xs) = (\<forall>x \<in> set xs. json_ok x)"
| "json_ok (JObject fs) = (distinct (map fst fs) \<and> (\<forall>f \<in> set fs. json_ok (snd f)))"
| "json_ok _ = True"

section \<open>Stringify\<close>

definition hex_digit :: "nat \<Rightarrow> char" where
  "hex_digit d = ''0123456789abcdef'' ! d"

definition escape_char :: "char \<Rightarrow> string" where
  "escape_char c =
     (if c = CHR 0x22 then [CHR 0x5C, CHR 0x22]
      else if c = CHR 0x5C then [CHR 0x5C, CHR 0x5C]
      else if c = CHR 0x08 then [CHR 0x5C, CHR ''b'']
      else if c = CHR 0x0C then [CHR 0x5C, CHR ''f'']
      else if c = CHR 0x0A then [CHR 0x5C, CHR ''n'']
      else if c = CHR 0x0D then [CHR 0x5C, CHR ''r'']
      else if c = CHR 0x09 then [CHR 0x5C, CHR ''t'']
      else let n = of_char c :: nat in
        if n < 32 then [CHR 0x5C, CHR ''u'', CHR ''0'', CHR ''0'', hex_digit (n div 16), hex_digit (n mod 16)]
        else [c])"

definition quote :: "string \<Rightarrow> string" where
  "quote s = CHR 0x22 # concat (map escape_char s) @ [CHR 0x22]"

text \<open>\<open>xs.join(',')\<close>\<close>

fun join_with_comma :: "string list \<Rightarrow> string" where
  "join_with_comma [] = []"
| "join_with_comma [x] = x"
| "join_with_comma (x # xs) = x @ CHR '','' # join_with_comma xs"

fun JSON_stringify :: "json \<Rightarrow> string" where
  "JSON_stringify JNull = ''null''"
| "JSON_stringify (JBool b) = (if b then ''true'' else ''false'')"
| "JSON_stringify (JNumber x) = (if x \<in> {NaN, PosInf, NegInf} then ''null'' else js_toString x)"
| "JSON_stringify (JString s) = quote s"
| "JSON_stringify (JArray xs) = ''['' @ join_with_comma (map JSON_stringify xs) @ '']''"
| "JSON_stringify (JObject fs) =
     ''{'' @ join_with_comma (map (\<lambda>(k, v). quote k @ CHR '':'' # JSON_stringify v) fs) @ ''}''"

section \<open>Parse\<close>

definition SyntaxError :: exn where
  "SyntaxError = Error ''SyntaxError''"

fun skip_ws :: "string \<Rightarrow> string" where
  "skip_ws [] = []"
| "skip_ws (c # r) = (if c \<in> {CHR '' '', CHR 0x09, CHR 0x0A, CHR 0x0D} then skip_ws r else c # r)"

definition read_hex4 :: "char \<Rightarrow> char \<Rightarrow> char \<Rightarrow> char \<Rightarrow> char result" where
  "read_hex4 a b c d = (case (hex_value a, hex_value b, hex_value c, hex_value d) of
     (Some w, Some x, Some y, Some z) \<Rightarrow>
       (if w = 0 \<and> x = 0 then Inr (char_of (16 * y + z)) else Inl (Error ''code unit beyond the model''))
   | _ \<Rightarrow> Inl SyntaxError)"

definition read_escape :: "char \<Rightarrow> char result" where
  "read_escape e =
     (if e \<in> {CHR 0x22, CHR 0x5C, CHR ''/''} then Inr e
      else if e = CHR ''b'' then Inr (CHR 0x08)
      else if e = CHR ''f'' then Inr (CHR 0x0C)
      else if e = CHR ''n'' then Inr (CHR 0x0A)
      else if e = CHR ''r'' then Inr (CHR 0x0D)
      else if e = CHR ''t'' then Inr (CHR 0x09)
      else Inl SyntaxError)"

definition add_char :: "char \<Rightarrow> (string \<times> string) result \<Rightarrow> (string \<times> string) result" where
  "add_char c x = map_sum id (\<lambda>(s, r). (c # s, r)) x"

text \<open>The characters after an opening quote, up to the closing one.\<close>

fun read_chars :: "string \<Rightarrow> (string \<times> string) result" where
  "read_chars [] = Inl SyntaxError"
| "read_chars (c # r) =
     (if c = CHR 0x22 then Inr ([], r)
      else if c = CHR 0x5C then (case r of
          [] \<Rightarrow> Inl SyntaxError
        | e # t \<Rightarrow> (if e = CHR ''u'' then (case t of
              h1 # h2 # h3 # h4 # t' \<Rightarrow> (case read_hex4 h1 h2 h3 h4 of
                Inl x \<Rightarrow> Inl x | Inr u \<Rightarrow> add_char u (read_chars t'))
            | _ \<Rightarrow> Inl SyntaxError)
          else (case read_escape e of Inl x \<Rightarrow> Inl x | Inr u \<Rightarrow> add_char u (read_chars t))))
      else if of_char c < (32 :: nat) then Inl SyntaxError
      else add_char c (read_chars r))"

definition read_literal :: "string \<Rightarrow> json \<Rightarrow> string \<Rightarrow> (json \<times> string) result" where
  "read_literal w v s = (if take (length w) s = w then Inr (v, drop (length w) s) else Inl SyntaxError)"

text \<open>Of several fields with one key the last value stays, in the place of the first.\<close>

fun put_field :: "string \<Rightarrow> json \<Rightarrow> (string \<times> json) list \<Rightarrow> (string \<times> json) list" where
  "put_field k v [] = [(k, v)]"
| "put_field k v ((k', v') # fs) = (if k = k' then (k, v) # fs else (k', v') # put_field k v fs)"

fun parse_value :: "nat \<Rightarrow> string \<Rightarrow> (json \<times> string) result option"
  and parse_elements :: "nat \<Rightarrow> json list \<Rightarrow> string \<Rightarrow> (json \<times> string) result option"
  and parse_members :: "nat \<Rightarrow> (string \<times> json) list \<Rightarrow> string \<Rightarrow> (json \<times> string) result option" where
  "parse_value 0 s = None"
| "parse_value (Suc n) s = (case skip_ws s of
     [] \<Rightarrow> Some (Inl SyntaxError)
   | c # r \<Rightarrow>
       (if c = CHR ''{'' then
          (case skip_ws r of
             d # r' \<Rightarrow> (if d = CHR ''}'' then Some (Inr (JObject [], r')) else parse_members n [] (d # r'))
           | [] \<Rightarrow> Some (Inl SyntaxError))
        else if c = CHR ''['' then
          (case skip_ws r of
             d # r' \<Rightarrow> (if d = CHR '']'' then Some (Inr (JArray [], r')) else parse_elements n [] (d # r'))
           | [] \<Rightarrow> Some (Inl SyntaxError))
        else if c = CHR 0x22 then Some (map_sum id (\<lambda>(t, r'). (JString t, r')) (read_chars r))
        else if c = CHR ''-'' \<or> is_digit c then
          (case read_number (c # r) of None \<Rightarrow> Some (Inl SyntaxError) | Some (x, r') \<Rightarrow> Some (Inr (JNumber x, r')))
        else if c = CHR ''t'' then Some (read_literal ''true'' (JBool True) (c # r))
        else if c = CHR ''f'' then Some (read_literal ''false'' (JBool False) (c # r))
        else Some (read_literal ''null'' JNull (c # r))))"
| "parse_elements 0 acc s = None"
| "parse_elements (Suc n) acc s = (case parse_value n s of
     None \<Rightarrow> None
   | Some (Inl e) \<Rightarrow> Some (Inl e)
   | Some (Inr (v, r)) \<Rightarrow> (case skip_ws r of
       [] \<Rightarrow> Some (Inl SyntaxError)
     | c # r' \<Rightarrow> (if c = CHR '','' then parse_elements n (acc @ [v]) r'
         else if c = CHR '']'' then Some (Inr (JArray (acc @ [v]), r'))
         else Some (Inl SyntaxError))))"
| "parse_members 0 acc s = None"
| "parse_members (Suc n) acc s = (case skip_ws s of
     [] \<Rightarrow> Some (Inl SyntaxError)
   | q # t \<Rightarrow> (if q \<noteq> CHR 0x22 then Some (Inl SyntaxError)
     else case read_chars t of
       Inl e \<Rightarrow> Some (Inl e)
     | Inr (k, t') \<Rightarrow> (case skip_ws t' of
         [] \<Rightarrow> Some (Inl SyntaxError)
       | d # t'' \<Rightarrow> (if d \<noteq> CHR '':'' then Some (Inl SyntaxError)
         else case parse_value n t'' of
           None \<Rightarrow> None
         | Some (Inl e) \<Rightarrow> Some (Inl e)
         | Some (Inr (v, r)) \<Rightarrow> (case skip_ws r of
             [] \<Rightarrow> Some (Inl SyntaxError)
           | c # r' \<Rightarrow> (if c = CHR '','' then parse_members n (put_field k v acc) r'
               else if c = CHR ''}'' then Some (Inr (JObject (put_field k v acc), r'))
               else Some (Inl SyntaxError)))))))"

definition json_fuel :: "string \<Rightarrow> nat" where
  "json_fuel s = 2 * length s + 1"

text \<open>The text is one value between white space.\<close>

definition parse_text :: "nat \<Rightarrow> string \<Rightarrow> json result option" where
  "parse_text n s = (case parse_value n s of
     None \<Rightarrow> None
   | Some (Inl e) \<Rightarrow> Some (Inl e)
   | Some (Inr (v, r)) \<Rightarrow> Some (if skip_ws r = [] then Inr v else Inl SyntaxError))"

definition JSON_parse :: "string \<Rightarrow> json result" where
  "JSON_parse s = (case parse_text (json_fuel s) s of Some r \<Rightarrow> r | None \<Rightarrow> Inl SyntaxError)"

section \<open>Termination\<close>

lemma skip_ws_length: "length (skip_ws s) \<le> length s"
  by (induction s) simp_all

lemma skip_ws_Cons_length: "skip_ws s = c # r \<Longrightarrow> length r < length s"
  using skip_ws_length [of s] by simp

lemma read_chars_length: "read_chars s = Inr (t, r) \<Longrightarrow> length r < length s"
proof (induction s arbitrary: t r rule: read_chars.induct)
  case (2 c s)
  then show ?case
    by (fastforce simp: add_char_def map_sum_def split: if_splits list.splits sum.splits)
qed simp

lemma read_integer_length: "read_integer s = Some (t, r) \<Longrightarrow> length r < length s"
  using length_dropWhile_le [of is_digit "tl s"]
  by (cases s) (auto simp: read_integer_def split: if_splits)

lemma read_fraction_length: "read_fraction s = Some (t, r) \<Longrightarrow> length r \<le> length s"
  using length_dropWhile_le [of is_digit "tl s"]
  by (cases s) (auto simp: read_fraction_def split: if_splits)

lemma read_exponent_length: "read_exponent s = Some (t, r) \<Longrightarrow> length r \<le> length s"
  using length_dropWhile_le [of is_digit "tl s"] length_dropWhile_le [of is_digit "tl (tl s)"]
  by (cases s) (auto simp: read_exponent_def Let_def split: if_splits list.splits)

lemma read_unsigned_length: "read_unsigned s = Some (x, r) \<Longrightarrow> length r < length s"
  by (auto simp: read_unsigned_def split: option.splits
      dest!: read_integer_length read_fraction_length read_exponent_length)

lemma read_number_length: "read_number s = Some (x, r) \<Longrightarrow> length r < length s"
  by (cases s) (auto simp: read_number_def split: if_splits dest!: read_unsigned_length)

lemma parse_length:
  "parse_value n s = Some (Inr (v, r)) \<Longrightarrow> length r < length s"
  "parse_elements n acc s = Some (Inr (v, r)) \<Longrightarrow> length r < length s"
  "parse_members n fs s = Some (Inr (v, r)) \<Longrightarrow> length r < length s"
proof (induction n s and n acc s and n fs s arbitrary: v r and v r and v r
    rule: parse_value_parse_elements_parse_members.induct)
  case (2 n s)
  then show ?case
    by (fastforce simp: map_sum_def read_literal_def split: list.splits if_splits sum.splits option.splits
        dest!: skip_ws_Cons_length read_chars_length read_number_length)
next
  case (4 n acc s)
  then show ?case
    by (fastforce split: list.splits if_splits sum.splits option.splits prod.splits dest!: skip_ws_Cons_length)
next
  case (6 n acc s)
  then show ?case
    by (fastforce split: list.splits if_splits sum.splits option.splits prod.splits
        dest!: skip_ws_Cons_length read_chars_length)
qed simp_all


lemma parse_enough:
  "2 * length s + 1 \<le> n \<Longrightarrow> parse_value n s \<noteq> None"
  "2 * length s + 2 \<le> n \<Longrightarrow> parse_elements n acc s \<noteq> None"
  "2 * length s + 2 \<le> n \<Longrightarrow> parse_members n fs s \<noteq> None"
proof (induction n s and n acc s and n fs s rule: parse_value_parse_elements_parse_members.induct)
  case (2 n s)
  show ?case
  proof (cases "skip_ws s")
    case (Cons c r)
    then have "length (skip_ws r) < length s"
      using skip_ws_Cons_length [OF Cons] skip_ws_length [of r] by simp
    then show ?thesis
      using 2 Cons by (cases "skip_ws r") (auto simp del: parse_elements.simps parse_members.simps split: option.splits)
  qed simp
next
  case (4 n acc s)
  have "parse_elements n (acc @ [v]) r' \<noteq> None" if "parse_value n s = Some (Inr (v, r))" and "skip_ws r = CHR '','' # r'" for v r r'
    using 4 that parse_length(1) [OF that(1)] skip_ws_Cons_length [OF that(2)] by simp
  moreover have "parse_value n s \<noteq> None" using 4 by simp
  ultimately show ?case
    by (auto split: list.splits sum.splits option.splits prod.splits)
next
  case (6 n acc s)
  have "parse_value n t \<noteq> None \<and> (\<forall>v r r'. parse_value n t = Some (Inr (v, r)) \<longrightarrow> skip_ws r = CHR '','' # r' \<longrightarrow>
      parse_members n (put_field k v acc) r' \<noteq> None)"
    if a: "skip_ws s = CHR 0x22 # s1" "read_chars s1 = Inr (k, s2)" "skip_ws s2 = CHR '':'' # t" for s1 k s2 t
  proof -
    have len: "length t + 2 \<le> length s"
      using skip_ws_Cons_length [OF a(1)] read_chars_length [OF a(2)] skip_ws_Cons_length [OF a(3)] by simp
    then have "parse_value n t \<noteq> None" using 6 a by simp
    moreover have "parse_members n (put_field k v acc) r' \<noteq> None"
      if b: "parse_value n t = Some (Inr (v, r))" "skip_ws r = CHR '','' # r'" for v r r'
      using 6(2) a b len 6(3) parse_length(1) [OF b(1)] skip_ws_Cons_length [OF b(2)] by simp
    ultimately show ?thesis by blast
  qed
  then show ?case
    by (fastforce split: list.splits sum.splits option.splits prod.splits)
qed simp_all

lemma parse_more:
  "parse_value n s = Some x \<Longrightarrow> parse_value (Suc n) s = Some x"
  "parse_elements n acc s = Some x \<Longrightarrow> parse_elements (Suc n) acc s = Some x"
  "parse_members n fs s = Some x \<Longrightarrow> parse_members (Suc n) fs s = Some x"
proof (induction n s and n acc s and n fs s arbitrary: x and x and x
    rule: parse_value_parse_elements_parse_members.induct)
  case (2 n s)
  show ?case
  proof (cases "skip_ws s")
    case (Cons c r)
    show ?thesis
      using 2 Cons by (cases "skip_ws r") (auto simp: parse_value.simps(2) [of "Suc n"] parse_value.simps(2) [of n]
        simp del: parse_value.simps parse_elements.simps parse_members.simps split: if_splits)
  qed (use 2 in simp)
next
  case (4 n acc s)
  note parse = parse_elements.simps(2) [of n acc s] parse_elements.simps(2) [of "Suc n" acc s]
  show ?case
  proof (cases "parse_value n s")
    case (Some y)
    with 4(1) have y: "parse_value (Suc n) s = Some y" by blast
    show ?thesis
    proof (cases y)
      case (Inr vr)
      obtain v r where vr: "vr = (v, r)" by fastforce
      show ?thesis
      proof (cases "skip_ws r")
        case (Cons c r')
        with 4(2,3) Some y Inr vr show ?thesis
          by (auto simp: parse simp del: parse_value.simps parse_elements.simps split: if_splits)
      qed (use 4(3) Some y Inr vr in \<open>simp add: parse del: parse_value.simps parse_elements.simps\<close>)
    qed (use 4(3) Some y in \<open>auto simp: parse simp del: parse_value.simps parse_elements.simps\<close>)
  qed (use 4(3) in simp)
next
  case (6 n acc s)
  note parse = parse_members.simps(2) [of n acc s] parse_members.simps(2) [of "Suc n" acc s]
  show ?case
  proof (cases "\<exists>t k t' t''. skip_ws s = CHR 0x22 # t \<and> read_chars t = Inr (k, t') \<and> skip_ws t' = CHR '':'' # t''")
    case True
    then obtain t k t' t'' where a: "skip_ws s = CHR 0x22 # t" "read_chars t = Inr (k, t')" "skip_ws t' = CHR '':'' # t''"
      by blast
    show ?thesis
    proof (cases "parse_value n t''")
      case (Some y)
      with 6(1) a have y: "parse_value (Suc n) t'' = Some y" by simp
      show ?thesis
      proof (cases y)
        case (Inr vr)
        obtain v r where vr: "vr = (v, r)" by fastforce
        show ?thesis
        proof (cases "skip_ws r")
          case (Cons c r')
          with 6(2,3) a Some y Inr vr show ?thesis
            by (auto simp: parse simp del: parse_value.simps parse_members.simps split: if_splits)
        qed (use 6(3) a Some y Inr vr in \<open>simp add: parse del: parse_value.simps parse_members.simps\<close>)
      qed (use 6(3) a Some y in \<open>auto simp: parse simp del: parse_value.simps parse_members.simps\<close>)
    qed (use 6(3) a in simp)
  next
    case False
    then have "parse_members (Suc m) acc s = parse_members (Suc n) acc s" for m
      by (auto split: list.splits sum.splits prod.splits)
    then show ?thesis using 6(3) by metis
  qed
qed simp_all

end
