(* ===== verification/JSON_Roundtrip.thy ===== *)
theory JSON_Roundtrip
  imports JSON
begin

text \<open>
  Parsing gives back what was stringified, for every value that text can carry.
\<close>

section \<open>Fuel\<close>

lemma parse_mono:
  "parse_value n s = Some x \<Longrightarrow> n \<le> m \<Longrightarrow> parse_value m s = Some x"
  "parse_elements n acc s = Some x \<Longrightarrow> n \<le> m \<Longrightarrow> parse_elements m acc s = Some x"
  "parse_members n fs s = Some x \<Longrightarrow> n \<le> m \<Longrightarrow> parse_members m fs s = Some x"
  by (induction m) (auto simp: le_Suc_eq simp del: parse_value.simps(2) parse_elements.simps(2) parse_members.simps(2)
      intro: parse_more)

lemma parse_text_json_fuel: "\<exists>r. parse_text (json_fuel s + d) s = Some r \<and> JSON_parse s = r"
proof -
  obtain x where x: "parse_value (json_fuel s) s = Some x"
    using parse_enough(1) [of s "json_fuel s"] by (auto simp: json_fuel_def)
  then have "parse_value (json_fuel s + d) s = Some x"
    by (rule parse_mono) simp
  with x show ?thesis
    by (cases x) (auto simp: parse_text_def JSON_parse_def split: prod.splits)
qed

section \<open>Strings\<close>

lemma hex_value_digit: "d < 16 \<Longrightarrow> hex_value (hex_digit d) = Some d"
proof -
  assume "d < 16"
  then have "d < 10 \<or> d \<in> {10, 11, 12, 13, 14, 15}" by auto
  then have "d \<in> {0, 1, 2, 3, 4, 5, 6, 7, 8, 9} \<or> d \<in> {10, 11, 12, 13, 14, 15}" using less_ten_cases by blast
  then show ?thesis by (auto simp: hex_value_def hex_digit_def is_digit_def digit_value_def)
qed

lemma read_hex4_escape: "(of_char c :: nat) < 32 \<Longrightarrow>
    read_hex4 CHR ''0'' CHR ''0'' (hex_digit (of_char c div 16)) (hex_digit (of_char c mod 16)) = Inr c"
  by (simp add: read_hex4_def hex_value_digit [of "of_char c div 16"] hex_value_digit [of "of_char c mod 16"])
    (simp add: hex_value_def is_digit_def digit_value_def)

lemma read_chars_escape: "read_chars (escape_char c @ t) = add_char c (read_chars t)"
proof -
  consider "c \<in> {CHR 0x22, CHR 0x5C, CHR 0x08, CHR 0x0C, CHR 0x0A, CHR 0x0D, CHR 0x09}"
    | "c \<notin> {CHR 0x22, CHR 0x5C, CHR 0x08, CHR 0x0C, CHR 0x0A, CHR 0x0D, CHR 0x09}" "(of_char c :: nat) < 32"
    | "c \<notin> {CHR 0x22, CHR 0x5C, CHR 0x08, CHR 0x0C, CHR 0x0A, CHR 0x0D, CHR 0x09}" "\<not> (of_char c :: nat) < 32"
    by blast
  then show ?thesis
  proof cases
    case 1
    then show ?thesis by (auto simp: escape_char_def read_escape_def)
  next
    case 2
    then show ?thesis using read_hex4_escape [OF 2(2)] by (simp add: escape_char_def Let_def)
  next
    case 3
    then show ?thesis by (simp add: escape_char_def Let_def)
  qed
qed

lemma read_chars_quote: "read_chars (concat (map escape_char s) @ CHR 0x22 # r) = Inr (s, r)"
  by (induction s) (simp_all add: read_chars_escape add_char_def)

section \<open>Values\<close>

definition parses_to :: "string \<Rightarrow> json \<Rightarrow> string \<Rightarrow> bool" where
  "parses_to s v r \<longleftrightarrow> (\<exists>n. parse_value n s = Some (Inr (v, r)))"

lemma parses_to_fuel: "parses_to s v r \<Longrightarrow> \<exists>n0. \<forall>n \<ge> n0. parse_value n s = Some (Inr (v, r))"
  unfolding parses_to_def using parse_mono(1) by blast

text \<open>What a value starts with is neither white space nor a delimiter.\<close>

definition starts_value :: "string \<Rightarrow> bool" where
  "starts_value s \<longleftrightarrow> (\<exists>c r. s = c # r \<and> c \<notin> {CHR '' '', CHR 0x09, CHR 0x0A, CHR 0x0D, CHR '','', CHR '']'', CHR ''}''})"

lemma starts_value_append: "starts_value s \<Longrightarrow> starts_value (s @ r)"
  by (auto simp: starts_value_def)

lemma starts_value_skip: "starts_value s \<Longrightarrow> skip_ws s = s"
  by (auto simp: starts_value_def)

lemma starts_value_stringify: "json_ok v \<Longrightarrow> starts_value (JSON_stringify v)"
proof (cases v)
  case (JNumber x)
  assume "json_ok v"
  with JNumber obtain q where x: "x = Fin q" and d: "js_double (Fin q)" by (cases x) auto
  obtain c r where "js_toString x = c # r" and "c = CHR ''-'' \<or> is_digit c"
    using number_text_hd [OF d] x by (cases "js_toString x") auto
  then show ?thesis using JNumber x by (auto simp: starts_value_def is_digit_def)
qed (auto simp: starts_value_def quote_def)

lemma parses_to_number:
  assumes "json_ok (JNumber x)" and "ends_number r"
  shows "parses_to (JSON_stringify (JNumber x) @ r) (JNumber x) r"
proof -
  from assms(1) obtain q where x: "x = Fin q" and d: "js_double (Fin q)" by (cases x) auto
  obtain c t where t: "js_toString (Fin q) = c # t" and c: "c = CHR ''-'' \<or> is_digit c"
    using number_text_hd [OF d] by (cases "js_toString (Fin q)") auto
  have "read_number (c # t @ r) = Some (Fin q, r)"
    using read_number_toString [OF d assms(2)] t by simp
  moreover have "c \<notin> {CHR ''{'', CHR ''['', CHR 0x22, CHR '' '', CHR 0x09, CHR 0x0A, CHR 0x0D}"
    using c by (auto simp: is_digit_def)
  ultimately have "parse_value (Suc 0) (JSON_stringify (JNumber x) @ r) = Some (Inr (JNumber x, r))"
    using x t c by (simp del: js_toString.simps)
  then show ?thesis unfolding parses_to_def by blast
qed

lemma parse_elements_join:
  assumes "xs \<noteq> []" and "\<And>x r. x \<in> set xs \<Longrightarrow> ends_number r \<Longrightarrow> parses_to (JSON_stringify x @ r) x r"
  shows "\<exists>n. parse_elements n acc (join_with_comma (map JSON_stringify xs) @ CHR '']'' # r) =
      Some (Inr (JArray (acc @ xs), r))"
  using assms
proof (induction xs arbitrary: acc rule: list_nonempty_induct)
  case (single x)
  have "parses_to (JSON_stringify x @ CHR '']'' # r) x (CHR '']'' # r)"
    using single by (simp add: ends_number_def is_digit_def)
  then obtain n where "parse_value n (JSON_stringify x @ CHR '']'' # r) = Some (Inr (x, CHR '']'' # r))"
    unfolding parses_to_def by blast
  then have "parse_elements (Suc n) acc (JSON_stringify x @ CHR '']'' # r) = Some (Inr (JArray (acc @ [x]), r))"
    by simp
  then show ?case unfolding list.map join_with_comma.simps by blast
next
  case (cons x xs)
  let ?rest = "join_with_comma (map JSON_stringify xs) @ CHR '']'' # r"
  have "parses_to (JSON_stringify x @ CHR '','' # ?rest) x (CHR '','' # ?rest)"
    using cons by (simp add: ends_number_def is_digit_def)
  then obtain n0 where n0: "\<forall>n \<ge> n0. parse_value n (JSON_stringify x @ CHR '','' # ?rest) = Some (Inr (x, CHR '','' # ?rest))"
    using parses_to_fuel by blast
  obtain n1 where "parse_elements n1 (acc @ [x]) ?rest = Some (Inr (JArray ((acc @ [x]) @ xs), r))"
    using cons by fastforce
  then have "parse_elements (max n0 n1) (acc @ [x]) ?rest = Some (Inr (JArray ((acc @ [x]) @ xs), r))"
    by (rule parse_mono) simp
  with n0 have "parse_elements (Suc (max n0 n1)) acc (JSON_stringify x @ CHR '','' # ?rest) =
      Some (Inr (JArray (acc @ x # xs), r))"
    by simp
  moreover obtain y ys where "xs = y # ys" using cons(1) by (cases xs) auto
  then have "join_with_comma (map JSON_stringify (x # xs)) @ CHR '']'' # r = JSON_stringify x @ CHR '','' # ?rest" by simp
  ultimately show ?case by metis
qed

lemma put_field_new: "k \<notin> fst ` set fs \<Longrightarrow> put_field k v fs = fs @ [(k, v)]"
  by (induction fs) auto

definition field_text :: "string \<times> json \<Rightarrow> string" where
  "field_text f = quote (fst f) @ CHR '':'' # JSON_stringify (snd f)"

lemma stringify_object: "JSON_stringify (JObject fs) = ''{'' @ join_with_comma (map field_text fs) @ ''}''"
proof -
  have "(\<lambda>(k, v). quote k @ CHR '':'' # JSON_stringify v) = field_text"
    by (auto simp: field_text_def fun_eq_iff)
  then show ?thesis by simp
qed

lemma parse_field:
  assumes "parse_value n (JSON_stringify v @ t) = Some (Inr (v, t))" and "t = c # t'" and "c \<in> {CHR '','', CHR ''}''}"
  shows "parse_members (Suc n) acc (field_text (k, v) @ t) =
    (if c = CHR '','' then parse_members n (put_field k v acc) t' else Some (Inr (JObject (put_field k v acc), t')))"
  using assms read_chars_quote [of k "CHR '':'' # JSON_stringify v @ t"]
  by (auto simp: field_text_def quote_def)

lemma parse_members_join:
  assumes "fs \<noteq> []" and "\<And>k v r. (k, v) \<in> set fs \<Longrightarrow> ends_number r \<Longrightarrow> parses_to (JSON_stringify v @ r) v r"
    and "distinct (map fst (acc @ fs))"
  shows "\<exists>n. parse_members n acc (join_with_comma (map field_text fs) @ CHR ''}'' # r) =
      Some (Inr (JObject (acc @ fs), r))"
  using assms
proof (induction fs arbitrary: acc rule: list_nonempty_induct)
  case (single f)
  obtain k v where f: "f = (k, v)" by fastforce
  have "parses_to (JSON_stringify v @ CHR ''}'' # r) v (CHR ''}'' # r)"
    using single f by (simp add: ends_number_def is_digit_def)
  then obtain n where n: "parse_value n (JSON_stringify v @ CHR ''}'' # r) = Some (Inr (v, CHR ''}'' # r))"
    unfolding parses_to_def by blast
  then have "parse_members (Suc n) acc (field_text (k, v) @ CHR ''}'' # r) = Some (Inr (JObject (acc @ [(k, v)]), r))"
    using single f put_field_new [of k acc v] by (subst parse_field [OF n]) auto
  with f show ?case unfolding list.map join_with_comma.simps by blast
next
  case (cons f fs)
  obtain k v where f: "f = (k, v)" by fastforce
  let ?rest = "join_with_comma (map field_text fs) @ CHR ''}'' # r"
  have "ends_number (CHR '','' # ?rest)" by (simp add: ends_number_def is_digit_def)
  then have "parses_to (JSON_stringify v @ CHR '','' # ?rest) v (CHR '','' # ?rest)"
    by (intro cons.prems(1) [of k]) (simp_all add: f)
  then obtain n0 where n0: "\<forall>n \<ge> n0. parse_value n (JSON_stringify v @ CHR '','' # ?rest) = Some (Inr (v, CHR '','' # ?rest))"
    using parses_to_fuel by blast
  have "\<exists>n. parse_members n (acc @ [f]) ?rest = Some (Inr (JObject ((acc @ [f]) @ fs), r))"
    by (rule cons.IH) (use cons.prems in auto)
  then obtain n1 where "parse_members n1 (acc @ [f]) ?rest = Some (Inr (JObject ((acc @ [f]) @ fs), r))"
    by blast
  then have n1: "parse_members (max n0 n1) (acc @ [f]) ?rest = Some (Inr (JObject ((acc @ [f]) @ fs), r))"
    by (rule parse_mono) simp
  have v: "parse_value (max n0 n1) (JSON_stringify v @ CHR '','' # ?rest) = Some (Inr (v, CHR '','' # ?rest))"
    using n0 by simp
  have "parse_members (Suc (max n0 n1)) acc (field_text f @ CHR '','' # ?rest) = Some (Inr (JObject (acc @ f # fs), r))"
    using parse_field [OF v, of "CHR '',''" ?rest acc k] put_field_new [of k acc v] cons.prems(2) f n1 by simp
  moreover obtain g gs where "fs = g # gs" using cons(1) by (cases fs) auto
  then have "join_with_comma (map field_text (f # fs)) @ CHR ''}'' # r = field_text f @ CHR '','' # ?rest" by simp
  ultimately show ?case by metis
qed

lemma join_starts: "xs \<noteq> [] \<Longrightarrow> starts_value (hd xs) \<Longrightarrow> starts_value (join_with_comma xs @ r)"
  by (induction xs rule: join_with_comma.induct) (auto intro: starts_value_append simp: starts_value_def)

lemma stringify_parses_to:
  "json_ok j \<Longrightarrow> ends_number r \<Longrightarrow> parses_to (JSON_stringify j @ r) j r"
proof (induction j arbitrary: r)
  case (JNumber x)
  then show ?case by (rule parses_to_number)
next
  case (JString s)
  have "parse_value (Suc 0) (JSON_stringify (JString s) @ r) = Some (Inr (JString s, r))"
    by (simp add: quote_def read_chars_quote)
  then show ?case unfolding parses_to_def by blast
next
  case JNull
  have "parse_value (Suc 0) (JSON_stringify JNull @ r) = Some (Inr (JNull, r))"
    by (simp add: read_literal_def is_digit_def)
  then show ?case unfolding parses_to_def by blast
next
  case (JBool b)
  have "parse_value (Suc 0) (JSON_stringify (JBool b) @ r) = Some (Inr (JBool b, r))"
    by (simp add: read_literal_def is_digit_def)
  then show ?case unfolding parses_to_def by blast
next
  case (JArray xs)
  show ?case
  proof (cases "xs = []")
    case True
    have "parse_value (Suc 0) (JSON_stringify (JArray []) @ r) = Some (Inr (JArray [], r))" by simp
    then show ?thesis unfolding True parses_to_def by blast
  next
    case False
    let ?t = "join_with_comma (map JSON_stringify xs) @ CHR '']'' # r"
    obtain n where n: "parse_elements n [] ?t = Some (Inr (JArray xs, r))"
      using parse_elements_join [OF False, of "[]" r] JArray by fastforce
    have "starts_value ?t"
      using False JArray.prems by (intro join_starts) (auto simp: hd_map intro!: starts_value_stringify)
    then obtain c t where "?t = c # t" "c \<noteq> CHR '']''" "skip_ws ?t = c # t"
      using starts_value_skip [of ?t] by (auto simp: starts_value_def)
    with n have "parse_value (Suc n) (JSON_stringify (JArray xs) @ r) = Some (Inr (JArray xs, r))" by simp
    then show ?thesis unfolding parses_to_def by blast
  qed
next
  case (JObject fs)
  show ?case
  proof (cases "fs = []")
    case True
    have "parse_value (Suc 0) (JSON_stringify (JObject []) @ r) = Some (Inr (JObject [], r))" by simp
    then show ?thesis unfolding True parses_to_def by blast
  next
    case False
    let ?t = "join_with_comma (map field_text fs) @ CHR ''}'' # r"
    have "\<exists>n. parse_members n [] ?t = Some (Inr (JObject ([] @ fs), r))"
    proof (rule parse_members_join [OF False])
      show "distinct (map fst ([] @ fs))" using JObject.prems by simp
      show "parses_to (JSON_stringify v @ r') v r'" if "(k, v) \<in> set fs" and "ends_number r'" for k v r'
        using JObject.IH [OF that(1), of v r'] JObject.prems that by fastforce
    qed
    then obtain n where n: "parse_members n [] ?t = Some (Inr (JObject fs, r))" by auto
    have "starts_value ?t"
      using False by (intro join_starts) (auto simp: hd_map starts_value_def field_text_def quote_def)
    then obtain c t where "?t = c # t" "c \<noteq> CHR ''}''" "skip_ws ?t = c # t"
      using starts_value_skip [of ?t] by (auto simp: starts_value_def)
    with n have "parse_value (Suc n) (JSON_stringify (JObject fs) @ r) = Some (Inr (JObject fs, r))"
      by (simp add: stringify_object del: JSON_stringify.simps)
    then show ?thesis unfolding parses_to_def by blast
  qed
qed

lemma parse_stringify: "json_ok j \<Longrightarrow> JSON_parse (JSON_stringify j) = Inr j"
proof -
  assume "json_ok j"
  then have "parses_to (JSON_stringify j) j []"
    using stringify_parses_to [of j "[]"] by (simp add: ends_number_def)
  then obtain n0 where n0: "\<forall>n \<ge> n0. parse_value n (JSON_stringify j) = Some (Inr (j, []))"
    using parses_to_fuel by blast
  then have "parse_text (json_fuel (JSON_stringify j) + n0) (JSON_stringify j) = Some (Inr j)"
    by (simp add: parse_text_def)
  with parse_text_json_fuel [of "JSON_stringify j" n0] show ?thesis by auto
qed

end
