(* ===== verification/Relay.thy ===== *)
theory Relay
  imports JSON_Roundtrip
begin

text \<open>
  The outbox relay (\<open>order-service/src/outbox-relay/outbox-relay.service.ts\<close>): it republishes each
  captured outbox payload to the exchange, and keeps itself connected to Kafka, with a growing delay
  between failed attempts, until its module is destroyed.
\<close>

section \<open>Messages\<close>

text \<open>A publication of the relay: exchange, routing key and event.\<close>

type_synonym relayed = "string \<times> string \<times> json"

definition relay_exchange :: "string option \<Rightarrow> string" where
  "relay_exchange env = config_string env ''ecommerce.events''"

text \<open>\<open>JSON.parse\<close>, and once more if that gave a string.\<close>

definition unwrap :: "string \<Rightarrow> json result" where
  "unwrap value_text = (case JSON_parse value_text of
     Inr (JString inner) \<Rightarrow> JSON_parse inner
   | r \<Rightarrow> r)"

text \<open>The callback of \<open>consumer.run\<close>. The line that logs the relayed event reads \<open>event.orderId\<close>
  after the publish, which throws for \<open>null\<close>.\<close>

definition eachMessage :: "string option \<Rightarrow> exn option \<Rightarrow> string option \<Rightarrow> relayed list \<Rightarrow>
    unit result \<times> relayed list" where
  "eachMessage env publish_fault value sent = (case value of
     None \<Rightarrow> (Inr (), sent)
   | Some value_text \<Rightarrow> (if value_text = [] then (Inr (), sent)
       else case unwrap value_text of
         Inl e \<Rightarrow> (Inl e, sent)
       | Inr event \<Rightarrow> (case attempt publish_fault (Inr (sent @ [(relay_exchange env, ''order.created'', event)])) of
           Inl e \<Rightarrow> (Inl e, sent)
         | Inr sent' \<Rightarrow>
             (if event = JNull then Inl (Error ''Cannot read properties of null (reading orderId)'') else Inr (),
              sent'))))"

text \<open>A partition is consumed in order; kafkajs commits a message when its callback returns and hands
  the same one out again when it throws.\<close>

fun consume :: "string option \<Rightarrow> (exn option) list \<Rightarrow> string option list \<Rightarrow> relayed list \<Rightarrow>
    string option list \<times> relayed list" where
  "consume env [] values sent = (values, sent)"
| "consume env (fault # faults) [] sent = ([], sent)"
| "consume env (fault # faults) (v # vs) sent = (case eachMessage env fault v sent of
     (Inl _, sent') \<Rightarrow> consume env faults (v # vs) sent'
   | (Inr _, sent') \<Rightarrow> consume env faults vs sent')"

section \<open>Connecting\<close>

definition maxBackoffMs :: nat where
  "maxBackoffMs = 30000"

definition backoff :: "nat \<Rightarrow> nat" where
  "backoff n = min (1000 * 2 ^ n) maxBackoffMs"

text \<open>What the relay is doing: an attempt \<open>n\<close> under way, a timer of so many milliseconds for attempt
  \<open>n\<close>, or the consumer running. \<open>waited\<close> adds up the timers that fired.\<close>

datatype phase = NotStarted | Connecting nat | Waiting nat nat | Consuming | Stopped

record relay_state =
  destroyed :: bool
  phase :: phase
  waited :: nat

datatype relay_event = OnModuleInit | AttemptEnds "exn option" | TimerFires | Crash bool | OnModuleDestroy

text \<open>A call of \<open>connectWithRetry(n)\<close>, up to the first \<open>await\<close>.\<close>

definition connectWithRetry :: "nat \<Rightarrow> relay_state \<Rightarrow> relay_state" where
  "connectWithRetry n s = (if destroyed s then s\<lparr>phase := Stopped\<rparr> else s\<lparr>phase := Connecting n\<rparr>)"

text \<open>How attempt \<open>n\<close> ends: subscribed, or in the \<open>catch\<close> with the timer for the next one.\<close>

definition attempt_ends :: "nat \<Rightarrow> exn option \<Rightarrow> relay_state \<Rightarrow> relay_state" where
  "attempt_ends n failure s = (case failure of
     None \<Rightarrow> s\<lparr>phase := Consuming\<rparr>
   | Some _ \<Rightarrow> s\<lparr>phase := Waiting (n + 1) (backoff n)\<rparr>)"

text \<open>The listener for the consumer's \<open>CRASH\<close>: kafkajs restarts the consumer itself when the payload
  says so.\<close>

definition on_crash :: "bool \<Rightarrow> relay_state \<Rightarrow> relay_state" where
  "on_crash restart s =
     (if restart then s else if \<not> destroyed s then connectWithRetry 0 s else s\<lparr>phase := Stopped\<rparr>)"

definition onModuleInit :: "relay_state \<Rightarrow> relay_state" where
  "onModuleInit s = connectWithRetry 0 s"

definition onModuleDestroy :: "relay_state \<Rightarrow> relay_state" where
  "onModuleDestroy s = s\<lparr>destroyed := True, phase := (if phase s = Consuming then Stopped else phase s)\<rparr>"

text \<open>The events that can happen in a phase and what they lead to.\<close>

fun relay_next :: "relay_event \<Rightarrow> relay_state \<Rightarrow> relay_state option" where
  "relay_next OnModuleInit s = (if phase s = NotStarted then Some (onModuleInit s) else None)"
| "relay_next (AttemptEnds failure) s = (case phase s of
     Connecting n \<Rightarrow> Some (attempt_ends n failure s) | _ \<Rightarrow> None)"
| "relay_next TimerFires s = (case phase s of
     Waiting n ms \<Rightarrow> Some (connectWithRetry n (s\<lparr>waited := waited s + ms\<rparr>)) | _ \<Rightarrow> None)"
| "relay_next (Crash restart) s = (if phase s = Consuming then Some (on_crash restart s) else None)"
| "relay_next OnModuleDestroy s = Some (onModuleDestroy s)"

fun relay_run :: "relay_event list \<Rightarrow> relay_state \<Rightarrow> relay_state option" where
  "relay_run [] s = Some s"
| "relay_run (e # es) s = (case relay_next e s of None \<Rightarrow> None | Some t \<Rightarrow> relay_run es t)"

definition new_relay :: relay_state where
  "new_relay = \<lparr>destroyed = False, phase = NotStarted, waited = 0\<rparr>"

fun total_backoff :: "nat \<Rightarrow> nat" where
  "total_backoff 0 = 0"
| "total_backoff (Suc n) = total_backoff n + backoff n"

lemma relay_run_append: "relay_run (es @ fs) s = (case relay_run es s of None \<Rightarrow> None | Some t \<Rightarrow> relay_run fs t)"
  by (induction es arbitrary: s) (auto split: option.splits)

lemma backoff_capped: "5 \<le> n \<Longrightarrow> backoff n = maxBackoffMs"
proof -
  assume "5 \<le> n"
  then have "(2::nat) ^ 5 \<le> 2 ^ n" by (rule power_increasing) simp
  then show "backoff n = maxBackoffMs" by (simp add: backoff_def maxBackoffMs_def)
qed

lemma five_plus: "5 + n = Suc (Suc (Suc (Suc (Suc n))))"
  by simp

lemma total_backoff_closed: "total_backoff (5 + n) = 31000 + 30000 * n"
proof (induction n)
  case 0
  show ?case unfolding five_plus by (simp add: backoff_def maxBackoffMs_def)
next
  case (Suc n)
  have "total_backoff (5 + Suc n) = total_backoff (5 + n) + backoff (5 + n)"
    by (simp only: add_Suc_right total_backoff.simps)
  also have "backoff (5 + n) = 30000"
    using backoff_capped [of "5 + n"] by (simp only: maxBackoffMs_def)
  finally show ?case by (simp only: Suc) simp
qed

text \<open>Every attempt fails and its timer fires.\<close>

definition failing :: "exn list \<Rightarrow> relay_event list" where
  "failing es = concat (map (\<lambda>e. [AttemptEnds (Some e), TimerFires]) es)"

lemma relay_run_failing:
  "relay_run (failing es) \<lparr>destroyed = False, phase = Connecting n, waited = w\<rparr> =
     Some \<lparr>destroyed = False, phase = Connecting (n + length es),
       waited = w + (total_backoff (n + length es) - total_backoff n)\<rparr>"
proof (induction es arbitrary: n w)
  case (Cons e es)
  have "total_backoff m \<le> total_backoff (m + k)" for m k
    by (induction k) simp_all
  then have "total_backoff (Suc n) \<le> total_backoff (Suc n + length es)" .
  with Cons [of "Suc n" "w + backoff n"] show ?case
    by (simp add: failing_def attempt_ends_def connectWithRetry_def)
qed (simp add: failing_def)

lemma relay_started: "onModuleInit new_relay = \<lparr>destroyed = False, phase = Connecting 0, waited = 0\<rparr>"
  by (simp add: new_relay_def onModuleInit_def connectWithRetry_def)

lemma relay_starts: "relay_next OnModuleInit new_relay = Some \<lparr>destroyed = False, phase = Connecting 0, waited = 0\<rparr>"
  by (simp add: new_relay_def onModuleInit_def connectWithRetry_def)

text \<open>The relay gets through: however often Kafka cannot be reached, when an attempt succeeds the
  relay is consuming. The waits before attempts two to six are 1, 2, 4, 8 and 16 seconds and every later
  one is 30 seconds, so after \<open>5 + n\<close> failures it has waited exactly 31 + 30 n seconds.\<close>
theorem relay_gets_connected:
  "relay_run (OnModuleInit # failing es @ [AttemptEnds None]) new_relay =
     Some \<lparr>destroyed = False, phase = Consuming, waited = total_backoff (length es)\<rparr> \<and>
   total_backoff (5 + n) = 31000 + 30000 * n \<and> map backoff [0, 1, 2, 3, 4] = [1000, 2000, 4000, 8000, 16000] \<and>
   backoff (5 + n) = 30000"
  using total_backoff_closed [of n] backoff_capped [of "5 + n"]
  by (simp add: relay_starts relay_run_append relay_run_failing attempt_ends_def backoff_def maxBackoffMs_def
      del: relay_next.simps(1))

section \<open>Staying connected\<close>

inductive relay_step :: "relay_state \<Rightarrow> relay_event \<Rightarrow> relay_state \<Rightarrow> bool" where
  "relay_next e s = Some t \<Longrightarrow> relay_step s e t"

inductive_simps relay_step_iff: "relay_step s e t"

text \<open>Until the module is destroyed the relay has not stopped, and an attempt that is under way or due
  follows its predecessor.\<close>

definition relay_inv :: "relay_state \<Rightarrow> bool" where
  "relay_inv s \<longleftrightarrow> (phase s = Stopped \<longrightarrow> destroyed s) \<and>
     (\<forall>n ms. phase s = Waiting n ms \<longrightarrow> 0 < n \<and> ms = backoff (n - 1))"

interpretation relay: inductive_invariant "\<lambda>s. s = new_relay" relay_step relay_inv
proof
  show "relay_inv s" if "s = new_relay" for s
    using that by (simp add: relay_inv_def new_relay_def)
  show "relay_inv t" if "relay_inv s" and "relay_step s e t" for s e t
    using that by (cases e) (auto simp: relay_step_iff relay_inv_def onModuleInit_def onModuleDestroy_def
        on_crash_def attempt_ends_def connectWithRetry_def split: if_splits phase.splits option.splits)
qed

definition recovery :: "relay_state \<Rightarrow> relay_event list" where
  "recovery s = (case phase s of
     NotStarted \<Rightarrow> [OnModuleInit, AttemptEnds None]
   | Connecting _ \<Rightarrow> [AttemptEnds None]
   | Waiting _ _ \<Rightarrow> [TimerFires, AttemptEnds None]
   | _ \<Rightarrow> [])"

lemma recovery_consumes:
  assumes "relay_inv s" and "\<not> destroyed s"
  shows "\<exists>t. relay_run (recovery s) s = Some t \<and> phase t = Consuming \<and> \<not> destroyed t \<and> waited t \<le> waited s + maxBackoffMs"
  using assms by (cases "phase s")
    (auto simp: recovery_def relay_inv_def onModuleInit_def connectWithRetry_def attempt_ends_def backoff_def)

lemma destroyed_stays:
  assumes "relay_next e s = Some t" and "destroyed s"
  shows "destroyed t \<and> (\<forall>n. phase t = Connecting n \<longrightarrow> phase s = Connecting n)"
  using assms by (cases e) (auto simp: onModuleInit_def onModuleDestroy_def on_crash_def attempt_ends_def
      connectWithRetry_def split: if_splits phase.splits option.splits)

text \<open>C30: The relay never gives up: in every state it can reach before its module is destroyed, through any
  failures and crashes, it is consuming or gets there with the next attempt, which is at most 30 seconds
  away. Once the module is destroyed no further attempt is started.\<close>
theorem relay_never_gives_up:
  assumes "reachable (\<lambda>s. s = new_relay) relay_step s"
  shows "(\<not> destroyed s \<longrightarrow> (\<exists>t. relay_run (recovery s) s = Some t \<and> phase t = Consuming \<and> \<not> destroyed t \<and>
      waited t \<le> waited s + maxBackoffMs)) \<and>
    (destroyed s \<longrightarrow> (\<forall>e t. relay_step s e t \<longrightarrow> destroyed t \<and> (\<forall>n. phase t = Connecting n \<longrightarrow> phase s = Connecting n)))"
  using relay.holds_when_reachable [OF assms] recovery_consumes [of s] destroyed_stays [of _ s]
  by (auto simp: relay_step_iff)

theorem relay_never_gives_up_witness:
  "\<exists>s. reachable (\<lambda>s. s = new_relay) relay_step s \<and> phase s = Waiting 1 1000 \<and>
     (\<exists>t. relay_run (recovery s) s = Some t \<and> phase t = Consuming \<and> \<not> destroyed t \<and> waited t \<le> waited s + maxBackoffMs)"
proof -
  let ?c = "\<lparr>destroyed = False, phase = Connecting 0, waited = 0\<rparr>"
  let ?s = "\<lparr>destroyed = False, phase = Waiting 1 1000, waited = 0\<rparr>"
  have "relay_step new_relay OnModuleInit ?c"
    by (simp add: relay_step_iff relay_starts del: relay_next.simps)
  moreover have "reachable (\<lambda>s. s = new_relay) relay_step new_relay" by (rule reachable_init) simp
  ultimately have "reachable (\<lambda>s. s = new_relay) relay_step ?c" by (rule reachable_step [rotated])
  moreover have "relay_step ?c (AttemptEnds (Some (Error ''connect ECONNREFUSED''))) ?s"
    by (simp add: relay_step_iff attempt_ends_def backoff_def maxBackoffMs_def)
  ultimately have s: "reachable (\<lambda>s. s = new_relay) relay_step ?s" by (rule reachable_step)
  then show ?thesis using relay_never_gives_up [OF s] by (intro exI [of _ ?s]) simp
qed

section \<open>Relaying\<close>

text \<open>How the connector writes the JSON text of a payload: as it is, or as a JSON string that holds it.\<close>

definition wire_forms :: "string \<Rightarrow> string list" where
  "wire_forms t = [t, JSON_stringify (JString t)]"

lemma unwrap_wire:
  assumes "JSON_parse t = Inr (JObject fs)" and "w \<in> set (wire_forms t)"
  shows "w \<noteq> [] \<and> unwrap w = Inr (JObject fs)"
proof -
  have "t \<noteq> []" using assms(1)
    by (auto simp: JSON_parse_def parse_text_def json_fuel_def SyntaxError_def)
  moreover have "JSON_parse (JSON_stringify (JString t)) = Inr (JString t)" by (rule parse_stringify) simp
  ultimately show ?thesis using assms by (auto simp: unwrap_def wire_forms_def quote_def)
qed

lemma consume_until_published:
  assumes "\<And>fault sent. eachMessage env fault (Some w) sent =
      (case fault of None \<Rightarrow> (Inr (), sent @ [p]) | Some e \<Rightarrow> (Inl e, sent))"
  shows "consume env (map Some es @ None # faults) (Some w # vs) sent = consume env faults vs (sent @ [p])"
  by (induction es) (simp_all add: assms)

text \<open>C29: Every outbox payload is republished, with its fields, in order, as \<open>order.created\<close>: whatever text
  the database prints for a payload, whichever of the two wire forms the connector uses and however
  often a publish fails first, each message is retried until it goes out and then goes out once.\<close>
theorem relay_republishes_in_order:
  assumes "list_all2 (\<lambda>(t, fs) w. JSON_parse t = Inr (JObject fs) \<and> w \<in> set (wire_forms t)) payloads wires"
  shows "consume env (concat (map (\<lambda>p. map Some (failures p) @ [None]) payloads)) (map Some wires) sent =
    ([], sent @ map (\<lambda>(t, fs). (relay_exchange env, ''order.created'', JObject fs)) payloads)"
  using assms
proof (induction payloads wires arbitrary: sent rule: list_all2_induct)
  case Nil
  show ?case by simp
next
  case (Cons p payloads w wires)
  obtain t fs where p: "p = (t, fs)" by fastforce
  with Cons.hyps have "w \<noteq> []" and "unwrap w = Inr (JObject fs)"
    using unwrap_wire [of t fs w] by auto
  then have "eachMessage env fault (Some w) sent = (case fault of
      None \<Rightarrow> (Inr (), sent @ [(relay_exchange env, ''order.created'', JObject fs)]) | Some e \<Rightarrow> (Inl e, sent))"
    for fault sent
    by (cases fault) (simp_all add: eachMessage_def)
  from consume_until_published [OF this] show ?case using Cons.IH p by simp
qed

text \<open>A payload as PostgreSQL prints a jsonb value, with its spaces.\<close>

theorem relay_republishes_in_order_witness:
  "let t = concat [''{'', [CHR 0x22], ''orderId'', [CHR 0x22], '': '', [CHR 0x22], ''o1'', [CHR 0x22], ''}''];
     event = JObject [(''orderId'', JString ''o1'')] in
   consume None [Some (Error ''channel closed''), None, Some (Error ''channel closed''), None]
     (map Some [t, JSON_stringify (JString t)]) [] =
   ([], [(''ecommerce.events'', ''order.created'', event), (''ecommerce.events'', ''order.created'', event)])"
proof -
  let ?t = "concat [''{'', [CHR 0x22], ''orderId'', [CHR 0x22], '': '', [CHR 0x22], ''o1'', [CHR 0x22], ''}'']"
  let ?p = "(?t, [(''orderId'', JString ''o1'')])"
  have "JSON_parse ?t = Inr (JObject [(''orderId'', JString ''o1'')])" by code_simp
  then have "list_all2 (\<lambda>(t, fs) w. JSON_parse t = Inr (JObject fs) \<and> w \<in> set (wire_forms t))
      [?p, ?p] [?t, JSON_stringify (JString ?t)]"
    by (simp add: wire_forms_def)
  from relay_republishes_in_order [OF this, of None "\<lambda>_. [Error ''channel closed'']" "[]"] show ?thesis
    unfolding Let_def by (simp add: relay_exchange_def config_string_def)
qed


end
