(* ===== verification/Wire.thy ===== *)
theory Wire
  imports Relay Saga Payment
begin

text \<open>
  The payloads between the services as JSON values: the interfaces each service declares for what it
  sends and receives, the values the code builds, and what a consumer reads. TypeScript checks none of
  this at run time, so that both ends agree is a property of the code: every value that is sent has the
  type its consumer declares, and an order's event that goes through the database, the connector and
  the relay is read by the saga as it was written.
\<close>

section \<open>Interfaces\<close>

text \<open>The types of the interfaces: a field may be optional, a string may be one of several literals.\<close>

datatype ts_type =
    TString
  | TLiterals "string list"
  | TNumber
  | TBoolean
  | TArray ts_type
  | TObject "(string \<times> bool \<times> ts_type) list"

text \<open>A JSON value of a type; fields the type does not name are allowed.\<close>

fun has_type :: "json \<Rightarrow> ts_type \<Rightarrow> bool" where
  "has_type j TString = (case j of JString _ \<Rightarrow> True | _ \<Rightarrow> False)"
| "has_type j (TLiterals ls) = (case j of JString s \<Rightarrow> s \<in> set ls | _ \<Rightarrow> False)"
| "has_type j TNumber = (case j of JNumber x \<Rightarrow> x \<notin> {NaN, PosInf, NegInf} | _ \<Rightarrow> False)"
| "has_type j TBoolean = (case j of JBool _ \<Rightarrow> True | _ \<Rightarrow> False)"
| "has_type j (TArray t) = (case j of JArray xs \<Rightarrow> \<forall>x \<in> set xs. has_type x t | _ \<Rightarrow> False)"
| "has_type j (TObject fs) = (case j of
     JObject kvs \<Rightarrow> \<forall>(k, opt, t) \<in> set fs. (case map_of kvs k of None \<Rightarrow> opt | Some v \<Rightarrow> has_type v t)
   | _ \<Rightarrow> False)"

text \<open>What the compiler would accept if it saw both ends: every value of the first type is one of the
  second.\<close>

fun assignable :: "ts_type \<Rightarrow> ts_type \<Rightarrow> bool" where
  "assignable TString TString = True"
| "assignable (TLiterals ls) TString = True"
| "assignable (TLiterals ls) (TLiterals ms) = (set ls \<subseteq> set ms)"
| "assignable TNumber TNumber = True"
| "assignable TBoolean TBoolean = True"
| "assignable (TArray s) (TArray t) = assignable s t"
| "assignable (TObject fs) (TObject gs) = (\<forall>(k, opt, t) \<in> set gs. (case map_of fs k of
     None \<Rightarrow> False
   | Some (opt', s) \<Rightarrow> (opt' \<longrightarrow> opt) \<and> assignable s t))"
| "assignable _ _ = False"

lemma assignable_sound: "assignable s t \<Longrightarrow> has_type j s \<Longrightarrow> has_type j t"
proof (induction s t arbitrary: j rule: assignable.induct)
  case (7 fs gs)
  then obtain kvs where j: "j = JObject kvs" by (cases j) auto
  have "case map_of kvs k of None \<Rightarrow> opt | Some v \<Rightarrow> has_type v t" if g: "(k, opt, t) \<in> set gs" for k opt t
  proof -
    obtain opt' s where f: "map_of fs k = Some (opt', s)" and "opt' \<longrightarrow> opt" and s: "assignable s t"
      using 7(2) g by (fastforce split: option.splits)
    have "(k, opt', s) \<in> set fs" using f by (rule map_of_SomeD)
    with 7(3) j have "case map_of kvs k of None \<Rightarrow> opt' | Some v \<Rightarrow> has_type v s" by fastforce
    with \<open>opt' \<longrightarrow> opt\<close> show ?thesis
      using 7(1) [OF g refl refl f refl s] by (auto split: option.splits)
  qed
  with j show ?case by auto
qed (auto split: json.splits)

abbreviation required :: "string \<Rightarrow> ts_type \<Rightarrow> string \<times> bool \<times> ts_type" where
  "required k t \<equiv> (k, False, t)"

abbreviation optional :: "string \<Rightarrow> ts_type \<Rightarrow> string \<times> bool \<times> ts_type" where
  "optional k t \<equiv> (k, True, t)"

definition OrderItem_type :: ts_type where
  "OrderItem_type = TObject [required ''productId'' TString, required ''quantity'' TNumber, required ''price'' TNumber]"

definition OrderCreatedEvent_type :: ts_type where
  "OrderCreatedEvent_type = TObject [required ''orderId'' TString, required ''customerId'' TString,
     required ''total'' TNumber, required ''items'' (TArray OrderItem_type), required ''createdAt'' TString]"

definition ReservedItem_type :: ts_type where
  "ReservedItem_type = TObject [required ''productId'' TString, required ''quantity'' TNumber]"

definition ReserveRequest_type :: ts_type where
  "ReserveRequest_type = TObject [required ''orderId'' TString, required ''items'' (TArray ReservedItem_type)]"

definition OrderIdRequest_type :: ts_type where
  "OrderIdRequest_type = TObject [required ''orderId'' TString]"

definition RpcResult_type :: ts_type where
  "RpcResult_type = TObject [required ''success'' TBoolean, optional ''reason'' TString]"

definition InventoryRpcResult_type :: ts_type where
  "InventoryRpcResult_type = TObject [required ''success'' TBoolean, optional ''reason'' TString]"

definition PaymentRequestedEvent_type :: ts_type where
  "PaymentRequestedEvent_type =
     TObject [required ''orderId'' TString, required ''customerId'' TString, required ''total'' TNumber]"

definition PaymentResultEvent_type :: ts_type where
  "PaymentResultEvent_type = TObject [required ''orderId'' TString, optional ''paymentId'' TString,
     required ''status'' (TLiterals [''SUCCESS'', ''FAILED''])]"

definition saga_PaymentResultEvent_type :: ts_type where
  "saga_PaymentResultEvent_type = TObject [required ''orderId'' TString, optional ''paymentId'' TString,
     required ''status'' (TLiterals [''SUCCESS'', ''FAILED''])]"

definition OrderStatus_type :: ts_type where
  "OrderStatus_type = TLiterals [''PENDING'', ''INVENTORY_RESERVED'', ''COMPLETED'', ''CANCELLED'']"

definition OrderStatusChangedEvent_type :: ts_type where
  "OrderStatusChangedEvent_type =
     TObject [required ''orderId'' TString, required ''customerId'' TString, required ''status'' TString]"

definition GetPricesRequest_type :: ts_type where
  "GetPricesRequest_type = TObject [required ''productIds'' (TArray TString)]"

definition catalog_GetPricesResult_type :: ts_type where
  "catalog_GetPricesResult_type = TObject [
     required ''prices'' (TArray (TObject [required ''productId'' TString, required ''price'' TNumber])),
     required ''missing'' (TArray TString)]"

definition order_GetPricesResult_type :: ts_type where
  "order_GetPricesResult_type = TObject [
     required ''prices'' (TArray (TObject [required ''productId'' TString, required ''price'' TNumber])),
     required ''missing'' (TArray TString)]"

section \<open>The values the code builds\<close>

text \<open>A field whose value is \<open>undefined\<close> is left out of the text.\<close>

definition opt_field :: "string \<Rightarrow> json option \<Rightarrow> (string \<times> json) list" where
  "opt_field k v = (case v of None \<Rightarrow> [] | Some j \<Rightarrow> [(k, j)])"

definition item_json :: "OrderItem \<Rightarrow> json" where
  "item_json item = JObject ([(''productId'', JString (oi_productId item)), (''quantity'', JNumber (oi_quantity item))] @
     opt_field ''price'' (map_option JNumber (oi_price item)))"

definition event_json :: "OrderCreatedEvent \<Rightarrow> json" where
  "event_json e = JObject [(''orderId'', JString (ev_orderId e)), (''customerId'', JString (ev_customerId e)),
     (''total'', JNumber (ev_total e)), (''items'', JArray (map item_json (ev_items e))),
     (''createdAt'', JString (ev_createdAt e))]"

fun status_json :: "OrderStatus \<Rightarrow> json" where
  "status_json PENDING = JString ''PENDING''"
| "status_json INVENTORY_RESERVED = JString ''INVENTORY_RESERVED''"
| "status_json COMPLETED = JString ''COMPLETED''"
| "status_json CANCELLED = JString ''CANCELLED''"

fun payment_status_json :: "PaymentStatus \<Rightarrow> json" where
  "payment_status_json SUCCESS = JString ''SUCCESS''"
| "payment_status_json FAILED = JString ''FAILED''"

fun message_json :: "message \<Rightarrow> json" where
  "message_json (OrderCreated e) = event_json e"
| "message_json (PaymentRequested e) = JObject [(''orderId'', JString (pr_orderId e)),
     (''customerId'', JString (pr_customerId e)), (''total'', JNumber (pr_total e))]"
| "message_json (PaymentResult e) = JObject ([(''orderId'', JString (res_event_orderId e))] @
     opt_field ''paymentId'' (map_option JString (res_event_paymentId e)) @
     [(''status'', payment_status_json (res_event_status e))])"
| "message_json (StatusChanged e) = JObject [(''orderId'', JString (sc_orderId e)),
     (''customerId'', JString (sc_customerId e)), (''status'', status_json (sc_status e))]"

text \<open>The payload of an inventory RPC, and the answers of the two RPC services.\<close>

definition rpc_json :: "InventoryRpcRequest \<Rightarrow> json" where
  "rpc_json req = JObject ((''orderId'', JString (rpc_orderId req)) #
     (if rpc_routing req = InventoryReserve then [(''items'', JArray (map item_json (rpc_items req)))] else []))"

definition rpc_result_json :: "RpcResult \<Rightarrow> json" where
  "rpc_result_json r = JObject ((''success'', JBool (success r)) # opt_field ''reason'' (map_option JString (reason r)))"

definition get_prices_json :: "string list \<Rightarrow> json" where
  "get_prices_json ids = JObject [(''productIds'', JArray (map JString ids))]"

definition prices_json :: "GetPricesResult \<Rightarrow> json" where
  "prices_json r = JObject [
     (''prices'', JArray (map (\<lambda>(pid, price). JObject [(''productId'', JString pid), (''price'', JNumber price)]) (prices r))),
     (''missing'', JArray (map JString (missing r)))]"

section \<open>What is sent has the type its consumer declares\<close>

definition finite_number :: "js_number \<Rightarrow> bool" where
  "finite_number x \<longleftrightarrow> x \<notin> {NaN, PosInf, NegInf}"

definition sendable_item :: "OrderItem \<Rightarrow> bool" where
  "sendable_item item \<longleftrightarrow> finite_number (oi_quantity item) \<and>
     (case oi_price item of None \<Rightarrow> False | Some p \<Rightarrow> finite_number p)"

text \<open>A number that is not finite becomes \<open>null\<close> in the text, and a missing price is left out.\<close>

fun sendable :: "message \<Rightarrow> bool" where
  "sendable (OrderCreated e) = (finite_number (ev_total e) \<and> (\<forall>item \<in> set (ev_items e). sendable_item item))"
| "sendable (PaymentRequested e) = finite_number (pr_total e)"
| "sendable _ = True"

text \<open>The type the code that sends a message gives it, and the type its consumer declares.\<close>

fun published_type :: "message \<Rightarrow> ts_type" where
  "published_type (OrderCreated _) = OrderCreatedEvent_type"
| "published_type (PaymentRequested _) =
     TObject [required ''orderId'' TString, required ''customerId'' TString, required ''total'' TNumber]"
| "published_type (PaymentResult _) = PaymentResultEvent_type"
| "published_type (StatusChanged _) =
     TObject [required ''orderId'' TString, required ''customerId'' TString, required ''status'' OrderStatus_type]"

fun consumed_type :: "message \<Rightarrow> ts_type" where
  "consumed_type (OrderCreated _) = OrderCreatedEvent_type"
| "consumed_type (PaymentRequested _) = PaymentRequestedEvent_type"
| "consumed_type (PaymentResult _) = saga_PaymentResultEvent_type"
| "consumed_type (StatusChanged _) = OrderStatusChangedEvent_type"

fun request_type :: "inventory_routing \<Rightarrow> ts_type" where
  "request_type InventoryReserve = ReserveRequest_type"
| "request_type InventoryConfirm = OrderIdRequest_type"
| "request_type InventoryRelease = OrderIdRequest_type"

lemmas interface_types = OrderItem_type_def OrderCreatedEvent_type_def ReservedItem_type_def ReserveRequest_type_def
  OrderIdRequest_type_def RpcResult_type_def InventoryRpcResult_type_def PaymentRequestedEvent_type_def
  PaymentResultEvent_type_def saga_PaymentResultEvent_type_def OrderStatus_type_def OrderStatusChangedEvent_type_def
  GetPricesRequest_type_def catalog_GetPricesResult_type_def order_GetPricesResult_type_def

lemma item_has_type: "sendable_item item \<Longrightarrow> has_type (item_json item) OrderItem_type"
  by (auto simp: sendable_item_def item_json_def OrderItem_type_def opt_field_def finite_number_def split: option.splits)

lemma status_has_type: "has_type (status_json st) OrderStatus_type"
  by (cases st) (simp_all add: OrderStatus_type_def)

lemma payment_status_has_type: "has_type (payment_status_json st) (TLiterals [''SUCCESS'', ''FAILED''])"
  by (cases st) simp_all

lemma message_published_type: "sendable m \<Longrightarrow> has_type (message_json m) (published_type m)"
proof (cases m)
  case (OrderCreated e)
  assume "sendable m"
  with OrderCreated have "\<forall>item \<in> set (ev_items e). has_type (item_json item) OrderItem_type" and "finite_number (ev_total e)"
    by (simp_all add: item_has_type)
  with OrderCreated show ?thesis by (simp add: event_json_def OrderCreatedEvent_type_def finite_number_def)
next
  case (PaymentResult e)
  then show ?thesis
    using payment_status_has_type by (simp add: PaymentResultEvent_type_def opt_field_def split: option.splits)
next
  case (StatusChanged e)
  then show ?thesis using status_has_type by simp
qed (simp_all add: finite_number_def)

lemma published_assignable: "assignable (published_type m) (consumed_type m)"
  by (cases m) (simp_all add: interface_types)

lemma request_has_type:
  assumes "\<forall>item \<in> set (rpc_items req). sendable_item item"
  shows "has_type (rpc_json req) (request_type (rpc_routing req))"
proof -
  have "assignable OrderItem_type ReservedItem_type" by (simp add: interface_types)
  then have "\<forall>item \<in> set (rpc_items req). has_type (item_json item) ReservedItem_type"
    using assms item_has_type assignable_sound by blast
  then show ?thesis
    by (cases "rpc_routing req") (simp_all add: rpc_json_def ReserveRequest_type_def OrderIdRequest_type_def)
qed

lemma result_has_type: "has_type (rpc_result_json r) InventoryRpcResult_type"
  by (cases "reason r") (simp_all add: rpc_result_json_def InventoryRpcResult_type_def opt_field_def)

lemma prices_has_type:
  "\<forall>(pid, price) \<in> set (prices r). finite_number price \<Longrightarrow> has_type (prices_json r) order_GetPricesResult_type"
  by (auto simp: prices_json_def order_GetPricesResult_type_def finite_number_def)

text \<open>C32: Every message and RPC payload the services send, with finite numbers and priced items, has the
  type that the code which receives it declares.\<close>
theorem payloads_have_declared_types:
  assumes "sendable m" and "\<forall>item \<in> set (rpc_items req). sendable_item item"
    and "\<forall>(pid, price) \<in> set (prices reply). finite_number price"
  shows "has_type (message_json m) (consumed_type m) \<and>
    has_type (rpc_json req) (request_type (rpc_routing req)) \<and>
    has_type (rpc_result_json result) InventoryRpcResult_type \<and>
    has_type (get_prices_json ids) GetPricesRequest_type \<and>
    has_type (prices_json reply) order_GetPricesResult_type"
  using assignable_sound [OF published_assignable message_published_type [OF assms(1)]]
    request_has_type [OF assms(2)] result_has_type prices_has_type [OF assms(3)]
  by (auto simp: get_prices_json_def GetPricesRequest_type_def)

theorem payloads_have_declared_types_witness:
  "has_type (message_json (PaymentRequested \<lparr>pr_orderId = ''o1'', pr_customerId = ''c1'', pr_total = js_int 200\<rparr>))
     PaymentRequestedEvent_type"
  using payloads_have_declared_types [of "PaymentRequested \<lparr>pr_orderId = ''o1'', pr_customerId = ''c1'', pr_total = js_int 200\<rparr>"
      "confirm_request ''o1''" "\<lparr>prices = [], missing = []\<rparr>"]
  by (simp add: finite_number_def js_int_def confirm_request_def)

section \<open>Reading an event\<close>

definition field_of :: "string \<Rightarrow> json \<Rightarrow> json option" where
  "field_of k j = (case j of JObject fs \<Rightarrow> map_of fs k | _ \<Rightarrow> None)"

definition string_field :: "string \<Rightarrow> json \<Rightarrow> string option" where
  "string_field k j = (case field_of k j of Some (JString s) \<Rightarrow> Some s | _ \<Rightarrow> None)"

definition number_field :: "string \<Rightarrow> json \<Rightarrow> js_number option" where
  "number_field k j = (case field_of k j of Some (JNumber x) \<Rightarrow> Some x | _ \<Rightarrow> None)"

definition read_item :: "json \<Rightarrow> OrderItem option" where
  "read_item j = (case (string_field ''productId'' j, number_field ''quantity'' j) of
     (Some p, Some q) \<Rightarrow> Some \<lparr>oi_productId = p, oi_quantity = q, oi_price = number_field ''price'' j\<rparr>
   | _ \<Rightarrow> None)"

fun all_some :: "'a option list \<Rightarrow> 'a list option" where
  "all_some [] = Some []"
| "all_some (None # xs) = None"
| "all_some (Some x # xs) = map_option ((#) x) (all_some xs)"

definition read_items :: "json \<Rightarrow> OrderItem list option" where
  "read_items j = (case field_of ''items'' j of Some (JArray xs) \<Rightarrow> all_some (map read_item xs) | _ \<Rightarrow> None)"

text \<open>The fields the saga reads of an \<open>order.created\<close> event.\<close>

definition read_order_created :: "json \<Rightarrow> OrderCreatedEvent option" where
  "read_order_created j = (case (string_field ''orderId'' j, string_field ''customerId'' j, number_field ''total'' j,
       read_items j, string_field ''createdAt'' j) of
     (Some oid, Some c, Some tot, Some items, Some created) \<Rightarrow>
       Some \<lparr>ev_orderId = oid, ev_customerId = c, ev_total = tot, ev_items = items, ev_createdAt = created\<rparr>
   | _ \<Rightarrow> None)"

lemmas readers = field_of_def string_field_def number_field_def

lemma read_item_json: "read_item (item_json item) = Some item"
  by (cases "oi_price item") (simp_all add: read_item_def item_json_def readers opt_field_def)

lemma all_some_Some: "all_some (map Some xs) = Some xs"
  by (induction xs) simp_all

lemma read_event_json: "read_order_created (event_json e) = Some e"
  by (simp add: read_order_created_def event_json_def read_items_def readers comp_def read_item_json all_some_Some)

text \<open>The same value up to the order of the fields of its objects: a jsonb column keeps no field order.\<close>

fun same_value :: "json \<Rightarrow> json \<Rightarrow> bool" where
  "same_value (JArray xs) j = (case j of JArray ys \<Rightarrow> list_all2 same_value xs ys | _ \<Rightarrow> False)"
| "same_value (JObject fs) j = (case j of
     JObject gs \<Rightarrow> distinct (map fst gs) \<and> fst ` set gs = fst ` set fs \<and>
       (\<forall>(k, v) \<in> set fs. case map_of gs k of None \<Rightarrow> False | Some w \<Rightarrow> same_value v w)
   | _ \<Rightarrow> False)"
| "same_value i j = (i = j)"


lemma same_object_field:
  assumes "same_value (JObject fs) j"
  shows "(k, v) \<in> set fs \<Longrightarrow> \<exists>w. field_of k j = Some w \<and> same_value v w"
    and "k \<notin> fst ` set fs \<Longrightarrow> field_of k j = None"
proof -
  obtain gs where j: "j = JObject gs" using assms by (cases j) auto
  show "(k, v) \<in> set fs \<Longrightarrow> \<exists>w. field_of k j = Some w \<and> same_value v w"
    using assms j by (fastforce simp: field_of_def split: option.splits)
  show "k \<notin> fst ` set fs \<Longrightarrow> field_of k j = None"
    using assms j by (simp add: field_of_def map_of_eq_None_iff)
qed

lemma same_string: "same_value (JString s) w \<longleftrightarrow> w = JString s"
  by auto

lemma same_number: "same_value (JNumber x) w \<longleftrightarrow> w = JNumber x"
  by auto

lemma same_object_string: "same_value (JObject fs) j \<Longrightarrow> (k, JString s) \<in> set fs \<Longrightarrow> string_field k j = Some s"
  using same_object_field(1) [of fs j k "JString s"] by (auto simp: string_field_def)

lemma same_object_number: "same_value (JObject fs) j \<Longrightarrow> (k, JNumber x) \<in> set fs \<Longrightarrow> number_field k j = Some x"
  using same_object_field(1) [of fs j k "JNumber x"] by (auto simp: number_field_def)

lemma read_item_same:
  assumes "same_value (item_json item) j"
  shows "read_item j = Some item"
proof -
  note obj = assms [unfolded item_json_def]
  have "string_field ''productId'' j = Some (oi_productId item)"
    by (rule same_object_string [OF obj]) simp
  moreover have "number_field ''quantity'' j = Some (oi_quantity item)"
    by (rule same_object_number [OF obj]) simp
  moreover have "number_field ''price'' j = oi_price item"
  proof (cases "oi_price item")
    case None
    then have "field_of ''price'' j = None"
      by (intro same_object_field(2) [OF obj]) (simp add: opt_field_def)
    with None show ?thesis by (simp add: number_field_def)
  next
    case (Some p)
    then have "number_field ''price'' j = Some p"
      by (intro same_object_number [OF obj]) (simp add: opt_field_def)
    with Some show ?thesis by simp
  qed
  ultimately show ?thesis by (simp add: read_item_def)
qed

lemma read_event_same:
  assumes "same_value (event_json e) j"
  shows "read_order_created j = Some e"
proof -
  note obj = assms [unfolded event_json_def]
  obtain w where w: "field_of ''items'' j = Some w" and "same_value (JArray (map item_json (ev_items e))) w"
    using same_object_field(1) [OF obj, of "''items''" "JArray (map item_json (ev_items e))"] by auto
  then obtain ys where "w = JArray ys" and ys: "list_all2 same_value (map item_json (ev_items e)) ys"
    by (cases w) auto
  have "map read_item ys = map Some (ev_items e)"
    using ys by (auto simp: list_all2_conv_all_nth list_eq_iff_nth_eq read_item_same)
  then have "read_items j = Some (ev_items e)"
    using w \<open>w = JArray ys\<close> by (simp add: read_items_def all_some_Some)
  moreover have "string_field ''orderId'' j = Some (ev_orderId e)" "string_field ''customerId'' j = Some (ev_customerId e)"
    "string_field ''createdAt'' j = Some (ev_createdAt e)" "number_field ''total'' j = Some (ev_total e)"
    by (rule same_object_string [OF obj], simp, rule same_object_string [OF obj], simp,
        rule same_object_string [OF obj], simp, rule same_object_number [OF obj], simp)
  ultimately show ?thesis by (simp add: read_order_created_def)
qed

text \<open>The numbers of an event are doubles when those of the request and the catalog are, so its text
  exists: what \<open>JSON.stringify\<close> writes parses to it.\<close>

definition carried_item :: "OrderItem \<Rightarrow> bool" where
  "carried_item item \<longleftrightarrow> js_double (oi_quantity item) \<and> finite_number (oi_quantity item) \<and>
     (case oi_price item of None \<Rightarrow> True | Some p \<Rightarrow> js_double p \<and> finite_number p)"

lemma js_int_number: "\<bar>n\<bar> < 2 ^ 53 \<Longrightarrow> js_double (js_int n) \<and> finite_number (js_int n)"
  using js_int_double [of n] by (simp add: finite_number_def js_int_def)

lemma js_zero_double: "js_double (js_int 0)"
  by (rule js_int_double) simp

lemma order_sum_double: "js_double (order_sum items)"
  by (cases items rule: rev_cases) (simp_all add: order_sum_def js_zero_double js_add_double)

lemma carried_item_json: "carried_item item \<Longrightarrow> json_ok (item_json item)"
  by (auto simp: carried_item_def item_json_def opt_field_def finite_number_def split: option.splits)

lemma event_json_ok:
  assumes "js_double (ev_total e)" and "finite_number (ev_total e)" and "\<forall>item \<in> set (ev_items e). carried_item item"
  shows "json_ok (event_json e)"
  using assms carried_item_json by (auto simp: event_json_def finite_number_def)

lemma same_value_refl: "json_ok j \<Longrightarrow> same_value j j"
proof (induction j)
  case (JArray xs)
  then show ?case by (simp add: list_all2_same)
next
  case (JObject fs)
  have "same_value v v" if "(k, v) \<in> set fs" for k v
    using JObject.IH [OF that, of v] JObject.prems that by fastforce
  moreover have "map_of fs k = Some v" if "(k, v) \<in> set fs" for k v
    using JObject.prems that by simp
  ultimately show ?case using JObject.prems by fastforce
qed simp_all

lemma priceItems_carried:
  assumes "priceItems fire items = Inr priced" and "\<forall>item \<in> set items. js_double (dto_item_quantity item) \<and>
      finite_number (dto_item_quantity item)"
    and "\<And>ids r. fire ids = Inr r \<Longrightarrow> \<forall>(pid, p) \<in> set (prices r). js_double p \<and> finite_number p"
  shows "\<forall>item \<in> set priced. carried_item item"
proof -
  from assms(1) obtain r where r: "fire (map dto_item_productId items) = Inr r"
    and priced: "priced = map (\<lambda>item. \<lparr>oi_productId = dto_item_productId item, oi_quantity = dto_item_quantity item,
        oi_price = js_Map (prices r) (dto_item_productId item)\<rparr>) items"
    by (auto simp: priceItems_def Let_def split: sum.splits if_splits)
  have "js_double p \<and> finite_number p" if "js_Map (prices r) pid = Some p" for pid p
    using assms(3) [OF r] js_Map_SomeD [OF that] by auto
  then show ?thesis using assms(2) unfolding priced by (auto simp: carried_item_def split: option.splits)
qed

lemma created_event_numbers:
  assumes "createOrder fire env dto db = (Inr order, db')"
    and "\<forall>item \<in> set (dto_items dto). js_double (dto_item_quantity item) \<and> finite_number (dto_item_quantity item)"
    and "\<forall>ids r. fire ids = Inr r \<longrightarrow> (\<forall>(pid, p) \<in> set (prices r). js_double p \<and> finite_number p)"
  shows "js_double (ev_total (event_of order))" and "\<forall>item \<in> set (ev_items (event_of order)). carried_item item"
proof -
  obtain items where items: "priceItems fire (dto_items dto) = Inr items"
    and "order_tx env (dto_customerId dto) items (order_sum items) db = Inr (order, db')"
    using assms(1) by (auto simp: createOrder_def split: sum.splits prod.splits)
  then have "ev_total (event_of order) = order_sum items" and "ev_items (event_of order) = items"
    using order_tx_Inr(1) by (fastforce simp: event_of_def)+
  then show "js_double (ev_total (event_of order))" "\<forall>item \<in> set (ev_items (event_of order)). carried_item item"
    using order_sum_double [of items] priceItems_carried [OF items assms(2)] assms(3) by simp_all
qed

text \<open>The event of an accepted order has a JSON text, which parses to it, when the numbers of the request
  and of the catalog are JavaScript numbers that are finite, and the total did not overflow: the
  arithmetic of the order service leads to no other numbers.\<close>
theorem stored_event_is_json:
  assumes "createOrder fire env dto db = (Inr order, db')" and "finite_number (order_total order)"
    and "\<forall>item \<in> set (dto_items dto). js_double (dto_item_quantity item) \<and> finite_number (dto_item_quantity item)"
    and "\<And>ids r. fire ids = Inr r \<Longrightarrow> \<forall>(pid, p) \<in> set (prices r). js_double p \<and> finite_number p"
  shows "JSON_parse (JSON_stringify (event_json (event_of order))) = Inr (event_json (event_of order))"
proof -
  have "finite_number (ev_total (event_of order))" using assms(2) by (simp add: event_of_def)
  then show ?thesis
    using parse_stringify [OF event_json_ok] created_event_numbers [OF assms(1,3)] assms(4) by blast
qed

text \<open>The order of an accepted request, its event as the database prints it in any field order, and the
  message the relay publishes for it: what the saga reads is the event that was stored.\<close>
theorem order_event_survives_the_wire:
  assumes "createOrder fire env dto db = (Inr order, db')"
    and "JSON_parse t = Inr j" and "same_value (event_json (event_of order)) j" and "w \<in> set (wire_forms t)"
  shows "(\<exists>row. outbox_events db' = outbox_events db @ [row] \<and> payload row = event_of order) \<and>
    consume exchange [None] [Some w] sent = ([], sent @ [(relay_exchange exchange, ''order.created'', j)]) \<and>
    read_order_created j = Some (event_of order)"
proof -
  have row: "outbox_events db' = outbox_events db @ [outbox_of (new_outbox_id env) order]"
    using assms(1) by (auto simp: createOrder_def split: sum.splits prod.splits dest: order_tx_Inr(3))
  obtain fs where fs: "j = JObject fs"
    using assms(3) by (cases j) (auto simp: event_json_def)
  have "w \<noteq> [] \<and> unwrap w = Inr (JObject fs)"
    using unwrap_wire [of t fs w] assms(2,4) fs by simp
  then have "consume exchange [None] [Some w] sent = ([], sent @ [(relay_exchange exchange, ''order.created'', j)])"
    by (simp add: eachMessage_def fs)
  with row show ?thesis
    using read_event_same [OF assms(3)] by (auto simp: outbox_of_def)
qed

definition one_item_env :: order_env where
  "one_item_env = \<lparr>new_order_id = ''o1'', new_outbox_id = ''e1'', now_iso = ''2025-01-01T00:00:00.000Z'',
     order_fault = None, outbox_fault = None, commit_fault = None\<rparr>"

definition one_item_order :: Order where
  "one_item_order = \<lparr>order_id = ''o1'', order_customerId = ''c1'',
     order_items = [\<lparr>oi_productId = ''p1'', oi_quantity = js_int 2, oi_price = Some (js_int 100)\<rparr>],
     order_total = js_int 200, order_status = PENDING, order_createdAt = ''2025-01-01T00:00:00.000Z''\<rparr>"

lemma one_item_total: "order_sum (order_items one_item_order) = js_int 200"
  using js_mul_int [of 100 2] js_add_int [of 0 200] by (simp add: order_sum_def item_amount_def one_item_order_def)

lemma one_item_created:
  "createOrder (\<lambda>_. Inr \<lparr>prices = [(''p1'', js_int 100)], missing = []\<rparr>) one_item_env
     \<lparr>dto_customerId = ''c1'', dto_items = [\<lparr>dto_item_productId = ''p1'', dto_item_quantity = js_int 2\<rparr>]\<rparr>
     \<lparr>orders = [], outbox_events = []\<rparr> =
   (Inr one_item_order, \<lparr>orders = [one_item_order], outbox_events = [outbox_of ''e1'' one_item_order]\<rparr>)"
  using one_item_total
  by (simp add: createOrder_def priceItems_def js_Map_def order_tx_def one_item_env_def one_item_order_def insert_row_def Let_def)

lemma one_item_json_ok: "json_ok (event_json (event_of one_item_order))"
proof (rule event_json_ok)
  show "js_double (ev_total (event_of one_item_order))"
    unfolding event_of_def one_item_order_def by (simp add: js_int_double del: js_double.simps)
  show "\<forall>item \<in> set (ev_items (event_of one_item_order)). carried_item item"
    unfolding event_of_def one_item_order_def carried_item_def
    by (simp add: js_int_double del: js_double.simps) (simp add: finite_number_def js_int_def)
qed (simp add: finite_number_def event_of_def one_item_order_def js_int_def)

theorem order_event_survives_the_wire_witness:
  "let j = event_json (event_of one_item_order); t = JSON_stringify j in
   consume None [None] [Some (JSON_stringify (JString t))] [] = ([], [(''ecommerce.events'', ''order.created'', j)]) \<and>
   read_order_created j = Some (event_of one_item_order)"
  using order_event_survives_the_wire [OF one_item_created parse_stringify [OF one_item_json_ok]
      same_value_refl [OF one_item_json_ok],
      of "JSON_stringify (JString (JSON_stringify (event_json (event_of one_item_order))))" None "[]"]
  by (simp add: wire_forms_def relay_exchange_def config_string_def Let_def del: JSON_stringify.simps)

theorem stored_event_is_json_witness:
  "JSON_parse (JSON_stringify (event_json (event_of one_item_order))) = Inr (event_json (event_of one_item_order))"
proof (rule stored_event_is_json [OF one_item_created])
  show "finite_number (order_total one_item_order)"
    by (simp add: finite_number_def one_item_order_def js_int_def)
qed (use js_int_number [of 2] js_int_number [of 100] in \<open>auto simp del: js_double.simps\<close>)

end
