(* ===== verification/Delivery.thy ===== *)
theory Delivery
  imports Wire Payment
begin

text \<open>
  The broker carries text: the client writes a payload with \<open>JSON.stringify\<close> and hands the consumer
  what \<open>JSON.parse\<close> makes of it. This theory puts the text between the saga and the inventory,
  between the order service and the catalog, and between publishers and consumers, and shows that
  the handlers cannot tell the difference. What is not finite, or no double, is not carried.
\<close>

section \<open>Carrying a value\<close>

definition unexpected :: exn where
  "unexpected = Error ''unexpected payload''"

definition carry :: "('a \<Rightarrow> json) \<Rightarrow> (json \<Rightarrow> 'b option) \<Rightarrow> 'a \<Rightarrow> 'b result" where
  "carry to_json from_json x = (case JSON_parse (JSON_stringify (to_json x)) of
     Inl e \<Rightarrow> Inl e
   | Inr j \<Rightarrow> (case from_json j of None \<Rightarrow> Inl unexpected | Some y \<Rightarrow> Inr y))"

text \<open>A way of writing and reading a payload; the reader may see it in another form.\<close>

locale codec =
  fixes to_json :: "'a \<Rightarrow> json" and from_json :: "json \<Rightarrow> 'b option" and view :: "'a \<Rightarrow> 'b" and carried :: "'a \<Rightarrow> bool"
  assumes has_text: "carried x \<Longrightarrow> json_ok (to_json x)"
    and reads_back: "carried x \<Longrightarrow> from_json (to_json x) = Some (view x)"
begin

lemma carry_view: "carried x \<Longrightarrow> carry to_json from_json x = Inr (view x)"
  using parse_stringify [OF has_text] reads_back by (simp add: carry_def)

end

section \<open>Readers\<close>

text \<open>What the inventory reads of a request that comes in on the queue of an operation.\<close>

definition read_reserved_item :: "json \<Rightarrow> ReservedItem option" where
  "read_reserved_item j = (case (string_field ''productId'' j, number_field ''quantity'' j) of
     (Some p, Some q) \<Rightarrow> Some \<lparr>item_productId = p, item_quantity = q\<rparr>
   | _ \<Rightarrow> None)"

definition read_call :: "inventory_routing \<Rightarrow> json \<Rightarrow> inventory_call option" where
  "read_call routing j = (case string_field ''orderId'' j of
     None \<Rightarrow> None
   | Some oid \<Rightarrow> (case routing of
       InventoryReserve \<Rightarrow> (case field_of ''items'' j of
           Some (JArray xs) \<Rightarrow> map_option (\<lambda>items. ReserveCall \<lparr>req_orderId = oid, req_items = items\<rparr>)
             (all_some (map read_reserved_item xs))
         | _ \<Rightarrow> None)
     | InventoryConfirm \<Rightarrow> Some (ConfirmCall oid)
     | InventoryRelease \<Rightarrow> Some (ReleaseCall oid)))"

text \<open>What the saga reads of an answer. An optional field may be absent.\<close>

definition read_rpc_result :: "json \<Rightarrow> RpcResult option" where
  "read_rpc_result j = (case field_of ''success'' j of
     Some (JBool b) \<Rightarrow> Some \<lparr>success = b, reason = string_field ''reason'' j\<rparr>
   | _ \<Rightarrow> None)"

definition read_string :: "json \<Rightarrow> string option" where
  "read_string j = (case j of JString s \<Rightarrow> Some s | _ \<Rightarrow> None)"

definition array_field :: "string \<Rightarrow> (json \<Rightarrow> 'a option) \<Rightarrow> json \<Rightarrow> 'a list option" where
  "array_field k read j = (case field_of k j of Some (JArray xs) \<Rightarrow> all_some (map read xs) | _ \<Rightarrow> None)"

definition read_product_ids :: "json \<Rightarrow> string list option" where
  "read_product_ids j = array_field ''productIds'' read_string j"

definition read_price :: "json \<Rightarrow> (string \<times> js_number) option" where
  "read_price j = (case (string_field ''productId'' j, number_field ''price'' j) of
     (Some p, Some x) \<Rightarrow> Some (p, x) | _ \<Rightarrow> None)"

definition read_prices :: "json \<Rightarrow> GetPricesResult option" where
  "read_prices j = (case (array_field ''prices'' read_price j, array_field ''missing'' read_string j) of
     (Some ps, Some ms) \<Rightarrow> Some \<lparr>prices = ps, missing = ms\<rparr> | _ \<Rightarrow> None)"

definition read_status :: "string \<Rightarrow> OrderStatus option" where
  "read_status = map_of [(''PENDING'', PENDING), (''INVENTORY_RESERVED'', INVENTORY_RESERVED),
     (''COMPLETED'', COMPLETED), (''CANCELLED'', CANCELLED)]"

definition read_payment_status :: "string \<Rightarrow> PaymentStatus option" where
  "read_payment_status = map_of [(''SUCCESS'', SUCCESS), (''FAILED'', FAILED)]"

text \<open>What the consumer of a routing key reads.\<close>

definition read_message :: "string \<Rightarrow> json \<Rightarrow> message option" where
  "read_message key j =
     (if key = ''order.created'' then map_option OrderCreated (read_order_created j)
      else case string_field ''orderId'' j of
        None \<Rightarrow> None
      | Some oid \<Rightarrow>
        if key = ''payment.requested'' then
          (case (string_field ''customerId'' j, number_field ''total'' j) of
             (Some c, Some t) \<Rightarrow> Some (PaymentRequested \<lparr>pr_orderId = oid, pr_customerId = c, pr_total = t\<rparr>)
           | _ \<Rightarrow> None)
        else if key = ''payment.succeeded'' \<or> key = ''payment.failed'' then
          map_option (\<lambda>st. PaymentResult \<lparr>res_event_orderId = oid, res_event_paymentId = string_field ''paymentId'' j,
             res_event_status = st\<rparr>) (Option.bind (string_field ''status'' j) read_payment_status)
        else if key = ''order.status-changed'' then
          (case (string_field ''customerId'' j, Option.bind (string_field ''status'' j) read_status) of
             (Some c, Some st) \<Rightarrow> Some (StatusChanged \<lparr>sc_orderId = oid, sc_customerId = c, sc_status = st\<rparr>)
           | _ \<Rightarrow> None)
        else None)"

section \<open>What text can carry\<close>

definition carried_number :: "js_number \<Rightarrow> bool" where
  "carried_number x \<longleftrightarrow> js_double x \<and> finite_number x"

definition carried_request :: "InventoryRpcRequest \<Rightarrow> bool" where
  "carried_request req \<longleftrightarrow> (\<forall>item \<in> set (rpc_items req). carried_item item)"

definition carried_event :: "OrderCreatedEvent \<Rightarrow> bool" where
  "carried_event e \<longleftrightarrow> carried_number (ev_total e) \<and> (\<forall>item \<in> set (ev_items e). carried_item item)"

definition carried_prices :: "GetPricesResult \<Rightarrow> bool" where
  "carried_prices r \<longleftrightarrow> (\<forall>p \<in> set (prices r). carried_number (snd p))"

text \<open>A message under the key it is published with.\<close>

fun carried_message :: "string \<Rightarrow> message \<Rightarrow> bool" where
  "carried_message key (OrderCreated e) \<longleftrightarrow> key = ''order.created'' \<and> carried_event e"
| "carried_message key (PaymentRequested e) \<longleftrightarrow> key = ''payment.requested'' \<and> carried_number (pr_total e)"
| "carried_message key (PaymentResult e) \<longleftrightarrow> key = ''payment.succeeded'' \<or> key = ''payment.failed''"
| "carried_message key (StatusChanged e) \<longleftrightarrow> key = ''order.status-changed''"

lemma carried_number_json: "carried_number x \<Longrightarrow> json_ok (JNumber x)"
  by (auto simp: carried_number_def finite_number_def)

section \<open>The codecs of the program\<close>

lemma map_all_some: "(\<And>x. x \<in> set xs \<Longrightarrow> f x = Some (g x)) \<Longrightarrow> all_some (map f xs) = Some (map g xs)"
  by (induction xs) simp_all

lemma read_reserved_item_json: "read_reserved_item (item_json item) = Some (reserved_item item)"
  by (simp add: read_reserved_item_def item_json_def readers reserved_item_def)

interpretation request_codec: codec rpc_json "read_call routing" call_of
  "\<lambda>req. rpc_routing req = routing \<and> carried_request req" for routing
proof
  fix req assume req: "rpc_routing req = routing \<and> carried_request req"
  then show "json_ok (rpc_json req)"
    using carried_item_json by (auto simp: rpc_json_def carried_request_def)
  have "all_some (map (read_reserved_item \<circ> item_json) (rpc_items req)) = Some (map reserved_item (rpc_items req))"
    by (rule map_all_some) (simp add: read_reserved_item_json)
  then show "read_call routing (rpc_json req) = Some (call_of req)"
    using req by (cases routing) (simp_all add: read_call_def rpc_json_def readers)
qed

interpretation result_codec: codec rpc_result_json read_rpc_result "\<lambda>r. r" "\<lambda>_. True"
proof
  fix r :: RpcResult
  show "json_ok (rpc_result_json r)" "read_rpc_result (rpc_result_json r) = Some r"
    by (cases "reason r"; simp add: rpc_result_json_def opt_field_def read_rpc_result_def readers)+
qed

interpretation ids_codec: codec get_prices_json read_product_ids "\<lambda>ids. ids" "\<lambda>_. True"
proof
  fix ids :: "string list"
  show "json_ok (get_prices_json ids)" by (auto simp: get_prices_json_def)
  show "read_product_ids (get_prices_json ids) = Some ids"
    using map_all_some [of ids "read_string \<circ> JString" "\<lambda>i. i"]
    by (simp add: get_prices_json_def read_product_ids_def array_field_def readers read_string_def)
qed

interpretation prices_codec: codec prices_json read_prices "\<lambda>r. r" carried_prices
proof
  fix r assume r: "carried_prices r"
  then show "json_ok (prices_json r)"
    using carried_number_json by (force simp: prices_json_def carried_prices_def split: prod.splits)
  have "all_some (map (read_price \<circ> (\<lambda>(pid, price). JObject [(''productId'', JString pid), (''price'', JNumber price)])) (prices r)) =
      Some (map (\<lambda>p. p) (prices r))"
    by (rule map_all_some) (auto simp: read_price_def readers)
  moreover have "all_some (map (read_string \<circ> JString) (missing r)) = Some (map (\<lambda>i. i) (missing r))"
    by (rule map_all_some) (simp add: read_string_def)
  ultimately show "read_prices (prices_json r) = Some r"
    by (simp add: prices_json_def read_prices_def array_field_def readers)
qed

lemma status_read: "\<exists>s. status_json st = JString s \<and> read_status s = Some st"
  by (cases st) (simp_all add: read_status_def)

lemma payment_status_read: "\<exists>s. payment_status_json st = JString s \<and> read_payment_status s = Some st"
  by (cases st) (simp_all add: read_payment_status_def)

interpretation message_codec: codec message_json "read_message key" "\<lambda>m. m" "carried_message key" for key
proof
  fix m assume m: "carried_message key m"
  show "json_ok (message_json m)"
  proof (cases m)
    case (OrderCreated e)
    then show ?thesis using m event_json_ok [of e] by (simp add: carried_event_def carried_number_def)
  next
    case (PaymentRequested e)
    then show ?thesis using m carried_number_json by auto
  next
    case (PaymentResult e)
    then show ?thesis
      using payment_status_read [of "res_event_status e"] by (auto simp: opt_field_def split: option.splits)
  next
    case (StatusChanged e)
    then show ?thesis using status_read [of "sc_status e"] by auto
  qed
  show "read_message key (message_json m) = Some m"
  proof (cases m)
    case (OrderCreated e)
    then show ?thesis using m by (simp add: read_message_def read_event_json)
  next
    case (PaymentRequested e)
    then show ?thesis using m by (simp add: read_message_def readers)
  next
    case (PaymentResult e)
    obtain st where st: "payment_status_json (res_event_status e) = JString st" "read_payment_status st = Some (res_event_status e)"
      using payment_status_read by blast
    from PaymentResult m have "key = ''payment.succeeded'' \<or> key = ''payment.failed''" by simp
    then show ?thesis
      by (cases "res_event_paymentId e"; elim disjE)
        (simp_all add: PaymentResult st read_message_def readers opt_field_def)
  next
    case (StatusChanged e)
    then show ?thesis using m status_read [of "sc_status e"] by (auto simp: read_message_def readers)
  qed
qed

section \<open>The saga over the wire\<close>

text \<open>The RPC with both of its messages as text. A text that cannot be read makes the handler's client
  answer nothing.\<close>

fun inventory_over_wire :: "rpc_delivery \<Rightarrow> InventoryDB inventory_rpc" where
  "inventory_over_wire (Unsent e) req db = (Inl e, db)"
| "inventory_over_wire (Answered f) req db = (case carry rpc_json (read_call (rpc_routing req)) req of
     Inl _ \<Rightarrow> (Inl timed_out, db)
   | Inr c \<Rightarrow> (case handle_inventory f False c db of
         (Reply r, db') \<Rightarrow> (carry rpc_result_json read_rpc_result r, db')
       | (Nack _, db') \<Rightarrow> (Inl timed_out, db')))"
| "inventory_over_wire (Unanswered f rd) req db = (case carry rpc_json (read_call (rpc_routing req)) req of
     Inl _ \<Rightarrow> (Inl timed_out, db)
   | Inr c \<Rightarrow> (Inl timed_out, snd (handle_inventory f rd c db)))"

lemma inventory_over_wire_same:
  assumes "carried_request req"
  shows "inventory_over_wire d req db = inventory_fire d req db"
  using request_codec.carry_view [of req "rpc_routing req"] result_codec.carry_view assms
  by (cases d) (simp_all del: call_of.simps handle_inventory.simps split: prod.splits reply.splits)

lemma carried_requests:
  "carried_request (reserve_request event) \<longleftrightarrow> (\<forall>item \<in> set (ev_items event). carried_item item)"
  "carried_request (confirm_request oid)" "carried_request (release_request oid)"
  by (simp_all add: carried_request_def reserve_request_def confirm_request_def release_request_def)

text \<open>What a handler publishes.\<close>

lemma status_message_carried: "carried_message (routing_key (status_message oid c st)) (body (status_message oid c st))"
  by (simp add: status_message_def publication_def)

lemma payment_request_carried:
  "carried_number (ev_total event) \<Longrightarrow> carried_message (routing_key (payment_request event)) (body (payment_request event))"
  by (simp add: payment_request_def publication_def)

definition all_carried :: "publication list \<Rightarrow> bool" where
  "all_carried ps \<longleftrightarrow> (\<forall>p \<in> set ps. carried_message (routing_key p) (body p))"

lemma setStatus_carried: "all_carried (saga_sent s) \<Longrightarrow> all_carried (saga_sent (setStatus faults oid st s))"
  using setStatus_sent [of faults oid st s] status_message_carried
  by (auto simp: all_carried_def split: if_splits)

lemma publish_carried:
  "all_carried ps \<Longrightarrow> carried_message (routing_key p) (body p) \<Longrightarrow> all_carried (publish_quietly fault p ps)"
  by (auto simp: all_carried_def set_publish_quietly)

lemma saga_sends_carried:
  assumes "all_carried (saga_sent s)"
  shows "carried_event event \<Longrightarrow> all_carried (saga_sent (handleOrderCreated fire faults event s))"
    and "all_carried (saga_sent (handlePaymentSucceeded fire faults result s))"
    and "all_carried (saga_sent (handlePaymentFailed fire faults result s))"
  using assms by (auto simp: handleOrderCreated_def handlePaymentSucceeded_def handlePaymentFailed_def Let_def
      carried_event_def setStatus_carried publish_carried payment_request_carried split: prod.splits sum.splits)

text \<open>C40: The saga with its RPC as text does, for every event that text can carry, in any state and under any
  faults and delivery, exactly what it does with the inventory called directly; and what it publishes,
  the consumer of its key reads as it was sent.\<close>
theorem saga_runs_over_text:
  assumes "carried_event event" and "all_carried (saga_sent s)"
  shows "handleOrderCreated (inventory_over_wire d) faults event s = handleOrderCreated (inventory_fire d) faults event s \<and>
    handlePaymentSucceeded (inventory_over_wire d) faults result s = handlePaymentSucceeded (inventory_fire d) faults result s \<and>
    handlePaymentFailed (inventory_over_wire d) faults result s = handlePaymentFailed (inventory_fire d) faults result s \<and>
    (\<forall>p \<in> set (saga_sent (handleOrderCreated (inventory_over_wire d) faults event s)) \<union>
          set (saga_sent (handlePaymentSucceeded (inventory_over_wire d) faults result s)) \<union>
          set (saga_sent (handlePaymentFailed (inventory_over_wire d) faults result s)).
       carry message_json (read_message (routing_key p)) (body p) = Inr (body p))"
proof -
  have same: "handleOrderCreated (inventory_over_wire d) faults event s = handleOrderCreated (inventory_fire d) faults event s"
    "handlePaymentSucceeded (inventory_over_wire d) faults result s = handlePaymentSucceeded (inventory_fire d) faults result s"
    "handlePaymentFailed (inventory_over_wire d) faults result s = handlePaymentFailed (inventory_fire d) faults result s"
    using assms(1) by (simp_all add: handleOrderCreated_def handlePaymentSucceeded_def handlePaymentFailed_def
        inventory_over_wire_same carried_requests carried_event_def del: inventory_over_wire.simps inventory_fire.simps)
  have "carry message_json (read_message (routing_key p)) (body p) = Inr (body p)"
    if "all_carried ps" "p \<in> set ps" for p ps
    using that message_codec.carry_view by (simp add: all_carried_def)
  with same show ?thesis
    using saga_sends_carried [OF assms(2)] assms(1) by blast
qed

definition waiting_saga :: "InventoryDB saga_state" where
  "waiting_saga = \<lparr>order_db = \<lparr>orders = [one_item_order], outbox_events = []\<rparr>, saga_sent = [],
     world = \<lparr>stock_items = [], reservations = []\<rparr>\<rparr>"

lemma one_item_carried: "carried_event (event_of one_item_order)"
  using js_int_number [of 2] js_int_number [of 100] js_int_number [of 200]
  by (simp add: carried_event_def carried_number_def carried_item_def event_of_def one_item_order_def del: js_double.simps)

theorem saga_runs_over_text_witness:
  "handleOrderCreated (inventory_over_wire (Answered no_faults)) no_saga_faults (event_of one_item_order) waiting_saga =
   handleOrderCreated (inventory_fire (Answered no_faults)) no_saga_faults (event_of one_item_order) waiting_saga"
  using saga_runs_over_text [OF one_item_carried, of waiting_saga "Answered no_faults" no_saga_faults]
  by (simp add: all_carried_def waiting_saga_def)

section \<open>Pricing over the wire\<close>

definition prices_over_wire :: "exn option \<Rightarrow> Product list \<Rightarrow> string list \<Rightarrow> GetPricesResult result" where
  "prices_over_wire fault products ids = (case carry get_prices_json read_product_ids ids of
     Inl e \<Rightarrow> Inl e
   | Inr ids' \<Rightarrow> carry prices_json read_prices (catalog_answer fault products ids'))"

lemma catalog_answer_carried:
  assumes "\<forall>p \<in> set products. carried_number (product_price p)"
  shows "carried_prices (catalog_answer fault products ids)"
proof -
  have "p \<in> set products" if "js_Map (map (\<lambda>p. (product_productId p, p)) products) i = Some p" for i p
    using js_Map_SomeD [OF that] by auto
  then show ?thesis
    using assms by (cases fault) (fastforce simp: carried_prices_def catalog_answer_def getPrices_def price_loop_result)+
qed

text \<open>An order is priced and stored over the wire as it is with the catalog called directly, when the
  prices in the catalog are finite doubles; and when the quantities are too and the total did not
  overflow, the text can carry its event, so the saga runs on it as above.\<close>
theorem order_runs_over_text:
  assumes "\<forall>p \<in> set products. carried_number (product_price p)"
  shows "createOrder (prices_over_wire fault products) env dto db =
      createOrder (\<lambda>ids. Inr (catalog_answer fault products ids)) env dto db \<and>
    (createOrder (prices_over_wire fault products) env dto db = (Inr order, db') \<longrightarrow>
      finite_number (order_total order) \<longrightarrow> (\<forall>item \<in> set (dto_items dto). carried_number (dto_item_quantity item)) \<longrightarrow>
      carried_event (event_of order))"
proof (intro conjI impI)
  have wire: "prices_over_wire fault products ids = Inr (catalog_answer fault products ids)" for ids
    using ids_codec.carry_view [of ids] prices_codec.carry_view [OF catalog_answer_carried [OF assms]]
    by (simp add: prices_over_wire_def)
  then show "createOrder (prices_over_wire fault products) env dto db =
      createOrder (\<lambda>ids. Inr (catalog_answer fault products ids)) env dto db"
    by (simp add: ext [where f = "prices_over_wire fault products", OF wire])
  assume created: "createOrder (prices_over_wire fault products) env dto db = (Inr order, db')"
    and total: "finite_number (order_total order)"
    and quantities: "\<forall>item \<in> set (dto_items dto). carried_number (dto_item_quantity item)"
  have "\<forall>(pid, x) \<in> set (prices r). js_double x \<and> finite_number x" if "prices_over_wire fault products ids = Inr r" for ids r
    using that wire [of ids] catalog_answer_carried [OF assms, of fault ids] by (auto simp: carried_prices_def carried_number_def)
  with quantities have "js_double (ev_total (event_of order))" "\<forall>item \<in> set (ev_items (event_of order)). carried_item item"
    using created_event_numbers [OF created] by (simp_all add: carried_number_def)
  moreover have "finite_number (ev_total (event_of order))" using total by (simp add: event_of_def)
  ultimately show "carried_event (event_of order)" by (simp add: carried_event_def carried_number_def)
qed

end
