(* ===== verification/Auth.thy ===== *)
theory Auth
  imports Tables
begin

text \<open>
  The auth service (\<open>auth-service/src/auth/auth.service.ts\<close>) and the token check of the services that
  verify its tokens (\<open>jwt.strategy.ts\<close>, \<open>jwt-auth.guard.ts\<close>). Hashing (bcrypt) and tokens
  (jsonwebtoken, passport-jwt) are library code and arguments here.
\<close>

section \<open>Data\<close>

record User =
  user_id :: string
  user_email :: string
  passwordHash :: string
  user_roles :: "string list"
  user_createdAt :: string

text \<open>\<open>RegisterDto\<close> and \<open>LoginDto\<close> have the same two fields.\<close>

record Credentials =
  cred_email :: string
  cred_password :: string

record Profile =
  profile_id :: string
  profile_email :: string
  profile_roles :: "string list"

record JwtPayload =
  jwt_sub :: string
  jwt_email :: string
  jwt_roles :: "string list"

text \<open>What the database and bcrypt do in one registration: what they reject with, and the key and
  time of the new row.\<close>

record register_env =
  user_lookup_fault :: "exn option"
  hash_fault :: "exn option"
  user_save_fault :: "exn option"
  new_user_id :: string
  new_user_time :: string

abbreviation find_user :: "string \<Rightarrow> User list \<Rightarrow> User option" where
  "find_user email users \<equiv> find_row user_email email users"

section \<open>Operations\<close>

definition profile_of :: "User \<Rightarrow> Profile" where
  "profile_of u = \<lparr>profile_id = user_id u, profile_email = user_email u, profile_roles = user_roles u\<rparr>"

definition new_user :: "(string \<Rightarrow> string) \<Rightarrow> register_env \<Rightarrow> Credentials \<Rightarrow> User" where
  "new_user bcrypt_hash env dto = \<lparr>user_id = new_user_id env, user_email = cred_email dto,
     passwordHash = bcrypt_hash (cred_password dto), user_roles = [''customer''], user_createdAt = new_user_time env\<rparr>"

definition register :: "(string \<Rightarrow> string) \<Rightarrow> register_env \<Rightarrow> Credentials \<Rightarrow> User list \<Rightarrow> Profile result \<times> User list" where
  "register bcrypt_hash env dto users =
     (case attempt (user_lookup_fault env) (Inr (find_user (cred_email dto) users)) of
        Inl e \<Rightarrow> (Inl e, users)
      | Inr (Some _) \<Rightarrow> (Inl (ConflictException ''Email already registered''), users)
      | Inr None \<Rightarrow> (case attempt (hash_fault env) (Inr (new_user bcrypt_hash env dto)) of
          Inl e \<Rightarrow> (Inl e, users)
        | Inr user \<Rightarrow> (case attempt (user_save_fault env) (insert_row user_email user users) of
            Inl e \<Rightarrow> (Inl e, users)
          | Inr users' \<Rightarrow> (Inr (profile_of user), users'))))"

definition payload_of :: "User \<Rightarrow> JwtPayload" where
  "payload_of u = \<lparr>jwt_sub = user_id u, jwt_email = user_email u, jwt_roles = user_roles u\<rparr>"

definition login :: "(string \<Rightarrow> string \<Rightarrow> bool) \<Rightarrow> (JwtPayload \<Rightarrow> 'token) \<Rightarrow> exn option \<Rightarrow> Credentials \<Rightarrow> User list \<Rightarrow>
    'token result" where
  "login bcrypt_compare sign fault dto users =
     (case attempt fault (Inr (find_user (cred_email dto) users)) of
        Inl e \<Rightarrow> Inl e
      | Inr None \<Rightarrow> Inl (UnauthorizedException ''Invalid credentials'')
      | Inr (Some user) \<Rightarrow>
          (if \<not> bcrypt_compare (cred_password dto) (passwordHash user)
           then Inl (UnauthorizedException ''Invalid credentials'')
           else Inr (sign (payload_of user))))"

definition me :: "exn option \<Rightarrow> string \<Rightarrow> User list \<Rightarrow> (Profile \<times> string) result" where
  "me fault userId users = (case attempt fault (Inr (find_row user_id userId users)) of
     Inl e \<Rightarrow> Inl e
   | Inr None \<Rightarrow> Inl (NotFoundException ''User not found'')
   | Inr (Some user) \<Rightarrow> Inr (profile_of user, user_createdAt user))"

section \<open>Tokens\<close>

definition jwt_secret :: "string option \<Rightarrow> string" where
  "jwt_secret env = config_string env ''dev-secret-change-me''"

definition validate :: "JwtPayload \<Rightarrow> JwtPayload" where
  "validate p = \<lparr>jwt_sub = jwt_sub p, jwt_email = jwt_email p, jwt_roles = jwt_roles p\<rparr>"

text \<open>A guarded route: passport-jwt verifies the bearer token with the secret and the strategy
  turns its payload into the request's user.\<close>

definition guarded :: "(string \<Rightarrow> 'token \<Rightarrow> JwtPayload option) \<Rightarrow> string option \<Rightarrow> 'token option \<Rightarrow>
    (JwtPayload \<Rightarrow> 'a result) \<Rightarrow> 'a result" where
  "guarded verify env bearer handler = (case bearer of
     None \<Rightarrow> Inl (UnauthorizedException ''Unauthorized'')
   | Some token \<Rightarrow> (case verify (jwt_secret env) token of
       None \<Rightarrow> Inl (UnauthorizedException ''Unauthorized'')
     | Some p \<Rightarrow> handler (validate p)))"

definition get_me :: "(string \<Rightarrow> 'token \<Rightarrow> JwtPayload option) \<Rightarrow> string option \<Rightarrow> 'token option \<Rightarrow> exn option \<Rightarrow>
    User list \<Rightarrow> (Profile \<times> string) result" where
  "get_me verify env bearer fault users = guarded verify env bearer (\<lambda>user. me fault (jwt_sub user) users)"

section \<open>The user table\<close>

interpretation user_table: unique_store user_email "find_row user_email" "insert_row user_email"
  by (rule unique_table_store)

definition users_inv :: "User list \<Rightarrow> bool" where
  "users_inv users \<longleftrightarrow> distinct (map user_email users) \<and> distinct (map user_id users) \<and>
     list_all (\<lambda>u. user_roles u = [''customer'']) users"

definition no_register_faults :: "string \<Rightarrow> register_env" where
  "no_register_faults uid = \<lparr>user_lookup_fault = None, hash_fault = None, user_save_fault = None,
     new_user_id = uid, new_user_time = ''2025-01-01T00:00:00.000Z''\<rparr>"

lemma validate_id [simp]: "validate p = p"
  by (simp add: validate_def)

lemma register_Inr:
  "register h env dto users = (Inr pr, users') \<Longrightarrow>
     pr = profile_of (new_user h env dto) \<and> users' = users @ [new_user h env dto] \<and>
     cred_email dto \<notin> user_email ` set users"
  by (auto simp: register_def attempt_Inr insert_row_Inr new_user_def split: sum.splits option.splits)

lemma register_fresh:
  assumes "find_user (cred_email dto) users = None"
  shows "register h (no_register_faults uid) dto users =
    (Inr (profile_of (new_user h (no_register_faults uid) dto)), users @ [new_user h (no_register_faults uid) dto])"
proof -
  have "insert_row user_email (new_user h (no_register_faults uid) dto) users =
      Inr (users @ [new_user h (no_register_faults uid) dto])"
    using assms by (intro insert_row_fresh) (simp add: new_user_def find_row_None_iff)
  with assms show ?thesis by (simp add: register_def no_register_faults_def)
qed

section \<open>Properties\<close>

text \<open>C23: Registration, login and profile fit together: after a registration the same credentials log
  in, the token names the registered user with the role of a customer, any service with the same
  secret accepts it, and \<open>/auth/me\<close> returns the registered profile. Assumed of the libraries: a hash
  compares with the password it was made from, and a token verifies with the secret that signed it.\<close>
theorem register_login_me:
  assumes "find_user (cred_email dto) users = None" and "uid \<notin> user_id ` set users"
    and "\<And>pw. bcrypt_compare pw (bcrypt_hash pw)"
    and "\<And>secret p. verify secret (sign secret p) = Some p"
  shows "case register bcrypt_hash (no_register_faults uid) dto users of
      (Inr profile, users') \<Rightarrow>
        profile = \<lparr>profile_id = uid, profile_email = cred_email dto, profile_roles = [''customer'']\<rparr> \<and>
        (case login bcrypt_compare (sign (jwt_secret env)) None dto users' of
           Inr token \<Rightarrow> map_sum id fst (get_me verify env (Some token) None users') = Inr profile
         | Inl _ \<Rightarrow> False)
    | (Inl _, _) \<Rightarrow> False"
proof -
  let ?u = "new_user bcrypt_hash (no_register_faults uid) dto"
  have "find_user (cred_email dto) (users @ [?u]) = Some ?u"
    using assms(1) by (simp add: find_row_append new_user_def)
  moreover have "find_row user_id uid (users @ [?u]) = Some ?u"
    using assms(2) by (simp add: find_row_append find_row_notin new_user_def no_register_faults_def)
  moreover have "bcrypt_compare (cred_password dto) (passwordHash ?u)" and "user_id ?u = uid"
    using assms(3) by (simp_all add: new_user_def no_register_faults_def)
  ultimately show ?thesis
    using assms(4) register_fresh [OF assms(1), of bcrypt_hash uid]
    by (simp add: login_def get_me_def guarded_def me_def payload_of_def profile_of_def new_user_def
        no_register_faults_def)
qed

definition a_user :: Credentials where
  "a_user = \<lparr>cred_email = ''a@b.c'', cred_password = ''secret''\<rparr>"

text \<open>Stand-ins for the libraries: a hash that marks the password, tokens that are read with the
  secret they were made with.\<close>

definition mark_hash :: "string \<Rightarrow> string" where
  "mark_hash pw = CHR ''$'' # pw"

definition mark_compare :: "string \<Rightarrow> string \<Rightarrow> bool" where
  "mark_compare pw h = (h = mark_hash pw)"

definition open_token :: "string \<Rightarrow> string \<times> JwtPayload \<Rightarrow> JwtPayload option" where
  "open_token secret token = (if fst token = secret then Some (snd token) else None)"

theorem register_login_me_witness:
  "case register mark_hash (no_register_faults ''u1'') a_user [] of
     (Inr profile, users') \<Rightarrow> profile_id profile = ''u1''
   | (Inl _, _) \<Rightarrow> False"
proof -
  have new: "find_user (cred_email a_user) [] = None" "''u1'' \<notin> user_id ` set []"
    and libs: "mark_compare pw (mark_hash pw)" "open_token secret (Pair secret p) = Some p" for pw secret p
    by (simp_all add: mark_compare_def open_token_def)
  obtain r users' where r: "register mark_hash (no_register_faults ''u1'') a_user [] = (r, users')" by force
  from register_login_me [of a_user "[]" "''u1''" mark_compare mark_hash open_token Pair None, OF new libs] show ?thesis
    unfolding r by (cases r) auto
qed

text \<open>Login tells nothing apart: an unknown email and a wrong password are refused with the same
  exception, and no token is issued unless the stored hash accepts the password.\<close>
theorem login_refuses_alike:
  "login bcrypt_compare sign None dto users =
     (if (case find_user (cred_email dto) users of None \<Rightarrow> False | Some u \<Rightarrow> bcrypt_compare (cred_password dto) (passwordHash u))
      then Inr (sign (payload_of (the (find_user (cred_email dto) users))))
      else Inl (UnauthorizedException ''Invalid credentials''))"
  by (simp add: login_def split: option.splits)

text \<open>Registration keeps the table sound, whatever fails: emails and ids stay unique and every
  user has exactly the role of a customer, so no request can register a privileged account; a second
  registration of an email is refused with a conflict.\<close>
theorem register_keeps_users_inv:
  assumes "users_inv users" and "new_user_id env \<notin> user_id ` set users"
  shows "users_inv (snd (register bcrypt_hash env dto users)) \<and>
    (find_user (cred_email dto) users \<noteq> None \<longrightarrow> snd (register bcrypt_hash env dto users) = users)"
proof (cases "register bcrypt_hash env dto users")
  case (Pair r users')
  show ?thesis
  proof (cases r)
    case (Inl e)
    with Pair have "users' = users"
      by (auto simp: register_def split: sum.splits option.splits)
    with Pair assms show ?thesis by simp
  next
    case (Inr pr)
    with register_Inr [of bcrypt_hash env dto users pr users'] Pair assms show ?thesis
      by (auto simp: users_inv_def new_user_def find_row_None_iff)
  qed
qed

theorem register_keeps_users_inv_witness:
  "users_inv (snd (register mark_hash (no_register_faults ''u1'') a_user []))"
  using register_keeps_users_inv [of "[]" "no_register_faults ''u1''" mark_hash a_user]
  by (simp add: users_inv_def)

end
