(* ===== verification/Environment.thy ===== *)
theory Environment
  imports Number_Text
begin

text \<open>
  The environment of a process and \<open>Number(...)\<close>, which turns its strings into numbers.
\<close>

type_synonym process_env = "string \<Rightarrow> string option"

section \<open>Number of a string\<close>

definition js_white_space :: "char \<Rightarrow> bool" where
  "js_white_space c \<longleftrightarrow> c \<in> {CHR '' '', CHR 0x09, CHR 0x0A, CHR 0x0B, CHR 0x0C, CHR 0x0D, CHR 0xA0}"

definition trim :: "string \<Rightarrow> string" where
  "trim s = rev (dropWhile js_white_space (rev (dropWhile js_white_space s)))"

text \<open>Unlike a JSON number, a decimal literal may have leading zeros and lack digits on one side of
  the point.\<close>

definition decimal_literal :: "string \<Rightarrow> js_number option" where
  "decimal_literal s = (let ip = takeWhile is_digit s; r = dropWhile is_digit s;
       (fp, r') = (case r of
           c # t \<Rightarrow> if c = CHR ''.'' then (takeWhile is_digit t, dropWhile is_digit t) else ([], r)
         | [] \<Rightarrow> ([], [])) in
     if s = ''Infinity'' then Some PosInf
     else if ip = [] \<and> fp = [] then None
     else case read_exponent r' of
         Some (e, []) \<Rightarrow> Some (round_double (of_nat (nat_of_digits (ip @ fp)) * 10 powi (e - int (length fp))))
       | _ \<Rightarrow> None)"

definition radix_of :: "char \<Rightarrow> nat option" where
  "radix_of c = (if c \<in> set ''xX'' then Some 16 else if c \<in> set ''oO'' then Some 8 else if c \<in> set ''bB'' then Some 2 else None)"

fun radix_digits :: "nat \<Rightarrow> string \<Rightarrow> nat \<Rightarrow> nat option" where
  "radix_digits base [] acc = Some acc"
| "radix_digits base (c # cs) acc = (case hex_value c of
     None \<Rightarrow> None | Some d \<Rightarrow> if d < base then radix_digits base cs (base * acc + d) else None)"

definition radix_literal :: "string \<Rightarrow> js_number option" where
  "radix_literal s = (case s of
     z # c # d # ds \<Rightarrow> (case radix_of c of
         None \<Rightarrow> None
       | Some base \<Rightarrow> if z = CHR ''0'' then map_option (\<lambda>n. round_double (of_nat n)) (radix_digits base (d # ds) 0) else None)
   | _ \<Rightarrow> None)"

text \<open>\<open>Number(undefined)\<close> is \<open>NaN\<close>, \<open>Number('')\<close> is zero.\<close>

definition number_of_text :: "string \<Rightarrow> js_number" where
  "number_of_text t = (let s = trim t in
     if s = [] then js_int 0
     else case radix_literal s of
         Some x \<Rightarrow> x
       | None \<Rightarrow> (case (if hd s \<in> set ''+-'' then decimal_literal (tl s) else decimal_literal s) of
           Some x \<Rightarrow> if hd s = CHR ''-'' then js_negate x else x
         | None \<Rightarrow> NaN))"

definition js_Number :: "string option \<Rightarrow> js_number" where
  "js_Number v = (case v of None \<Rightarrow> NaN | Some t \<Rightarrow> number_of_text t)"

text \<open>\<open>Number(process.env.X ?? n)\<close>\<close>

definition env_number :: "string option \<Rightarrow> int \<Rightarrow> js_number" where
  "env_number v fallback = (case v of None \<Rightarrow> js_int fallback | Some t \<Rightarrow> number_of_text t)"

section \<open>Digits\<close>

lemma digit_no_space: "is_digit c \<Longrightarrow> \<not> js_white_space c"
  by (auto simp: is_digit_def js_white_space_def)

lemma trim_digits:
  assumes "\<forall>c \<in> set ds. is_digit c"
  shows "trim ds = ds"
proof -
  have "dropWhile js_white_space xs = xs" if "\<forall>c \<in> set xs. is_digit c" for xs
    using that digit_no_space by (cases xs) auto
  then show ?thesis using assms by (simp add: trim_def)
qed

lemma radix_of_digit: "is_digit c \<Longrightarrow> radix_of c = None"
  by (auto simp: radix_of_def is_digit_def)

lemma number_of_digits:
  assumes "\<forall>c \<in> set ds. is_digit c" and "ds \<noteq> []"
  shows "number_of_text ds = round_double (of_nat (nat_of_digits ds))"
proof -
  have split: "takeWhile is_digit ds = ds" "dropWhile is_digit ds = []"
    using takeWhile_digits [of ds "[]"] assms(1) by simp_all
  have "is_digit (hd ds)" using assms by (cases ds) auto
  moreover have "ds \<noteq> ''Infinity''"
  proof
    assume "ds = ''Infinity''"
    with assms(1) have "is_digit CHR ''I''" by simp
    then show False by (simp add: is_digit_def)
  qed
  ultimately have "decimal_literal ds = Some (round_double (of_nat (nat_of_digits ds)))"
    using assms(2) unfolding decimal_literal_def Let_def split by (simp add: read_exponent_def)
  moreover have "radix_literal ds = None"
    using assms(1) radix_of_digit by (simp add: radix_literal_def split: list.splits)
  moreover have "hd ds \<noteq> CHR ''+'' \<and> hd ds \<noteq> CHR ''-''"
    using \<open>is_digit (hd ds)\<close> by (auto simp: is_digit_def)
  ultimately show ?thesis
    using trim_digits [OF assms(1)] assms(2) by (simp add: number_of_text_def)
qed

lemma number_of_nat_text: "number_of_text (string_of_nat n) = round_double (of_nat n)"
  using number_of_digits [OF digits_string_of_nat] by simp

lemma number_of_small_text: "n < 2 ^ 53 \<Longrightarrow> number_of_text (string_of_nat n) = js_int (int n)"
  using round_double_int [of "int n"] by (simp add: number_of_nat_text js_int_def)

end
