(* ===== verification/Config.thy ===== *)
theory Config
  imports Environment
begin

text \<open>
  Numbers from the environment. \<open>configService.get<number>\<close> hands back what \<open>process.env\<close> holds,
  a string, or the fallback of the call, a number; the type parameter converts nothing. The order
  service and the saga add a second to their RPC timeout for their circuit breaker
  (\<open>order.service.ts\<close> and \<open>saga-orchestrator.service.ts\<close>, constructors).
\<close>

section \<open>Values and addition\<close>

datatype config_value = Text string | Number nat

definition config_number :: "string option \<Rightarrow> nat \<Rightarrow> config_value" where
  "config_number env fallback = (case env of Some v \<Rightarrow> Text v | None \<Rightarrow> Number fallback)"

text \<open>The operator \<open>+\<close>: two numbers are added, otherwise both are turned into text and joined.\<close>

fun text_of :: "config_value \<Rightarrow> string" where
  "text_of (Text s) = s"
| "text_of (Number n) = string_of_nat n"

fun js_plus :: "config_value \<Rightarrow> config_value \<Rightarrow> config_value" where
  "js_plus (Number m) (Number n) = Number (m + n)"
| "js_plus x y = Text (text_of x @ text_of y)"

text \<open>What a timer makes of a value.\<close>

fun milliseconds :: "config_value \<Rightarrow> js_number" where
  "milliseconds (Number n) = js_int (int n)"
| "milliseconds (Text s) = number_of_text s"

section \<open>The RPC timeouts of the order service\<close>

definition catalogRpcTimeoutMs :: "string option \<Rightarrow> config_value" where
  "catalogRpcTimeoutMs env = config_number env 10000"

definition priceBreaker_timeout :: "string option \<Rightarrow> config_value" where
  "priceBreaker_timeout env = js_plus (catalogRpcTimeoutMs env) (Number 1000)"

definition inventoryRpcTimeoutMs :: "string option \<Rightarrow> config_value" where
  "inventoryRpcTimeoutMs env = config_number env 10000"

definition inventoryBreaker_timeout :: "string option \<Rightarrow> config_value" where
  "inventoryBreaker_timeout env = js_plus (inventoryRpcTimeoutMs env) (Number 1000)"

definition gatewayTimeoutMs :: "string option \<Rightarrow> config_value" where
  "gatewayTimeoutMs env = config_number env 2000"

section \<open>The options of the circuit breakers\<close>

record breaker_options =
  breaker_timeout :: config_value
  errorThresholdPercentage :: nat
  resetTimeout :: nat
  rollingCountTimeout :: nat

definition priceBreaker :: "string option \<Rightarrow> breaker_options" where
  "priceBreaker env = \<lparr>breaker_timeout = priceBreaker_timeout env, errorThresholdPercentage = 50,
     resetTimeout = 10000, rollingCountTimeout = 10000\<rparr>"

definition inventoryBreaker :: "string option \<Rightarrow> breaker_options" where
  "inventoryBreaker env = \<lparr>breaker_timeout = inventoryBreaker_timeout env, errorThresholdPercentage = 50,
     resetTimeout = 10000, rollingCountTimeout = 10000\<rparr>"

definition gatewayBreaker :: "string option \<Rightarrow> breaker_options" where
  "gatewayBreaker env = \<lparr>breaker_timeout = gatewayTimeoutMs env, errorThresholdPercentage = 50,
     resetTimeout = 10000, rollingCountTimeout = 10000\<rparr>"

section \<open>The timeouts of the breakers\<close>

lemma text_1000: "string_of_nat 1000 = ''1000''"
  by (simp add: string_of_nat.simps)

lemma joined_digits: "number_of_text (string_of_nat n @ ''1000'') = round_double (of_nat (10000 * n + 1000))"
proof -
  have "\<forall>c \<in> set (string_of_nat n @ ''1000''). is_digit c"
    using digits_string_of_nat [of n] by (auto simp: is_digit_def)
  moreover have "nat_of_digits (string_of_nat n @ ''1000'') = 10000 * n + 1000"
    using nat_of_digits_zeros [of "string_of_nat n @ ''1''" 3] nat_of_digits_snoc [of "string_of_nat n" "CHR ''1''"]
    by (simp add: numeral_3_eq_3 digit_value_def)
  ultimately show ?thesis using number_of_digits [of "string_of_nat n @ ''1000''"] by simp
qed

text \<open>With the timeout left to its default the breaker waits one second longer than the RPC. With
  the timeout set in the environment, as the manifests and the examples do, the sum is a string
  concatenation: for a timeout of \<open>n\<close> milliseconds the breaker waits \<open>10000 n + 1000\<close>, which for the
  deployed value of ten seconds is more than a day. The breaker of the payment service adds nothing and
  keeps the timeout it is given.\<close>
theorem breaker_timeout_from_environment:
  "milliseconds (breaker_timeout (priceBreaker None)) = js_int 11000 \<and>
   milliseconds (catalogRpcTimeoutMs (Some (string_of_nat n))) = round_double (of_nat n) \<and>
   milliseconds (breaker_timeout (priceBreaker (Some (string_of_nat n)))) = round_double (of_nat (10000 * n + 1000)) \<and>
   milliseconds (breaker_timeout (inventoryBreaker (Some (string_of_nat n)))) = round_double (of_nat (10000 * n + 1000)) \<and>
   milliseconds (breaker_timeout (gatewayBreaker (Some (string_of_nat n)))) = round_double (of_nat n)"
  by (simp add: priceBreaker_def inventoryBreaker_def gatewayBreaker_def priceBreaker_timeout_def catalogRpcTimeoutMs_def
      inventoryBreaker_timeout_def inventoryRpcTimeoutMs_def gatewayTimeoutMs_def config_number_def text_1000
      joined_digits number_of_nat_text)

end
