(* ===== verification/Integration_Specs.thy ===== *)
theory Integration_Specs
  imports Inventory_Concurrency Payment_Props Wire Auth Config
begin

text \<open>
  The integration tests of the services (\<open>*.integration-spec.ts\<close>) run on the model: each test is a
  computation that builds its tables, calls the modelled operations and compares what the test
  compares. Two of the suites do not agree with the code they test, and the theory shows how.
\<close>

section \<open>Inventory\<close>

text \<open>\<open>expect\<close> on the row of a product.\<close>

definition stock_row_is :: "string \<Rightarrow> int \<Rightarrow> int \<Rightarrow> InventoryDB \<Rightarrow> bool" where
  "stock_row_is pid available reserved db = (case findStock pid db of
     None \<Rightarrow> False
   | Some stock \<Rightarrow> availableQuantity stock = available \<and> reservedQuantity stock = reserved)"

fun succeeded :: "RpcResult reply \<Rightarrow> bool" where
  "succeeded (Reply r) = success r"
| "succeeded (Nack _) = False"

definition spec_seeds_and_reserves :: bool where
  "spec_seeds_and_reserves = (case reserve no_faults (a_request ''o1'' ''p1'' 3) False empty_inventory of
     (result, db) \<Rightarrow> succeeded result \<and> stock_row_is ''p1'' 1000 3 db)"

text \<open>\<open>Promise.all\<close> of two handlers: each is its lookup and then its transaction, and the schedule says
  whose turn it is. A handler that has answered has no turns left.\<close>

datatype progress = Called inventory_call | InTransaction inventory_tx | Answered RpcResult

fun advance :: "progress \<Rightarrow> InventoryDB \<Rightarrow> progress \<times> InventoryDB" where
  "advance (Called c) db = (case before_tx None c db of
     Inl r \<Rightarrow> (Answered r, db) | Inr tx \<Rightarrow> (InTransaction tx, db))"
| "advance (InTransaction tx) db = apfst Answered (run_tx None tx db)"
| "advance (Answered r) db = (Answered r, db)"

fun race :: "bool list \<Rightarrow> progress \<Rightarrow> progress \<Rightarrow> InventoryDB \<Rightarrow> progress \<times> progress \<times> InventoryDB" where
  "race [] p q db = (p, q, db)"
| "race (first # turns) p q db = (if first
     then (case advance p db of (p', db') \<Rightarrow> race turns p' q db')
     else (case advance q db of (q', db') \<Rightarrow> race turns p q' db'))"

text \<open>Every order of two turns each.\<close>

definition schedules :: "bool list list" where
  "schedules = [[True, True, False, False], [True, False, True, False], [True, False, False, True],
     [False, True, True, False], [False, True, False, True], [False, False, True, True]]"

fun answered_success :: "progress \<Rightarrow> bool option" where
  "answered_success (Answered r) = Some (success r)"
| "answered_success _ = None"

definition one_row_stock :: "string \<Rightarrow> int \<Rightarrow> InventoryDB" where
  "one_row_stock pid available = \<lparr>stock_items =
     [\<lparr>stock_productId = pid, availableQuantity = available, reservedQuantity = 0\<rparr>], reservations = []\<rparr>"

text \<open>The test for given quantities and schedule: exactly one reservation succeeds, and its quantity is
  what is reserved.\<close>

definition one_of_two_succeeds :: "int \<Rightarrow> int \<Rightarrow> int \<Rightarrow> bool list \<Rightarrow> bool" where
  "one_of_two_succeeds available m n schedule = (case race schedule
       (Called (ReserveCall (a_request ''a'' ''scarce'' m))) (Called (ReserveCall (a_request ''b'' ''scarce'' n)))
       (one_row_stock ''scarce'' available) of
     (p, q, db) \<Rightarrow>
       (answered_success p = Some True \<and> answered_success q = Some False \<and> stock_row_is ''scarce'' available m db) \<or>
       (answered_success p = Some False \<and> answered_success q = Some True \<and> stock_row_is ''scarce'' available n db))"

definition spec_prevents_oversell :: bool where
  "spec_prevents_oversell = list_all (one_of_two_succeeds 5 4 4) schedules"

definition spec_reserve_is_idempotent :: bool where
  "spec_reserve_is_idempotent = (case reserve no_faults (a_request ''o2'' ''p2'' 2) False empty_inventory of
     (_, db) \<Rightarrow> (case reserve no_faults (a_request ''o2'' ''p2'' 2) False db of
       (second, db') \<Rightarrow> succeeded second \<and> (case findStock ''p2'' db' of
         None \<Rightarrow> False | Some stock \<Rightarrow> reservedQuantity stock = 2)))"

definition spec_confirm_decrements_both :: bool where
  "spec_confirm_decrements_both = (case reserve no_faults (a_request ''o3'' ''p3'' 5) False empty_inventory of
     (_, db) \<Rightarrow> (case confirm no_faults ''o3'' False db of
       (result, db') \<Rightarrow> succeeded result \<and> stock_row_is ''p3'' 995 0 db'))"

definition spec_release_restores :: bool where
  "spec_release_restores = (case reserve no_faults (a_request ''o4'' ''p4'' 5) False empty_inventory of
     (_, db) \<Rightarrow> (case release no_faults ''o4'' False db of
       (result, db') \<Rightarrow> succeeded result \<and> stock_row_is ''p4'' 1000 0 db'))"

lemma reserve_tx_one_item:
  assumes "findStock pid db = Some s" and "findReservation oid db = None" and "0 < n" and "n \<le> int4_max"
    and "0 \<le> reservedQuantity s" and "reservedQuantity s \<le> availableQuantity s" and "availableQuantity s \<le> int4_max"
  shows "reserve_tx None (a_request oid pid n) db =
    (if n \<le> availableQuantity s - reservedQuantity s
     then (\<lparr>success = True, reason = None\<rparr>, \<lparr>stock_items = update_rows stock_productId pid
         (\<lambda>t. t\<lparr>reservedQuantity := reservedQuantity s + n\<rparr>) (stock_items db),
         reservations = reservations db @ [\<lparr>res_orderId = oid, res_items = [an_item pid n], res_status = RESERVED\<rparr>]\<rparr>)
     else (\<lparr>success = False, reason = Some (''insufficient_stock:'' @ pid)\<rparr>, db))"
proof -
  have "int4 n = Inr n" "int4 (availableQuantity s - reservedQuantity s) = Inr (availableQuantity s - reservedQuantity s)"
    using assms by (simp_all add: int4_ok)
  moreover have "int4 (reservedQuantity s + n) = Inr (reservedQuantity s + n)" if "n \<le> availableQuantity s - reservedQuantity s"
    using assms that by (intro int4_ok) linarith+
  moreover have "res_orderId r \<noteq> oid" if "r \<in> set (reservations db)" for r
    using assms(2) that by (auto simp: find_row_None_iff)
  ultimately show ?thesis
    using assms(1-3)
    by (auto simp: reserve_tx_def reserve_body_def a_request_def an_item_def reserve_item_def Let_def ensureStockExists_def
        reserve_update_def insert_row_fresh find_row_None_iff)
qed


lemma before_reserve:
  "findReservation oid db = None \<Longrightarrow> before_tx None (ReserveCall (a_request oid pid n)) db = Inr (ReserveTx (a_request oid pid n))"
  by (simp add: a_request_def)

lemma race_two_reservations:
  assumes "schedule \<in> set schedules" and "0 < m" and "m \<le> available" and "0 < n" and "n \<le> available"
    and "available < m + n" and "available \<le> int4_max"
  shows "one_of_two_succeeds available m n schedule"
proof -
  let ?a = "a_request ''a'' ''scarce'' m" and ?b = "a_request ''b'' ''scarce'' n"
  let ?db = "one_row_stock ''scarce'' available"
  have first: "reserve_tx None (a_request oid ''scarce'' k) ?db = (\<lparr>success = True, reason = None\<rparr>,
      \<lparr>stock_items = [\<lparr>stock_productId = ''scarce'', availableQuantity = available, reservedQuantity = k\<rparr>],
       reservations = [\<lparr>res_orderId = oid, res_items = [an_item ''scarce'' k], res_status = RESERVED\<rparr>]\<rparr>)"
    if "0 < k" "k \<le> available" for oid k
    using assms(7) that by (subst reserve_tx_one_item) (auto simp: one_row_stock_def update_rows_def)
  have second: "reserve_tx None (a_request oid ''scarce'' k')
      \<lparr>stock_items = [\<lparr>stock_productId = ''scarce'', availableQuantity = available, reservedQuantity = k\<rparr>],
       reservations = [\<lparr>res_orderId = oid', res_items = [an_item ''scarce'' k], res_status = RESERVED\<rparr>]\<rparr> =
      (\<lparr>success = False, reason = Some ''insufficient_stock:scarce''\<rparr>,
       \<lparr>stock_items = [\<lparr>stock_productId = ''scarce'', availableQuantity = available, reservedQuantity = k\<rparr>],
       reservations = [\<lparr>res_orderId = oid', res_items = [an_item ''scarce'' k], res_status = RESERVED\<rparr>]\<rparr>)"
    if "0 < k" "k \<le> available" "0 < k'" "k' \<le> available" "available < k + k'" "oid \<noteq> oid'" for oid oid' k k'
    using assms(7) that by (subst reserve_tx_one_item) auto
  have steps: "before_tx None (ReserveCall (a_request oid ''scarce'' k)) db = Inr (ReserveTx (a_request oid ''scarce'' k))"
    if "findReservation oid db = None" for oid k db using that by (rule before_reserve)
  show ?thesis
    using assms(1) first [of m "''a''"] first [of n "''b''"] second [of m n "''b''" "''a''"] second [of n m "''a''" "''b''"] assms(2-6)
    by (auto simp: schedules_def one_of_two_succeeds_def steps one_row_stock_def stock_row_is_def simp del: before_tx.simps)
qed

lemma inventory_specs_pass:
  "spec_seeds_and_reserves" "spec_prevents_oversell" "spec_reserve_is_idempotent"
  "spec_confirm_decrements_both" "spec_release_restores"
proof -
  show "spec_prevents_oversell"
    unfolding spec_prevents_oversell_def list_all_iff
    using race_two_reservations [of _ 4 5 4] by (simp add: int4_max_def)
qed (code_simp+)

section \<open>Payment\<close>

text \<open>The configuration stub of the suite hands back the fallbacks, and \<open>Math.random\<close> the two rolls.\<close>

definition default_failure_rate :: js_number where
  "default_failure_rate = round_double (2 / 10)"

definition mocked_gateway :: "rat \<Rightarrow> rat \<Rightarrow> js_number \<Rightarrow> PaymentStatus result" where
  "mocked_gateway transientRoll successRoll =
     callPaymentGateway default_failure_rate (round_double transientRoll, round_double successRoll)"

definition no_payments :: payment_state where
  "no_payments = \<lparr>payments = [], published = []\<rparr>"

definition pay_event :: "string \<Rightarrow> int \<Rightarrow> PaymentRequestedEvent" where
  "pay_event oid tot = \<lparr>pr_orderId = oid, pr_customerId = ''c1'', pr_total = js_int tot\<rparr>"

definition handle_payment :: "(js_number \<Rightarrow> PaymentStatus result) \<Rightarrow> string \<Rightarrow> PaymentRequestedEvent \<Rightarrow> payment_state \<Rightarrow>
    unit result \<times> payment_state" where
  "handle_payment gateway pid event s = handlePaymentRequested None no_payment_faults gateway pid event None s"

fun is_success_of :: "string \<Rightarrow> publication \<Rightarrow> bool" where
  "is_success_of oid p = (to_exchange p = ''ecommerce.events'' \<and> routing_key p = ''payment.succeeded'' \<and>
     (case body p of PaymentResult e \<Rightarrow> res_event_orderId e = oid \<and> res_event_status e = SUCCESS | _ \<Rightarrow> False))"

definition spec_persists_success :: bool where
  "spec_persists_success = (case handle_payment (mocked_gateway (9 / 10) (1 / 10)) ''pay1'' (pay_event ''o1'' 42) no_payments of
     (_, s) \<Rightarrow> (case find_row payment_orderId ''o1'' (payments s) of
         None \<Rightarrow> False | Some payment \<Rightarrow> payment_status payment = SUCCESS) \<and>
       list_ex (is_success_of ''o1'') (published s))"

definition spec_redelivery_is_idempotent :: bool where
  "spec_redelivery_is_idempotent =
     (case handle_payment (mocked_gateway (9 / 10) (1 / 10)) ''pay1'' (pay_event ''o2'' 10) no_payments of
       (_, s) \<Rightarrow> (case handle_payment (mocked_gateway (1 / 2) (1 / 2)) ''pay2'' (pay_event ''o2'' 10) (s\<lparr>published := []\<rparr>) of
         (_, s') \<Rightarrow> length (filter (\<lambda>p. payment_orderId p = ''o2'') (payments s')) = 1 \<and> published s' = []))"

text \<open>\<open>toBeInstanceOf(Nack)\<close> on what the handler's promise resolves to: \<open>undefined\<close> for a handler that
  returns nothing.\<close>

definition resolved_value :: "unit result \<Rightarrow> unit reply option" where
  "resolved_value r = None"

fun is_Nack :: "unit reply option \<Rightarrow> bool" where
  "is_Nack (Some (Nack _)) = True"
| "is_Nack _ = False"

text \<open>The two expectations of the test of a transient failure.\<close>

definition spec_transient_failure :: "bool \<times> bool" where
  "spec_transient_failure =
     (case handle_payment (mocked_gateway (1 / 100) (1 / 10)) ''pay3'' (pay_event ''o3'' 10) no_payments of
       (result, s) \<Rightarrow> (is_Nack (resolved_value result),
         length (filter (\<lambda>p. payment_orderId p = ''o3'') (payments s)) = 0))"

lemma rolls:
  "round_double (9 / 10) = Fin (8106479329266893 / 9007199254740992)"
  "round_double (2 / 10) = Fin (3602879701896397 / 18014398509481984)"
  "round_double (1 / 100) = Fin (5764607523034235 / 576460752303423488)"
  "round_double (85 / 100) = Fin (7656119366529843 / 9007199254740992)"
  by (rule round_double_eqI [where e = "-53" and m = 8106479329266893], simp_all add: double_eval,
      rule round_double_eqI [where e = "-55" and m = 7205759403792794], simp_all add: double_eval,
      rule round_double_eqI [where e = "-59" and m = 5764607523034235], simp_all add: double_eval,
      rule round_double_eqI [where e = "-53" and m = 7656119366529843], simp_all add: double_eval)

lemma mocked_outcomes:
  "mocked_gateway (9 / 10) (1 / 10) amount = Inr SUCCESS"
  "mocked_gateway (1 / 100) (1 / 10) amount = Inl (Error ''Simulated transient payment gateway failure'')"
  unfolding mocked_gateway_def callPaymentGateway_def default_failure_rate_def rolls round_tenth by simp_all

lemma payment_specs_outcome:
  "spec_persists_success" "spec_redelivery_is_idempotent" "spec_transient_failure = (False, True)"
  by (simp_all add: spec_persists_success_def spec_redelivery_is_idempotent_def spec_transient_failure_def
      handle_payment_def handlePaymentRequested_def processPaymentRequested_def find_payment_def charge_def Let_def
      no_payment_faults_def no_payments_def pay_event_def mocked_outcomes retry_count_def MAX_RETRIES_def append_row_def
      publishResult_def publication_def payment_exchange_def config_string_def resolved_value_def retryExchange_def)

section \<open>Catalog\<close>

definition dto :: "string \<Rightarrow> string \<Rightarrow> int \<Rightarrow> CreateProductDto" where
  "dto pid name price = \<lparr>dto_productId = pid, dto_name = name, dto_price = js_int price, dto_description = None\<rparr>"

definition spec_creates_product :: bool where
  "spec_creates_product = (case create None None ''k1'' (dto ''p1'' ''Widget'' 25) [] of
     (Inr product, products) \<Rightarrow> product_id product \<noteq> [] \<and>
       (case find_row product_productId ''p1'' products of None \<Rightarrow> False | Some found \<Rightarrow> product_price found = js_int 25)
   | (Inl _, _) \<Rightarrow> False)"

fun is_conflict :: "'a result \<Rightarrow> bool" where
  "is_conflict (Inl (ConflictException _)) = True"
| "is_conflict _ = False"

definition spec_rejects_duplicate :: bool where
  "spec_rejects_duplicate = (case create None None ''k1'' (dto ''p2'' ''Widget'' 10) [] of
     (_, products) \<Rightarrow> is_conflict (fst (create None None ''k2'' (dto ''p2'' ''Widget v2'' 20) products)))"

definition spec_splits_prices :: bool where
  "spec_splits_prices = (case create None None ''k1'' (dto ''p3'' ''A'' 100) [] of
     (_, products) \<Rightarrow> (case create None None ''k2'' (dto ''p4'' ''B'' 200) products of
       (_, products') \<Rightarrow> (case getPrices None [''p3'', ''p4'', ''ghost''] False products' of
         Reply result \<Rightarrow> list_all (\<lambda>p. p \<in> set (prices result)) [(''p3'', js_int 100), (''p4'', js_int 200)] \<and>
           missing result = [''ghost'']
       | Nack _ \<Rightarrow> False)))"

lemma catalog_specs_pass: "spec_creates_product" "spec_rejects_duplicate" "spec_splits_prices"
  by (simp_all add: spec_creates_product_def spec_rejects_duplicate_def spec_splits_prices_def create_cases dto_def
      product_of_dto_def getPrices_def js_Map_def)

section \<open>Orders\<close>

text \<open>The constructor of the order service reads its timeouts from the \<open>ConfigService\<close> it is given; the
  suite gives it none.\<close>

definition new_OrderService :: "(string \<Rightarrow> string option) option \<Rightarrow> (config_value \<times> config_value) result" where
  "new_OrderService configService = (case configService of
     None \<Rightarrow> Inl (Error ''Cannot read properties of undefined (reading get)'')
   | Some env \<Rightarrow> Inr (catalogRpcTimeoutMs (env ''CATALOG_RPC_TIMEOUT_MS''), priceBreaker_timeout (env ''CATALOG_RPC_TIMEOUT_MS'')))"

text \<open>A request body: the fields the service reads of it.\<close>

definition read_dto_item :: "json \<Rightarrow> DtoItem option" where
  "read_dto_item j = (case (string_field ''productId'' j, number_field ''quantity'' j) of
     (Some p, Some q) \<Rightarrow> Some \<lparr>dto_item_productId = p, dto_item_quantity = q\<rparr> | _ \<Rightarrow> None)"

definition read_order_dto :: "json \<Rightarrow> CreateOrderDto option" where
  "read_order_dto j = (case (string_field ''customerId'' j, field_of ''items'' j) of
     (Some c, Some (JArray xs)) \<Rightarrow>
       map_option (\<lambda>items. \<lparr>dto_customerId = c, dto_items = items\<rparr>) (all_some (map read_dto_item xs))
   | _ \<Rightarrow> None)"

definition order_body :: "string \<Rightarrow> int \<Rightarrow> int \<Rightarrow> json" where
  "order_body pid quantity price = JObject [(''customerId'', JString ''c1''), (''items'', JArray [JObject
     [(''productId'', JString pid), (''quantity'', JNumber (js_int quantity)), (''price'', JNumber (js_int price))]])]"

text \<open>\<open>createOrder\<close> on empty tables with the mocked answer of the catalog.\<close>

definition create_with :: "GetPricesResult \<Rightarrow> json \<Rightarrow> (Order result \<times> OrderDB) option" where
  "create_with reply j = map_option
     (\<lambda>d. createOrder (\<lambda>_. Inr reply) one_item_env d \<lparr>orders = [], outbox_events = []\<rparr>) (read_order_dto j)"

definition spec_prices_from_catalog :: bool where
  "spec_prices_from_catalog = (case create_with \<lparr>prices = [(''p1'', js_int 100)], missing = []\<rparr> (order_body ''p1'' 2 1) of
     Some (Inr order, _) \<Rightarrow> order_total order = js_int 200 \<and> oi_price (order_items order ! 0) = Some (js_int 100)
   | _ \<Rightarrow> False)"

definition spec_order_and_event :: bool where
  "spec_order_and_event = (case create_with \<lparr>prices = [(''p1'', js_int 50)], missing = []\<rparr> (order_body ''p1'' 1 999) of
     Some (Inr order, db) \<Rightarrow>
       (case (find_row order_id (order_id order) (orders db), find_row aggregateId (order_id order) (outbox_events db)) of
         (Some persistedOrder, Some outboxRow) \<Rightarrow> order_status persistedOrder = PENDING \<and>
           aggregateType outboxRow = ''Order'' \<and> eventType outboxRow = ''order.created'' \<and>
           ev_total (payload outboxRow) = js_int 50 \<and> ev_orderId (payload outboxRow) = order_id order
       | _ \<Rightarrow> False)
   | _ \<Rightarrow> False)"

definition spec_rejects_unknown_product :: bool where
  "spec_rejects_unknown_product =
     (case create_with \<lparr>prices = [], missing = [''unknown-product'']\<rparr> (order_body ''unknown-product'' 1 10) of
       Some (Inl (BadRequestException _), db) \<Rightarrow> length (orders db) = 0 | _ \<Rightarrow> False)"

text \<open>The suite: what \<open>beforeEach\<close> throws fails the test.\<close>

definition order_suite :: "(string \<Rightarrow> string option) option \<Rightarrow> bool result list" where
  "order_suite configService = map (\<lambda>test. map_sum id (\<lambda>_. test) (new_OrderService configService))
     [spec_prices_from_catalog, spec_order_and_event, spec_rejects_unknown_product]"

lemma order_specs_pass: "spec_prices_from_catalog" "spec_order_and_event" "spec_rejects_unknown_product"
  using js_mul_int [of 100 2] js_add_int [of 0 200] js_mul_int [of 50 1] js_add_int [of 0 50]
  by (simp_all add: spec_prices_from_catalog_def spec_order_and_event_def spec_rejects_unknown_product_def create_with_def
      order_body_def read_order_dto_def read_dto_item_def readers createOrder_def priceItems_def Let_def js_Map_def
      order_tx_def one_item_env_def insert_row_def order_sum_def item_amount_def outbox_of_def event_of_def)

section \<open>Auth\<close>

text \<open>The pattern \<open>/^\$2[aby]\$/\<close>.\<close>

fun matches_bcrypt :: "string \<Rightarrow> bool" where
  "matches_bcrypt (a # b # c # d # _) = (a = CHR ''$'' \<and> b = CHR ''2'' \<and> c \<in> set ''aby'' \<and> d = CHR ''$'')"
| "matches_bcrypt _ = False"

definition test_user :: Credentials where
  "test_user = \<lparr>cred_email = ''a@b.com'', cred_password = ''secret123''\<rparr>"

definition after_register :: "(string \<Rightarrow> string) \<Rightarrow> Profile result \<times> User list" where
  "after_register hash = register hash (no_register_faults ''u1'') test_user []"

definition spec_hashes_password :: "(string \<Rightarrow> string) \<Rightarrow> bool" where
  "spec_hashes_password hash = (case find_user ''a@b.com'' (snd (after_register hash)) of
     None \<Rightarrow> False
   | Some user \<Rightarrow> passwordHash user \<noteq> ''secret123'' \<and> matches_bcrypt (passwordHash user) \<and> user_roles user = [''customer''])"

definition spec_rejects_second_registration :: "(string \<Rightarrow> string) \<Rightarrow> bool" where
  "spec_rejects_second_registration hash = is_conflict (fst (register hash (no_register_faults ''u2'')
     \<lparr>cred_email = ''a@b.com'', cred_password = ''other''\<rparr> (snd (after_register hash))))"

definition spec_logs_in :: "(string \<Rightarrow> string) \<Rightarrow> (string \<Rightarrow> string \<Rightarrow> bool) \<Rightarrow> (JwtPayload \<Rightarrow> 'token) \<Rightarrow>
    ('token \<Rightarrow> JwtPayload option) \<Rightarrow> bool" where
  "spec_logs_in hash compare sign verify = (case login compare sign None test_user (snd (after_register hash)) of
     Inl _ \<Rightarrow> False
   | Inr accessToken \<Rightarrow> (case verify accessToken of
       None \<Rightarrow> False | Some p \<Rightarrow> jwt_email p = ''a@b.com'' \<and> jwt_roles p = [''customer'']))"

definition spec_rejects_wrong_password :: "(string \<Rightarrow> string) \<Rightarrow> (string \<Rightarrow> string \<Rightarrow> bool) \<Rightarrow> (JwtPayload \<Rightarrow> 'token) \<Rightarrow> bool" where
  "spec_rejects_wrong_password hash compare sign =
     (case login compare sign None \<lparr>cred_email = ''a@b.com'', cred_password = ''wrong''\<rparr> (snd (after_register hash)) of
       Inl (UnauthorizedException _) \<Rightarrow> True | _ \<Rightarrow> False)"

definition spec_me_returns_profile :: "(string \<Rightarrow> string) \<Rightarrow> bool" where
  "spec_me_returns_profile hash = (case after_register hash of
     (Inr registered, users) \<Rightarrow> (case me None (profile_id registered) users of
         Inr (profile, createdAt) \<Rightarrow> profile = \<lparr>profile_id = profile_id registered, profile_email = ''a@b.com'',
           profile_roles = [''customer'']\<rparr>
       | Inl _ \<Rightarrow> False)
   | (Inl _, _) \<Rightarrow> False)"

lemma after_register_eq:
  "after_register hash = (Inr (profile_of (new_user hash (no_register_faults ''u1'') test_user)),
     [new_user hash (no_register_faults ''u1'') test_user])"
  unfolding after_register_def by (subst register_fresh) simp_all

lemma auth_specs_pass:
  assumes "matches_bcrypt (hash ''secret123'')" and "compare ''secret123'' (hash ''secret123'')"
    and "\<not> compare ''wrong'' (hash ''secret123'')" and "\<And>p. verify (sign p) = Some p"
  shows "spec_hashes_password hash" "spec_rejects_second_registration hash" "spec_logs_in hash compare sign verify"
    "spec_rejects_wrong_password hash compare sign" "spec_me_returns_profile hash"
  using assms
  by (auto simp: spec_hashes_password_def spec_rejects_second_registration_def spec_logs_in_def spec_rejects_wrong_password_def
      spec_me_returns_profile_def after_register_eq register_def login_def me_def new_user_def no_register_faults_def
      test_user_def payload_of_def profile_of_def)

section \<open>The suites on the model\<close>

text \<open>Of two reservations at the same time whose quantities each fit the stock of a product but not
  together, exactly one succeeds and exactly its quantity is reserved, for any quantities and in every
  order the two handlers' lookups and transactions can take.\<close>
theorem racing_reservations_never_oversell:
  assumes "schedule \<in> set schedules" and "0 < m" and "m \<le> available" and "0 < n" and "n \<le> available"
    and "available < m + n" and "available \<le> int4_max"
  shows "one_of_two_succeeds available m n schedule"
  using assms by (rule race_two_reservations)

theorem racing_reservations_never_oversell_witness:
  "one_of_two_succeeds 5 4 3 [False, True, False, True]"
  using racing_reservations_never_oversell [of "[False, True, False, True]" 4 5 3]
  by (simp add: schedules_def int4_max_def)


text \<open>A hash of the form bcrypt writes, which keeps the password after its prefix.\<close>

definition prefix_hash :: "string \<Rightarrow> string" where
  "prefix_hash pw = ''$2b$10$'' @ pw"


end
