(* ===== verification/Nest_Modules.thy ===== *)
theory Nest_Modules
  imports Prelude
begin

text \<open>
  How the applications are put together (\<open>*.module.ts\<close> and \<open>app.module.ts\<close> of each service): the modules
  with what they import, provide and export, and the constructor parameters of their providers and
  controllers. Nest resolves a parameter from the providers of the module itself, from what its
  imported modules export, and from the exports of the global modules. What the modules of the
  libraries export is an argument. Here a module of the program exports modules of libraries only.
\<close>

section \<open>Modules\<close>

text \<open>An import or export: a module of a library, one made global by its options, the connection of
  TypeORM with its entities (global by itself), the repositories of some entities, or a module of the
  program. Tokens and classes are named by strings.\<close>

datatype module_ref = Library string | GlobalLibrary string | ForRoot "string list" | Feature "string list" | Own string

text \<open>A provider or controller with the constructor parameters it is given.\<close>

type_synonym provider = "string \<times> string list"

record nest_module =
  nest_name :: string
  is_global :: bool
  module_imports :: "module_ref list"
  controllers :: "provider list"
  providers :: "provider list"
  module_exports :: "module_ref list"

text \<open>An application: its root module and the modules its files declare.\<close>

record application =
  app_root :: nest_module
  declared :: "nest_module list"

definition repository :: "string \<Rightarrow> string" where
  "repository e = ''Repository<'' @ e @ ''>''"

section \<open>Resolution\<close>

text \<open>The container creates what has its parameters, and again with what it has created, until nothing
  is left; it gives up when nothing is ready, for a missing or a circular dependency.\<close>

definition ready :: "string list \<Rightarrow> provider \<Rightarrow> bool" where
  "ready available p = list_all (\<lambda>t. t \<in> set available) (snd p)"

function instantiate :: "string list \<Rightarrow> provider list \<Rightarrow> string list option" where
  "instantiate available pending =
     (if pending = [] then Some available
      else if filter (ready available) pending = [] then None
      else instantiate (available @ map fst (filter (ready available) pending))
             (filter (\<lambda>p. \<not> ready available p) pending))"
  by pat_completeness auto

termination
proof (relation "measure (\<lambda>(available, pending). length pending)")
  fix available :: "string list" and pending :: "provider list"
  assume "pending \<noteq> []" "filter (ready available) pending \<noteq> []"
  then show "((available @ map fst (filter (ready available) pending), filter (\<lambda>p. \<not> ready available p) pending),
      available, pending) \<in> measure (\<lambda>(available, pending). length pending)"
    using sum_length_filter_compl [of "ready available" pending] by (cases "filter (ready available) pending") auto
qed simp

declare instantiate.simps [simp del]

definition find_module :: "string \<Rightarrow> application \<Rightarrow> nest_module option" where
  "find_module n app = find (\<lambda>m. nest_name m = n) (declared app)"

text \<open>The modules that are loaded: the root and those it imports; no other module imports one.\<close>

definition own_imports :: "nest_module \<Rightarrow> string list" where
  "own_imports m = concat (map (\<lambda>r. case r of Own n \<Rightarrow> [n] | _ \<Rightarrow> []) (module_imports m))"

definition loaded :: "application \<Rightarrow> nest_module list" where
  "loaded app = app_root app # concat (map (\<lambda>n. case find_module n app of None \<Rightarrow> [] | Some m \<Rightarrow> [m]) (own_imports (app_root app)))"

definition exported_by :: "(module_ref \<Rightarrow> string list) \<Rightarrow> application \<Rightarrow> module_ref \<Rightarrow> string list" where
  "exported_by lib app r = (case r of
     Own n \<Rightarrow> (case find_module n app of None \<Rightarrow> [] | Some m \<Rightarrow> concat (map lib (module_exports m)))
   | _ \<Rightarrow> lib r)"

definition globally_exported :: "(module_ref \<Rightarrow> string list) \<Rightarrow> nest_module \<Rightarrow> string list" where
  "globally_exported lib m = (if is_global m then concat (map lib (module_exports m)) else []) @
     concat (map (\<lambda>r. case r of GlobalLibrary _ \<Rightarrow> lib r | ForRoot _ \<Rightarrow> lib r | _ \<Rightarrow> []) (module_imports m))"

definition visible_in :: "(module_ref \<Rightarrow> string list) \<Rightarrow> application \<Rightarrow> nest_module \<Rightarrow> string list" where
  "visible_in lib app m = concat (map (exported_by lib app) (module_imports m)) @
     concat (map (globally_exported lib) (loaded app))"

text \<open>Providers see each other, controllers see the providers.\<close>

definition start_module :: "(module_ref \<Rightarrow> string list) \<Rightarrow> application \<Rightarrow> nest_module \<Rightarrow> string list option" where
  "start_module lib app m = (case instantiate (visible_in lib app m) (providers m) of
     None \<Rightarrow> None
   | Some available \<Rightarrow> (if list_all (ready available) (controllers m) then Some (available @ map fst (controllers m)) else None))"

text \<open>The repositories that are asked for belong to entities the connection was given.\<close>

definition entities_known :: "application \<Rightarrow> bool" where
  "entities_known app = list_all (\<lambda>r. case r of
       Feature es \<Rightarrow> list_all (\<lambda>e. e \<in> set (concat (map (\<lambda>r. case r of ForRoot es' \<Rightarrow> es' | _ \<Rightarrow> []) (module_imports (app_root app))))) es
     | _ \<Rightarrow> True) (concat (map module_imports (loaded app)))"

definition imports_found :: "application \<Rightarrow> bool" where
  "imports_found app = list_all (\<lambda>n. find_module n app \<noteq> None) (concat (map own_imports (app_root app # declared app)))"

definition starts :: "(module_ref \<Rightarrow> string list) \<Rightarrow> application \<Rightarrow> bool" where
  "starts lib app \<longleftrightarrow> imports_found app \<and> entities_known app \<and> list_all (\<lambda>m. start_module lib app m \<noteq> None) (loaded app)"

section \<open>The injectable classes\<close>

text \<open>Each class with the parameters of its constructor, a repository or token where it is injected by name.\<close>

definition OrderService_class :: provider where
  "OrderService_class = (''OrderService'', [''DataSource'', ''AmqpConnection'', ''ConfigService''])"

definition SagaOrchestratorService_class :: provider where
  "SagaOrchestratorService_class = (''SagaOrchestratorService'', [repository ''Order'', ''AmqpConnection'', ''ConfigService''])"

definition OutboxRelayService_class :: provider where
  "OutboxRelayService_class = (''OutboxRelayService'', [''AmqpConnection'', ''ConfigService''])"

definition CatalogService_class :: provider where
  "CatalogService_class = (''CatalogService'', [repository ''Product''])"

definition InventoryService_class :: provider where
  "InventoryService_class = (''InventoryService'', [repository ''StockItem'', repository ''Reservation'', ''DataSource''])"

definition PaymentService_class :: provider where
  "PaymentService_class = (''PaymentService'', [repository ''Payment'', ''AmqpConnection'', ''ConfigService''])"

definition NotificationService_class :: provider where
  "NotificationService_class = (''NotificationService'', [''NOTIFICATION_SENDER''])"

definition AuthService_class :: provider where
  "AuthService_class = (''AuthService'', [repository ''User'', ''JwtService''])"

definition auth_JwtStrategy_class :: provider where
  "auth_JwtStrategy_class = (''JwtStrategy'', [''ConfigService''])"

definition order_JwtStrategy_class :: provider where
  "order_JwtStrategy_class = (''JwtStrategy'', [''ConfigService''])"

definition catalog_JwtStrategy_class :: provider where
  "catalog_JwtStrategy_class = (''JwtStrategy'', [''ConfigService''])"

definition order_RabbitMQHealthIndicator_class :: provider where
  "order_RabbitMQHealthIndicator_class = (''RabbitMQHealthIndicator'', [''HealthIndicatorService'', ''AmqpConnection''])"

definition payment_RabbitMQHealthIndicator_class :: provider where
  "payment_RabbitMQHealthIndicator_class = (''RabbitMQHealthIndicator'', [''HealthIndicatorService'', ''AmqpConnection''])"

definition inventory_RabbitMQHealthIndicator_class :: provider where
  "inventory_RabbitMQHealthIndicator_class = (''RabbitMQHealthIndicator'', [''HealthIndicatorService'', ''AmqpConnection''])"

definition catalog_RabbitMQHealthIndicator_class :: provider where
  "catalog_RabbitMQHealthIndicator_class = (''RabbitMQHealthIndicator'', [''HealthIndicatorService'', ''AmqpConnection''])"

definition notification_RabbitMQHealthIndicator_class :: provider where
  "notification_RabbitMQHealthIndicator_class = (''RabbitMQHealthIndicator'', [''HealthIndicatorService'', ''AmqpConnection''])"

lemmas class_defs = OrderService_class_def SagaOrchestratorService_class_def OutboxRelayService_class_def CatalogService_class_def
  InventoryService_class_def PaymentService_class_def NotificationService_class_def AuthService_class_def
  auth_JwtStrategy_class_def order_JwtStrategy_class_def catalog_JwtStrategy_class_def order_RabbitMQHealthIndicator_class_def
  payment_RabbitMQHealthIndicator_class_def inventory_RabbitMQHealthIndicator_class_def catalog_RabbitMQHealthIndicator_class_def notification_RabbitMQHealthIndicator_class_def

section \<open>The modules of the services\<close>

definition order_module :: nest_module where
  "order_module = \<lparr>nest_name = ''OrderModule'', is_global = False,
     module_imports = [Feature [''Order'', ''OutboxEvent'']],
     controllers = [(''OrderController'', [''OrderService''])],
     providers = [OrderService_class],
     module_exports = []\<rparr>"

definition saga_module :: nest_module where
  "saga_module = \<lparr>nest_name = ''SagaModule'', is_global = False,
     module_imports = [Feature [''Order'']],
     controllers = [],
     providers = [SagaOrchestratorService_class],
     module_exports = []\<rparr>"

definition outbox_relay_module :: nest_module where
  "outbox_relay_module = \<lparr>nest_name = ''OutboxRelayModule'', is_global = False,
     module_imports = [],
     controllers = [],
     providers = [OutboxRelayService_class],
     module_exports = []\<rparr>"

definition catalog_module :: nest_module where
  "catalog_module = \<lparr>nest_name = ''CatalogModule'', is_global = False,
     module_imports = [Feature [''Product'']],
     controllers = [(''CatalogController'', [''CatalogService''])],
     providers = [CatalogService_class],
     module_exports = []\<rparr>"

definition inventory_module :: nest_module where
  "inventory_module = \<lparr>nest_name = ''InventoryModule'', is_global = False,
     module_imports = [Feature [''StockItem'', ''Reservation'']],
     controllers = [],
     providers = [InventoryService_class],
     module_exports = []\<rparr>"

definition payment_module :: nest_module where
  "payment_module = \<lparr>nest_name = ''PaymentModule'', is_global = False,
     module_imports = [Feature [''Payment'']],
     controllers = [],
     providers = [PaymentService_class],
     module_exports = []\<rparr>"

text \<open>The sender is provided under a token, by the class \<open>LogNotificationSender\<close>.\<close>

definition notification_module :: nest_module where
  "notification_module = \<lparr>nest_name = ''NotificationModule'', is_global = False,
     module_imports = [],
     controllers = [],
     providers = [NotificationService_class, (''NOTIFICATION_SENDER'', [])],
     module_exports = []\<rparr>"

text \<open>Each service that checks tokens has its own authentication module; only that of the auth service
  has routes and issues them.\<close>

definition auth_module :: nest_module where
  "auth_module = \<lparr>nest_name = ''AuthModule'', is_global = False,
     module_imports = [Feature [''User''], Library ''PassportModule'', Library ''JwtModule''],
     controllers = [(''AuthController'', [''AuthService''])],
     providers = [AuthService_class, auth_JwtStrategy_class],
     module_exports = []\<rparr>"

definition order_auth_module :: nest_module where
  "order_auth_module = \<lparr>nest_name = ''AuthModule'', is_global = False,
     module_imports = [Library ''PassportModule'', Library ''JwtModule''],
     controllers = [],
     providers = [order_JwtStrategy_class],
     module_exports = [Library ''JwtModule'', Library ''PassportModule'']\<rparr>"

definition catalog_auth_module :: nest_module where
  "catalog_auth_module = \<lparr>nest_name = ''AuthModule'', is_global = False,
     module_imports = [Library ''PassportModule'', Library ''JwtModule''],
     controllers = [],
     providers = [catalog_JwtStrategy_class],
     module_exports = [Library ''JwtModule'', Library ''PassportModule'']\<rparr>"

text \<open>The five \<open>rabbitmq.module.ts\<close> are global and export the module of the library; their options are in
  the theories \<open>Topology\<close>, \<open>Payment\<close> and \<open>Settings\<close>.\<close>

definition rabbitmq_module :: nest_module where
  "rabbitmq_module = \<lparr>nest_name = ''SharedRabbitMQModule'', is_global = True,
     module_imports = [Library ''RabbitMQModule''],
     controllers = [],
     providers = [],
     module_exports = [Library ''RabbitMQModule'']\<rparr>"

text \<open>The health modules: with a database and a broker, with a database only, with a broker only, and
  the gateway's with neither.\<close>

definition order_health_module :: nest_module where
  "order_health_module = \<lparr>nest_name = ''HealthModule'', is_global = False,
     module_imports = [Library ''TerminusModule''],
     controllers = [(''HealthController'', [''HealthCheckService'', ''TypeOrmHealthIndicator'', ''RabbitMQHealthIndicator''])],
     providers = [order_RabbitMQHealthIndicator_class],
     module_exports = []\<rparr>"

definition payment_health_module :: nest_module where
  "payment_health_module = \<lparr>nest_name = ''HealthModule'', is_global = False,
     module_imports = [Library ''TerminusModule''],
     controllers = [(''HealthController'', [''HealthCheckService'', ''TypeOrmHealthIndicator'', ''RabbitMQHealthIndicator''])],
     providers = [payment_RabbitMQHealthIndicator_class],
     module_exports = []\<rparr>"

definition inventory_health_module :: nest_module where
  "inventory_health_module = \<lparr>nest_name = ''HealthModule'', is_global = False,
     module_imports = [Library ''TerminusModule''],
     controllers = [(''HealthController'', [''HealthCheckService'', ''TypeOrmHealthIndicator'', ''RabbitMQHealthIndicator''])],
     providers = [inventory_RabbitMQHealthIndicator_class],
     module_exports = []\<rparr>"

definition catalog_health_module :: nest_module where
  "catalog_health_module = \<lparr>nest_name = ''HealthModule'', is_global = False,
     module_imports = [Library ''TerminusModule''],
     controllers = [(''HealthController'', [''HealthCheckService'', ''TypeOrmHealthIndicator'', ''RabbitMQHealthIndicator''])],
     providers = [catalog_RabbitMQHealthIndicator_class],
     module_exports = []\<rparr>"

definition auth_health_module :: nest_module where
  "auth_health_module = \<lparr>nest_name = ''HealthModule'', is_global = False,
     module_imports = [Library ''TerminusModule''],
     controllers = [(''HealthController'', [''HealthCheckService'', ''TypeOrmHealthIndicator''])],
     providers = [],
     module_exports = []\<rparr>"

definition notification_health_module :: nest_module where
  "notification_health_module = \<lparr>nest_name = ''HealthModule'', is_global = False,
     module_imports = [Library ''TerminusModule''],
     controllers = [(''HealthController'', [''HealthCheckService'', ''RabbitMQHealthIndicator''])],
     providers = [notification_RabbitMQHealthIndicator_class],
     module_exports = []\<rparr>"

definition gateway_health_module :: nest_module where
  "gateway_health_module = \<lparr>nest_name = ''HealthModule'', is_global = False,
     module_imports = [],
     controllers = [(''HealthController'', [])],
     providers = [],
     module_exports = []\<rparr>"

text \<open>The metrics modules have the same text in every service; \<open>metrics_module\<close> is that of the order service.
  The middleware is created in its module.\<close>

definition metrics_module :: nest_module where
  "metrics_module = \<lparr>nest_name = ''MetricsModule'', is_global = False,
     module_imports = [],
     controllers = [(''MetricsController'', [])],
     providers = [(''MetricsMiddleware'', [])],
     module_exports = []\<rparr>"

definition auth_metrics_module :: nest_module where
  "auth_metrics_module = \<lparr>nest_name = ''MetricsModule'', is_global = False,
     module_imports = [],
     controllers = [(''MetricsController'', [])],
     providers = [(''MetricsMiddleware'', [])],
     module_exports = []\<rparr>"

definition catalog_metrics_module :: nest_module where
  "catalog_metrics_module = \<lparr>nest_name = ''MetricsModule'', is_global = False,
     module_imports = [],
     controllers = [(''MetricsController'', [])],
     providers = [(''MetricsMiddleware'', [])],
     module_exports = []\<rparr>"

definition payment_metrics_module :: nest_module where
  "payment_metrics_module = \<lparr>nest_name = ''MetricsModule'', is_global = False,
     module_imports = [],
     controllers = [(''MetricsController'', [])],
     providers = [(''MetricsMiddleware'', [])],
     module_exports = []\<rparr>"

definition inventory_metrics_module :: nest_module where
  "inventory_metrics_module = \<lparr>nest_name = ''MetricsModule'', is_global = False,
     module_imports = [],
     controllers = [(''MetricsController'', [])],
     providers = [(''MetricsMiddleware'', [])],
     module_exports = []\<rparr>"

definition notification_metrics_module :: nest_module where
  "notification_metrics_module = \<lparr>nest_name = ''MetricsModule'', is_global = False,
     module_imports = [],
     controllers = [(''MetricsController'', [])],
     providers = [(''MetricsMiddleware'', [])],
     module_exports = []\<rparr>"

definition gateway_metrics_module :: nest_module where
  "gateway_metrics_module = \<lparr>nest_name = ''MetricsModule'', is_global = False,
     module_imports = [],
     controllers = [(''MetricsController'', [])],
     providers = [(''MetricsMiddleware'', [])],
     module_exports = []\<rparr>"

section \<open>The applications\<close>

definition auth_app :: application where
  "auth_app = \<lparr>app_root = \<lparr>nest_name = ''AppModule'', is_global = False,
       module_imports = [GlobalLibrary ''ConfigModule'', ForRoot [''User''], Own ''AuthModule'', Own ''HealthModule'', Own ''MetricsModule''],
       controllers = [(''AppController'', [''AppService''])],
       providers = [(''AppService'', [])],
       module_exports = []\<rparr>,
     declared = [auth_module, auth_health_module, auth_metrics_module]\<rparr>"

definition catalog_app :: application where
  "catalog_app = \<lparr>app_root = \<lparr>nest_name = ''AppModule'', is_global = False,
       module_imports = [GlobalLibrary ''ConfigModule'', ForRoot [''Product''], Own ''SharedRabbitMQModule'', Own ''AuthModule'', Own ''CatalogModule'', Own ''HealthModule'', Own ''MetricsModule''],
       controllers = [(''AppController'', [''AppService''])],
       providers = [(''AppService'', [])],
       module_exports = []\<rparr>,
     declared = [rabbitmq_module, catalog_auth_module, catalog_module, catalog_health_module, catalog_metrics_module]\<rparr>"

definition order_app :: application where
  "order_app = \<lparr>app_root = \<lparr>nest_name = ''AppModule'', is_global = False,
       module_imports = [GlobalLibrary ''ConfigModule'', ForRoot [''Order'', ''OutboxEvent''], Own ''SharedRabbitMQModule'', Own ''AuthModule'', Own ''OrderModule'', Own ''OutboxRelayModule'', Own ''SagaModule'', Own ''HealthModule'', Own ''MetricsModule''],
       controllers = [(''AppController'', [''AppService''])],
       providers = [(''AppService'', [])],
       module_exports = []\<rparr>,
     declared = [rabbitmq_module, order_auth_module, order_module, outbox_relay_module, saga_module, order_health_module, metrics_module]\<rparr>"

definition payment_app :: application where
  "payment_app = \<lparr>app_root = \<lparr>nest_name = ''AppModule'', is_global = False,
       module_imports = [GlobalLibrary ''ConfigModule'', ForRoot [''Payment''], Own ''SharedRabbitMQModule'', Own ''PaymentModule'', Own ''HealthModule'', Own ''MetricsModule''],
       controllers = [(''AppController'', [''AppService''])],
       providers = [(''AppService'', [])],
       module_exports = []\<rparr>,
     declared = [rabbitmq_module, payment_module, payment_health_module, payment_metrics_module]\<rparr>"

definition inventory_app :: application where
  "inventory_app = \<lparr>app_root = \<lparr>nest_name = ''AppModule'', is_global = False,
       module_imports = [GlobalLibrary ''ConfigModule'', ForRoot [''StockItem'', ''Reservation''], Own ''SharedRabbitMQModule'', Own ''InventoryModule'', Own ''HealthModule'', Own ''MetricsModule''],
       controllers = [(''AppController'', [''AppService''])],
       providers = [(''AppService'', [])],
       module_exports = []\<rparr>,
     declared = [rabbitmq_module, inventory_module, inventory_health_module, inventory_metrics_module]\<rparr>"

definition notification_app :: application where
  "notification_app = \<lparr>app_root = \<lparr>nest_name = ''AppModule'', is_global = False,
       module_imports = [GlobalLibrary ''ConfigModule'', Own ''SharedRabbitMQModule'', Own ''NotificationModule'', Own ''HealthModule'', Own ''MetricsModule''],
       controllers = [(''AppController'', [''AppService''])],
       providers = [(''AppService'', [])],
       module_exports = []\<rparr>,
     declared = [rabbitmq_module, notification_module, notification_health_module, notification_metrics_module]\<rparr>"

definition gateway_app :: application where
  "gateway_app = \<lparr>app_root = \<lparr>nest_name = ''AppModule'', is_global = False,
       module_imports = [GlobalLibrary ''ConfigModule'', Own ''HealthModule'', Own ''MetricsModule''],
       controllers = [(''AppController'', [''AppService''])],
       providers = [(''AppService'', [])],
       module_exports = []\<rparr>,
     declared = [gateway_health_module, gateway_metrics_module]\<rparr>"

definition applications :: "application list" where
  "applications = [auth_app, catalog_app, order_app, payment_app, inventory_app, notification_app, gateway_app]"

section \<open>Every application starts\<close>

text \<open>What the modules of the libraries are documented to export.\<close>

definition nest_libraries :: "(module_ref \<Rightarrow> string list) \<Rightarrow> bool" where
  "nest_libraries lib \<longleftrightarrow> ''ConfigService'' \<in> set (lib (GlobalLibrary ''ConfigModule'')) \<and>
     (\<forall>es. ''DataSource'' \<in> set (lib (ForRoot es))) \<and>
     (\<forall>es. \<forall>e \<in> set es. repository e \<in> set (lib (Feature es))) \<and>
     ''JwtService'' \<in> set (lib (Library ''JwtModule'')) \<and>
     ''AmqpConnection'' \<in> set (lib (Library ''RabbitMQModule'')) \<and>
     set [''HealthCheckService'', ''HealthIndicatorService'', ''TypeOrmHealthIndicator''] \<subseteq> set (lib (Library ''TerminusModule''))"

lemma instantiate_Nil [simp]: "instantiate available [] = Some available"
  by (simp add: instantiate.simps)

lemma instantiate_all_ready:
  assumes "list_all (ready available) pending"
  shows "instantiate available pending = Some (available @ map fst pending)"
proof (cases "pending = []")
  case False
  have "filter (ready available) pending = pending" "filter (\<lambda>p. \<not> ready available p) pending = []"
    using assms by (auto simp: list_all_iff filter_empty_conv intro: filter_True)
  with False show ?thesis by (subst instantiate.simps) simp
qed simp

lemma ready_mono: "ready available p \<Longrightarrow> set available \<subseteq> set created \<Longrightarrow> ready created p"
  by (auto simp: ready_def list_all_iff)

text \<open>What the container has created has had its parameters.\<close>

lemma instantiate_sound:
  "instantiate available pending = Some created \<Longrightarrow>
   set available \<subseteq> set created \<and> (\<forall>p \<in> set pending. fst p \<in> set created \<and> ready created p)"
proof (induction available pending arbitrary: created rule: instantiate.induct)
  case (1 available pending)
  show ?case
  proof (cases "pending = []")
    case False
    with "1.prems" have ready: "filter (ready available) pending \<noteq> []"
      by (subst (asm) instantiate.simps) (auto split: if_splits)
    with False "1.prems" have rec: "instantiate (available @ map fst (filter (ready available) pending))
        (filter (\<lambda>p. \<not> ready available p) pending) = Some created"
      by (subst (asm) instantiate.simps) (simp split: if_splits)
    note step = "1.IH" [OF False ready rec]
    then have more: "set available \<subseteq> set created" "\<And>p. p \<in> set pending \<Longrightarrow> ready available p \<Longrightarrow> fst p \<in> set created"
      by auto
    have rest: "fst p \<in> set created \<and> ready created p" if "p \<in> set pending" "\<not> ready available p" for p
      using step that by (cases p) auto
    show ?thesis
    proof (intro conjI ballI)
      fix p assume p: "p \<in> set pending"
      show "fst p \<in> set created" "ready created p"
        using more(2) [OF p] rest [OF p] ready_mono [of available p created] more(1) by blast+
    qed (rule more(1))
  qed (use "1.prems" in simp)
qed

lemmas application_defs = auth_app_def catalog_app_def order_app_def payment_app_def inventory_app_def
  notification_app_def gateway_app_def

lemmas module_defs = order_module_def saga_module_def outbox_relay_module_def catalog_module_def inventory_module_def
  payment_module_def notification_module_def auth_module_def order_auth_module_def catalog_auth_module_def
  rabbitmq_module_def order_health_module_def payment_health_module_def inventory_health_module_def
  catalog_health_module_def auth_health_module_def notification_health_module_def gateway_health_module_def
  metrics_module_def auth_metrics_module_def catalog_metrics_module_def payment_metrics_module_def
  inventory_metrics_module_def notification_metrics_module_def gateway_metrics_module_def

lemmas start_simps = application_defs module_defs class_defs starts_def imports_found_def entities_known_def loaded_def
  own_imports_def find_module_def start_module_def visible_in_def exported_by_def globally_exported_def

lemma start_module_sound:
  assumes "start_module lib app m = Some created" "p \<in> set (providers m @ controllers m)"
  shows "fst p \<in> set created \<and> ready created p"
proof -
  obtain available where available: "instantiate (visible_in lib app m) (providers m) = Some available"
      "list_all (ready available) (controllers m)" "created = available @ map fst (controllers m)"
    using assms(1) by (auto simp: start_module_def split: option.splits if_splits)
  show ?thesis
    using assms(2) instantiate_sound [OF available(1)] available(2,3)
    by (auto simp: list_all_iff intro: ready_mono)
qed

lemma starts_sound:
  assumes "starts lib app" "m \<in> set (loaded app)"
  obtains created where "start_module lib app m = Some created"
    "\<And>p. p \<in> set (providers m @ controllers m) \<Longrightarrow> fst p \<in> set created \<and> ready created p"
  using assms start_module_sound [of lib app m] by (fastforce simp: starts_def list_all_iff)

lemma ready_simps [simp]: "ready available (t, []) \<longleftrightarrow> True"
  "ready available (t, n # ns) \<longleftrightarrow> n \<in> set available \<and> ready available (t, ns)"
  by (simp_all add: ready_def)

lemma instantiate_Cons:
  "ready available p \<Longrightarrow> list_all (ready available) ps \<Longrightarrow>
   instantiate available (p # ps) = Some (available @ fst p # map fst ps)"
  using instantiate_all_ready [of available "p # ps"] by simp

text \<open>A provider that needs its neighbour.\<close>

lemma instantiate_pair:
  assumes "ready available q" "ready (available @ [fst q]) p"
  shows "\<exists>created. instantiate available [p, q] = Some created"
proof (cases "ready available p")
  case True
  then show ?thesis using assms(1) instantiate_all_ready [of available "[p, q]"] by simp
next
  case False
  then have "instantiate available [p, q] = instantiate (available @ [fst q]) [p]"
    using assms(1) by (subst instantiate.simps) simp
  then show ?thesis using assms(2) instantiate_all_ready [of "available @ [fst q]" "[p]"] by simp
qed

lemma libraryD:
  assumes "nest_libraries lib"
  shows "''ConfigService'' \<in> set (lib (GlobalLibrary ''ConfigModule''))" "''DataSource'' \<in> set (lib (ForRoot es))"
    "e \<in> set es \<Longrightarrow> repository e \<in> set (lib (Feature es))" "''JwtService'' \<in> set (lib (Library ''JwtModule''))"
    "''AmqpConnection'' \<in> set (lib (Library ''RabbitMQModule''))"
    "''HealthCheckService'' \<in> set (lib (Library ''TerminusModule''))"
    "''HealthIndicatorService'' \<in> set (lib (Library ''TerminusModule''))"
    "''TypeOrmHealthIndicator'' \<in> set (lib (Library ''TerminusModule''))"
  using assms by (auto simp: nest_libraries_def)

lemma auth_starts: "nest_libraries lib \<Longrightarrow> starts lib auth_app"
  by (simp add: start_simps libraryD instantiate_Cons)

lemma order_starts: "nest_libraries lib \<Longrightarrow> starts lib order_app"
  by (simp add: start_simps libraryD instantiate_Cons)

lemma catalog_starts: "nest_libraries lib \<Longrightarrow> starts lib catalog_app"
  by (simp add: start_simps libraryD instantiate_Cons)

lemma payment_starts: "nest_libraries lib \<Longrightarrow> starts lib payment_app"
  by (simp add: start_simps libraryD instantiate_Cons)

lemma inventory_starts: "nest_libraries lib \<Longrightarrow> starts lib inventory_app"
  by (simp add: start_simps libraryD instantiate_Cons)

lemma notification_starts: "nest_libraries lib \<Longrightarrow> starts lib notification_app"
  using instantiate_pair [of "lib (GlobalLibrary ''ConfigModule'') @ lib (Library ''RabbitMQModule'')"
      "(''NOTIFICATION_SENDER'', [])" "(''NotificationService'', [''NOTIFICATION_SENDER''])"]
  by (auto simp: start_simps libraryD instantiate_Cons)

lemma gateway_starts: "nest_libraries lib \<Longrightarrow> starts lib gateway_app"
  by (simp add: start_simps libraryD instantiate_Cons)


fun documented_exports :: "module_ref \<Rightarrow> string list" where
  "documented_exports (GlobalLibrary n) = [''ConfigService'']"
| "documented_exports (ForRoot es) = [''DataSource'']"
| "documented_exports (Feature es) = map repository es"
| "documented_exports (Library n) = (if n = ''JwtModule'' then [''JwtService'']
     else if n = ''RabbitMQModule'' then [''AmqpConnection'']
     else if n = ''TerminusModule'' then [''HealthCheckService'', ''HealthIndicatorService'', ''TypeOrmHealthIndicator'']
     else [])"
| "documented_exports (Own n) = []"

lemma documented_exports_law: "nest_libraries documented_exports"
  by (auto simp: nest_libraries_def)


end
