(* ===== verification/Gateway.thy ===== *)
theory Gateway
  imports Prelude "HOL-Library.Multiset"
begin

text \<open>
  The gateway's routing (\<open>gateway-service/src/proxy/proxy.setup.ts\<close>): five proxies mounted in turn,
  each with a path prefix, a target from the environment, and for two of them a prefix that is
  stripped. The path is the one the browser sent.
\<close>

section \<open>Routes\<close>

record gateway_env =
  AUTH_SERVICE_URL :: "string option"
  ORDER_SERVICE_URL :: "string option"
  PAYMENT_SERVICE_URL :: "string option"
  INVENTORY_SERVICE_URL :: "string option"
  CATALOG_SERVICE_URL :: "string option"

text \<open>A mounted proxy; \<open>strip\<close> stands for \<open>pathRewrite: { '^prefix': '' }\<close>.\<close>

record proxy =
  prefix :: string
  target :: string
  strip :: bool

fun startsWith :: "string \<Rightarrow> string \<Rightarrow> bool" where
  "startsWith path [] = True"
| "startsWith [] (c # cs) = False"
| "startsWith (p # ps) (c # cs) = (p = c \<and> startsWith ps cs)"

definition setupProxies :: "gateway_env \<Rightarrow> proxy list" where
  "setupProxies env =
    [\<lparr>prefix = ''/auth'', target = env_or (AUTH_SERVICE_URL env) ''http://localhost:3004'', strip = False\<rparr>,
     \<lparr>prefix = ''/orders'', target = env_or (ORDER_SERVICE_URL env) ''http://localhost:3001'', strip = False\<rparr>,
     \<lparr>prefix = ''/payments'', target = env_or (PAYMENT_SERVICE_URL env) ''http://localhost:3002'', strip = True\<rparr>,
     \<lparr>prefix = ''/inventory'', target = env_or (INVENTORY_SERVICE_URL env) ''http://localhost:3003'', strip = True\<rparr>,
     \<lparr>prefix = ''/products'', target = env_or (CATALOG_SERVICE_URL env) ''http://localhost:3005'', strip = False\<rparr>]"

text \<open>A middleware whose filter refuses the path hands the request to the next one; the first that
  takes it forwards it. A path no proxy takes is left to the application's own routes.\<close>

definition rewritten :: "proxy \<Rightarrow> string \<Rightarrow> string" where
  "rewritten p path = (if strip p then drop (length (prefix p)) path else path)"

fun forward :: "proxy list \<Rightarrow> string \<Rightarrow> (string \<times> string) option" where
  "forward [] path = None"
| "forward (p # ps) path =
     (if startsWith path (prefix p) then Some (target p, rewritten p path) else forward ps path)"

section \<open>Routing\<close>

lemma startsWith_append: "startsWith path pre \<longleftrightarrow> (\<exists>rest. path = pre @ rest)"
  by (induction path pre rule: startsWith.induct) auto

lemma forward_None: "forward ps path = None \<longleftrightarrow> (\<forall>p \<in> set ps. \<not> startsWith path (prefix p))"
  by (induction ps) auto

text \<open>Where no two prefixes can start the same path, the order of the proxies does not matter.\<close>

definition disjoint_prefixes :: "proxy list \<Rightarrow> bool" where
  "disjoint_prefixes ps \<longleftrightarrow> (\<forall>p \<in> set ps. \<forall>q \<in> set ps. \<forall>path.
     startsWith path (prefix p) \<longrightarrow> startsWith path (prefix q) \<longrightarrow> p = q)"

lemma forward_member:
  "disjoint_prefixes ps \<Longrightarrow> p \<in> set ps \<Longrightarrow> startsWith path (prefix p) \<Longrightarrow>
     forward ps path = Some (target p, rewritten p path)"
proof (induction ps)
  case (Cons q ps)
  have "disjoint_prefixes ps"
    using Cons.prems(1) by (simp add: disjoint_prefixes_def)
  moreover have "startsWith path (prefix q) \<Longrightarrow> q = p"
    using Cons.prems by (simp add: disjoint_prefixes_def) blast
  ultimately show ?case using Cons by auto
qed simp

lemma forward_any_order:
  assumes "disjoint_prefixes ps" and "set ps' = set ps"
  shows "forward ps' path = forward ps path"
proof (cases "forward ps path")
  case None
  then have "forward ps' path = None" using assms(2) by (simp add: forward_None)
  with None show ?thesis by simp
next
  case (Some r)
  then obtain p where p: "p \<in> set ps" "startsWith path (prefix p)"
    using forward_None [of ps path] by auto
  have "disjoint_prefixes ps'"
    using assms by (simp add: disjoint_prefixes_def)
  with p assms show ?thesis
    using forward_member [of ps p path] forward_member [of ps' p path] by simp
qed

lemma setupProxies_disjoint: "disjoint_prefixes (setupProxies env)"
  by (auto simp: disjoint_prefixes_def setupProxies_def startsWith_append)

text \<open>Routing is a partition: a request is taken by at most one proxy, so the order in which they
  are mounted is irrelevant. Whatever the rest of the path, the requests below \<open>/auth\<close>,
  \<open>/orders\<close> and \<open>/products\<close> reach their service unchanged and those below \<open>/payments\<close> and
  \<open>/inventory\<close> reach theirs without the prefix, and no other request leaves the gateway.\<close>
theorem gateway_routes_partition_paths:
  assumes "mset ps = mset (setupProxies env)"
  shows "forward ps path = forward (setupProxies env) path \<and>
    forward ps (''/auth'' @ rest) = Some (env_or (AUTH_SERVICE_URL env) ''http://localhost:3004'', ''/auth'' @ rest) \<and>
    forward ps (''/orders'' @ rest) = Some (env_or (ORDER_SERVICE_URL env) ''http://localhost:3001'', ''/orders'' @ rest) \<and>
    forward ps (''/products'' @ rest) = Some (env_or (CATALOG_SERVICE_URL env) ''http://localhost:3005'', ''/products'' @ rest) \<and>
    forward ps (''/payments'' @ rest) = Some (env_or (PAYMENT_SERVICE_URL env) ''http://localhost:3002'', rest) \<and>
    forward ps (''/inventory'' @ rest) = Some (env_or (INVENTORY_SERVICE_URL env) ''http://localhost:3003'', rest) \<and>
    (forward ps path = None \<longleftrightarrow>
       list_all (\<lambda>pre. \<not> startsWith path pre) [''/auth'', ''/orders'', ''/payments'', ''/inventory'', ''/products''])"
proof -
  have same: "forward ps path = forward (setupProxies env) path" for path
    by (rule forward_any_order [OF setupProxies_disjoint mset_eq_setD [OF assms]])
  have taken: "forward (setupProxies env) (''/auth'' @ rest) = Some (env_or (AUTH_SERVICE_URL env) ''http://localhost:3004'', ''/auth'' @ rest)"
    "forward (setupProxies env) (''/orders'' @ rest) = Some (env_or (ORDER_SERVICE_URL env) ''http://localhost:3001'', ''/orders'' @ rest)"
    "forward (setupProxies env) (''/products'' @ rest) = Some (env_or (CATALOG_SERVICE_URL env) ''http://localhost:3005'', ''/products'' @ rest)"
    "forward (setupProxies env) (''/payments'' @ rest) = Some (env_or (PAYMENT_SERVICE_URL env) ''http://localhost:3002'', rest)"
    "forward (setupProxies env) (''/inventory'' @ rest) = Some (env_or (INVENTORY_SERVICE_URL env) ''http://localhost:3003'', rest)"
    by (simp_all add: setupProxies_def rewritten_def)
  have left: "forward (setupProxies env) path = None \<longleftrightarrow>
      list_all (\<lambda>pre. \<not> startsWith path pre) [''/auth'', ''/orders'', ''/payments'', ''/inventory'', ''/products'']"
    by (simp add: forward_None setupProxies_def)
  show ?thesis
    unfolding same using taken left by blast
qed

definition local_env :: gateway_env where
  "local_env = \<lparr>AUTH_SERVICE_URL = None, ORDER_SERVICE_URL = None, PAYMENT_SERVICE_URL = Some ''http://payment:3002'',
     INVENTORY_SERVICE_URL = None, CATALOG_SERVICE_URL = None\<rparr>"

theorem gateway_routes_partition_paths_witness:
  "forward (rev (setupProxies local_env)) ''/payments/health'' = Some (''http://payment:3002'', ''/health'')"
proof -
  have "mset (rev (setupProxies local_env)) = mset (setupProxies local_env)" by simp
  from gateway_routes_partition_paths [OF this, of "[]" "''/health''"]
  have "forward (rev (setupProxies local_env)) (''/payments'' @ ''/health'') =
      Some (env_or (PAYMENT_SERVICE_URL local_env) ''http://localhost:3002'', ''/health'')"
    by blast
  then show ?thesis by (simp add: local_env_def env_or_def)
qed

end
