(* ===== verification/Http_Routes.thy ===== *)
theory Http_Routes
  imports Nest_Modules Gateway
begin

text \<open>
  The HTTP surface of the system: the controllers of each service with their decorators
  (\<open>app.controller.ts\<close>, \<open>metrics.controller.ts\<close>, \<open>health.controller.ts\<close> and the controllers of the auth, order
  and catalog services), the routes an application has through its modules, and what of it a client
  reaches behind the proxies of the gateway. Matching a path with a template is the router's and an
  argument.
\<close>

section \<open>Controllers\<close>

datatype verb = GET | POST

text \<open>A template: \<open>':id'\<close> is a parameter.\<close>

datatype segment = Fixed string | Param string

datatype endpoint = GetHello | GetMetrics | CheckHealth | RegisterUser | LoginUser | GetMe | PlaceOrder
  | FindAllProducts | FindOneProduct | CreateProduct

text \<open>\<open>@Get\<close> and \<open>@Post\<close> with \<open>@UseGuards(JwtAuthGuard)\<close> on the method or on the class.\<close>

record http_route =
  rt_verb :: verb
  rt_template :: "segment list"
  rt_guarded :: bool
  rt_endpoint :: endpoint

record controller =
  base_path :: "segment list"
  class_guarded :: bool
  actions :: "http_route list"

definition action :: "verb \<Rightarrow> segment list \<Rightarrow> bool \<Rightarrow> endpoint \<Rightarrow> http_route" where
  "action v t g e = \<lparr>rt_verb = v, rt_template = t, rt_guarded = g, rt_endpoint = e\<rparr>"

text \<open>\<open>AppController\<close> with the greeting of \<open>AppService\<close>.\<close>

definition auth_AppController :: controller where
  "auth_AppController = \<lparr>base_path = [], class_guarded = False, actions = [action GET [] False GetHello]\<rparr>"

definition auth_getHello :: string where
  "auth_getHello = ''Hello World!''"

definition catalog_AppController :: controller where
  "catalog_AppController = \<lparr>base_path = [], class_guarded = False, actions = [action GET [] False GetHello]\<rparr>"

definition catalog_getHello :: string where
  "catalog_getHello = ''Hello World!''"

definition order_AppController :: controller where
  "order_AppController = \<lparr>base_path = [], class_guarded = False, actions = [action GET [] False GetHello]\<rparr>"

definition order_getHello :: string where
  "order_getHello = ''Hello World!''"

definition payment_AppController :: controller where
  "payment_AppController = \<lparr>base_path = [], class_guarded = False, actions = [action GET [] False GetHello]\<rparr>"

definition payment_getHello :: string where
  "payment_getHello = ''Hello World!''"

definition inventory_AppController :: controller where
  "inventory_AppController = \<lparr>base_path = [], class_guarded = False, actions = [action GET [] False GetHello]\<rparr>"

definition inventory_getHello :: string where
  "inventory_getHello = ''Hello World!''"

definition notification_AppController :: controller where
  "notification_AppController = \<lparr>base_path = [], class_guarded = False, actions = [action GET [] False GetHello]\<rparr>"

definition notification_getHello :: string where
  "notification_getHello = ''Hello World!''"

definition gateway_AppController :: controller where
  "gateway_AppController = \<lparr>base_path = [], class_guarded = False, actions = [action GET [] False GetHello]\<rparr>"

definition gateway_getHello :: string where
  "gateway_getHello = ''Hello World!''"

text \<open>\<open>MetricsController\<close>\<close>

definition auth_MetricsController :: controller where
  "auth_MetricsController = \<lparr>base_path = [Fixed ''metrics''], class_guarded = False,
     actions = [action GET [] False GetMetrics]\<rparr>"

definition catalog_MetricsController :: controller where
  "catalog_MetricsController = \<lparr>base_path = [Fixed ''metrics''], class_guarded = False,
     actions = [action GET [] False GetMetrics]\<rparr>"

definition order_MetricsController :: controller where
  "order_MetricsController = \<lparr>base_path = [Fixed ''metrics''], class_guarded = False,
     actions = [action GET [] False GetMetrics]\<rparr>"

definition payment_MetricsController :: controller where
  "payment_MetricsController = \<lparr>base_path = [Fixed ''metrics''], class_guarded = False,
     actions = [action GET [] False GetMetrics]\<rparr>"

definition inventory_MetricsController :: controller where
  "inventory_MetricsController = \<lparr>base_path = [Fixed ''metrics''], class_guarded = False,
     actions = [action GET [] False GetMetrics]\<rparr>"

definition notification_MetricsController :: controller where
  "notification_MetricsController = \<lparr>base_path = [Fixed ''metrics''], class_guarded = False,
     actions = [action GET [] False GetMetrics]\<rparr>"

definition gateway_MetricsController :: controller where
  "gateway_MetricsController = \<lparr>base_path = [Fixed ''metrics''], class_guarded = False,
     actions = [action GET [] False GetMetrics]\<rparr>"

text \<open>\<open>HealthController\<close>\<close>

definition auth_HealthController :: controller where
  "auth_HealthController = \<lparr>base_path = [Fixed ''health''], class_guarded = False,
     actions = [action GET [] False CheckHealth]\<rparr>"

definition catalog_HealthController :: controller where
  "catalog_HealthController = \<lparr>base_path = [Fixed ''health''], class_guarded = False,
     actions = [action GET [] False CheckHealth]\<rparr>"

definition order_HealthController :: controller where
  "order_HealthController = \<lparr>base_path = [Fixed ''health''], class_guarded = False,
     actions = [action GET [] False CheckHealth]\<rparr>"

definition payment_HealthController :: controller where
  "payment_HealthController = \<lparr>base_path = [Fixed ''health''], class_guarded = False,
     actions = [action GET [] False CheckHealth]\<rparr>"

definition inventory_HealthController :: controller where
  "inventory_HealthController = \<lparr>base_path = [Fixed ''health''], class_guarded = False,
     actions = [action GET [] False CheckHealth]\<rparr>"

definition notification_HealthController :: controller where
  "notification_HealthController = \<lparr>base_path = [Fixed ''health''], class_guarded = False,
     actions = [action GET [] False CheckHealth]\<rparr>"

definition gateway_HealthController :: controller where
  "gateway_HealthController = \<lparr>base_path = [Fixed ''health''], class_guarded = False,
     actions = [action GET [] False CheckHealth]\<rparr>"

definition AuthController :: controller where
  "AuthController = \<lparr>base_path = [Fixed ''auth''], class_guarded = False,
     actions = [action POST [Fixed ''register''] False RegisterUser,
       action POST [Fixed ''login''] False LoginUser,
       action GET [Fixed ''me''] True GetMe]\<rparr>"

definition OrderController :: controller where
  "OrderController = \<lparr>base_path = [Fixed ''orders''], class_guarded = True,
     actions = [action POST [] False PlaceOrder]\<rparr>"

definition CatalogController :: controller where
  "CatalogController = \<lparr>base_path = [Fixed ''products''], class_guarded = False,
     actions = [action GET [] False FindAllProducts,
       action GET [Param ''id''] False FindOneProduct,
       action POST [] True CreateProduct]\<rparr>"

section \<open>The routes of an application\<close>

datatype service = TheAuth | TheCatalog | TheOrder | ThePayment | TheInventory | TheNotification | TheGateway

fun application_of :: "service \<Rightarrow> application" where
  "application_of TheAuth = auth_app"
| "application_of TheCatalog = catalog_app"
| "application_of TheOrder = order_app"
| "application_of ThePayment = payment_app"
| "application_of TheInventory = inventory_app"
| "application_of TheNotification = notification_app"
| "application_of TheGateway = gateway_app"

text \<open>The class behind a controller's name in the modules of a service.\<close>

fun controllers_of :: "service \<Rightarrow> (string \<times> controller) list" where
  "controllers_of TheAuth = [(''AppController'', auth_AppController), (''MetricsController'', auth_MetricsController),
     (''HealthController'', auth_HealthController), (''AuthController'', AuthController)]"
| "controllers_of TheCatalog = [(''AppController'', catalog_AppController), (''MetricsController'', catalog_MetricsController),
     (''HealthController'', catalog_HealthController), (''CatalogController'', CatalogController)]"
| "controllers_of TheOrder = [(''AppController'', order_AppController), (''MetricsController'', order_MetricsController),
     (''HealthController'', order_HealthController), (''OrderController'', OrderController)]"
| "controllers_of ThePayment = [(''AppController'', payment_AppController), (''MetricsController'', payment_MetricsController),
     (''HealthController'', payment_HealthController)]"
| "controllers_of TheInventory = [(''AppController'', inventory_AppController), (''MetricsController'', inventory_MetricsController),
     (''HealthController'', inventory_HealthController)]"
| "controllers_of TheNotification = [(''AppController'', notification_AppController), (''MetricsController'', notification_MetricsController),
     (''HealthController'', notification_HealthController)]"
| "controllers_of TheGateway = [(''AppController'', gateway_AppController), (''MetricsController'', gateway_MetricsController),
     (''HealthController'', gateway_HealthController)]"

definition mounted :: "controller \<Rightarrow> http_route list" where
  "mounted c = map (\<lambda>r. r\<lparr>rt_template := base_path c @ rt_template r, rt_guarded := class_guarded c \<or> rt_guarded r\<rparr>) (actions c)"

definition routes_of :: "service \<Rightarrow> http_route list" where
  "routes_of s = concat (map (\<lambda>m. concat (map (\<lambda>(c, _). case map_of (controllers_of s) c of
       None \<Rightarrow> [] | Some k \<Rightarrow> mounted k) (controllers m))) (loaded (application_of s)))"

text \<open>The router gives a request to the first route whose template its path matches.\<close>

type_synonym params = "(string \<times> string) list"

type_synonym matcher = "segment list \<Rightarrow> string \<Rightarrow> params option"

fun dispatch :: "matcher \<Rightarrow> http_route list \<Rightarrow> verb \<Rightarrow> string \<Rightarrow> (http_route \<times> params) option" where
  "dispatch matches [] v path = None"
| "dispatch matches (r # rs) v path =
     (if rt_verb r = v then (case matches (rt_template r) path of
        Some ps \<Rightarrow> Some (r, ps)
      | None \<Rightarrow> dispatch matches rs v path)
      else dispatch matches rs v path)"

text \<open>Every application greets, shows its metrics and its health; three have routes of their own.\<close>

definition common_routes :: "http_route list" where
  "common_routes = [action GET [Fixed ''health''] False CheckHealth, action GET [Fixed ''metrics''] False GetMetrics]"

lemma routes_of_services:
  "routes_of TheAuth = action GET [] False GetHello #
     [action POST [Fixed ''auth'', Fixed ''register''] False RegisterUser,
      action POST [Fixed ''auth'', Fixed ''login''] False LoginUser,
      action GET [Fixed ''auth'', Fixed ''me''] True GetMe] @ common_routes"
  "routes_of TheCatalog = action GET [] False GetHello #
     [action GET [Fixed ''products''] False FindAllProducts,
      action GET [Fixed ''products'', Param ''id''] False FindOneProduct,
      action POST [Fixed ''products''] True CreateProduct] @ common_routes"
  "routes_of TheOrder = action GET [] False GetHello # action POST [Fixed ''orders''] True PlaceOrder # common_routes"
  "routes_of ThePayment = action GET [] False GetHello # common_routes"
  "routes_of TheInventory = action GET [] False GetHello # common_routes"
  "routes_of TheNotification = action GET [] False GetHello # common_routes"
  "routes_of TheGateway = action GET [] False GetHello # common_routes"
  by code_simp+

section \<open>Paths\<close>

definition path_text :: "string list \<Rightarrow> string" where
  "path_text ss = (if ss = [] then ''/'' else concat (map (\<lambda>s. CHR ''/'' # s) ss))"

definition plain_segment :: "string \<Rightarrow> bool" where
  "plain_segment s \<longleftrightarrow> s \<noteq> [] \<and> set s \<subseteq> set ''abcdefghijklmnopqrstuvwxyz0123456789-''"

fun seg_match :: "segment list \<Rightarrow> string list \<Rightarrow> params option" where
  "seg_match [] [] = Some []"
| "seg_match (Fixed f # ts) (s # ss) = (if s = f then seg_match ts ss else None)"
| "seg_match (Param n # ts) (s # ss) = map_option (\<lambda>ps. (n, s) # ps) (seg_match ts ss)"
| "seg_match _ _ = None"

text \<open>The documented behaviour of the router, for paths of lower-case segments: a template matches segment by
  segment, a parameter takes one of any text.\<close>

definition router_law :: "matcher \<Rightarrow> bool" where
  "router_law matches \<longleftrightarrow> (\<forall>t ss. list_all plain_segment ss \<longrightarrow> matches t (path_text ss) = seg_match t ss)"

lemma path_text_simps: "path_text [] = ''/''" "path_text [a] = CHR ''/'' # a" "path_text (a # b # ss) = CHR ''/'' # a @ path_text (b # ss)"
  by (simp_all add: path_text_def)

lemma plain_no_slash: "plain_segment s \<Longrightarrow> CHR ''/'' \<notin> set s"
  by (auto simp: plain_segment_def)

lemma startsWith_before_slash:
  "CHR ''/'' \<notin> set p \<Longrightarrow> rest = [] \<or> hd rest = CHR ''/'' \<Longrightarrow> startsWith (a @ rest) p \<longleftrightarrow> startsWith a p"
  by (induction a p rule: startsWith.induct) (cases rest; auto)+

lemma startsWith_path:
  assumes "CHR ''/'' \<notin> set p" and "p \<noteq> []"
  shows "startsWith (path_text ss) (CHR ''/'' # p) \<longleftrightarrow> ss \<noteq> [] \<and> startsWith (hd ss) p"
proof (cases ss rule: remdups_adj.cases)
  case 1
  with assms(2) show ?thesis by (auto simp: path_text_def neq_Nil_conv)
next
  case (3 a b rest)
  moreover have "path_text (b # rest) = [] \<or> hd (path_text (b # rest)) = CHR ''/''" by (simp add: path_text_def)
  ultimately show ?thesis using startsWith_before_slash [OF assms(1)] by (simp add: path_text_simps)
qed (simp add: path_text_simps)

section \<open>Behind the gateway\<close>

text \<open>What answers a request at the gateway: the service a proxy forwards it to, or the gateway's own routes.
  Which service listens at an address is up to the deployment.\<close>

definition at_gateway :: "matcher \<Rightarrow> (string \<Rightarrow> service option) \<Rightarrow> gateway_env \<Rightarrow> verb \<Rightarrow> string \<Rightarrow>
    (service \<times> http_route \<times> params) option" where
  "at_gateway matches listening env v path = (case forward (setupProxies env) path of
     None \<Rightarrow> map_option (Pair TheGateway) (dispatch matches (routes_of TheGateway) v path)
   | Some (address, path') \<Rightarrow> (case listening address of
       None \<Rightarrow> None
     | Some s \<Rightarrow> map_option (Pair s) (dispatch matches (routes_of s) v path')))"

definition deployed :: "(string \<Rightarrow> service option) \<Rightarrow> gateway_env \<Rightarrow> bool" where
  "deployed listening env \<longleftrightarrow>
     map (\<lambda>p. listening (target p)) (setupProxies env) = map Some [TheAuth, TheOrder, ThePayment, TheInventory, TheCatalog]"

text \<open>The surface as a table: verb, segments of the path, and who answers.\<close>

definition surface :: "verb \<Rightarrow> string list \<Rightarrow> (service \<times> endpoint \<times> bool \<times> params) option" where
  "surface v ss = (case ss of
     [] \<Rightarrow> (if v = GET then Some (TheGateway, GetHello, False, []) else None)
   | [a] \<Rightarrow>
       (if v = GET \<and> a = ''health'' then Some (TheGateway, CheckHealth, False, [])
        else if v = GET \<and> a = ''metrics'' then Some (TheGateway, GetMetrics, False, [])
        else if v = POST \<and> a = ''orders'' then Some (TheOrder, PlaceOrder, True, [])
        else if v = GET \<and> a = ''products'' then Some (TheCatalog, FindAllProducts, False, [])
        else if v = POST \<and> a = ''products'' then Some (TheCatalog, CreateProduct, True, [])
        else None)
   | [a, b] \<Rightarrow>
       (if v = POST \<and> a = ''auth'' \<and> b = ''register'' then Some (TheAuth, RegisterUser, False, [])
        else if v = POST \<and> a = ''auth'' \<and> b = ''login'' then Some (TheAuth, LoginUser, False, [])
        else if v = GET \<and> a = ''auth'' \<and> b = ''me'' then Some (TheAuth, GetMe, True, [])
        else if v = GET \<and> a = ''products'' then Some (TheCatalog, FindOneProduct, False, [(''id'', b)])
        else if v = GET \<and> a \<in> {''payments'', ''inventory''} \<and> b \<in> {''health'', ''metrics''}
          then Some (if a = ''payments'' then ThePayment else TheInventory,
            if b = ''health'' then CheckHealth else GetMetrics, False, [])
        else None)
   | _ \<Rightarrow> None)"

text \<open>A path whose first segment only begins like a stripped prefix, or is all of it, is not forwarded as a
  path: what is left does not start with a slash.\<close>

definition cleanly_stripped :: "string list \<Rightarrow> bool" where
  "cleanly_stripped ss \<longleftrightarrow> (\<forall>pre \<in> {''payments'', ''inventory''}. ss \<noteq> [] \<and> startsWith (hd ss) pre \<longrightarrow> hd ss = pre \<and> tl ss \<noteq> [])"

lemma seg_match_unfold:
  "seg_match (Fixed f # ts) ss = (case ss of [] \<Rightarrow> None | s # r \<Rightarrow> if s = f then seg_match ts r else None)"
  "seg_match (Param n # ts) ss = (case ss of [] \<Rightarrow> None | s # r \<Rightarrow> map_option (\<lambda>ps. (n, s) # ps) (seg_match ts r))"
  "seg_match [] ss = (if ss = [] then Some [] else None)"
  by (cases ss; simp)+

lemma dispatch_plain:
  assumes "router_law matches" and "list_all plain_segment ss"
  shows "dispatch matches rs v (path_text ss) = dispatch (\<lambda>t _. seg_match t ss) rs v []"
  by (induction rs) (use assms in \<open>auto simp: router_law_def split: option.splits\<close>)

lemma first_prefix:
  "startsWith a ''auth'' \<Longrightarrow> \<not> startsWith a ''orders'' \<and> \<not> startsWith a ''payments'' \<and> \<not> startsWith a ''inventory'' \<and> \<not> startsWith a ''products''"
  "startsWith a ''orders'' \<Longrightarrow> \<not> startsWith a ''payments'' \<and> \<not> startsWith a ''inventory'' \<and> \<not> startsWith a ''products''"
  "startsWith a ''payments'' \<Longrightarrow> \<not> startsWith a ''inventory'' \<and> \<not> startsWith a ''products''"
  "startsWith a ''inventory'' \<Longrightarrow> \<not> startsWith a ''products''"
  by (auto simp: startsWith_append)

lemma forward_path:
  "forward (setupProxies env) (path_text ss) =
     (if ss = [] then None
      else if startsWith (hd ss) ''auth'' then Some (target (setupProxies env ! 0), path_text ss)
      else if startsWith (hd ss) ''orders'' then Some (target (setupProxies env ! 1), path_text ss)
      else if startsWith (hd ss) ''payments'' then Some (target (setupProxies env ! 2), drop 9 (path_text ss))
      else if startsWith (hd ss) ''inventory'' then Some (target (setupProxies env ! 3), drop 10 (path_text ss))
      else if startsWith (hd ss) ''products'' then Some (target (setupProxies env ! 4), path_text ss)
      else None)"
proof (cases "ss = []")
  case False
  then show ?thesis
    using startsWith_path [of "''auth''" ss] startsWith_path [of "''orders''" ss] startsWith_path [of "''payments''" ss]
      startsWith_path [of "''inventory''" ss] startsWith_path [of "''products''" ss]
    by (simp add: setupProxies_def rewritten_def eval_nat_numeral del: startsWith.simps)
qed (simp add: setupProxies_def path_text_def)

lemma stripped_path:
  "drop 9 (path_text (''payments'' # b # ss)) = path_text (b # ss)"
  "drop 10 (path_text (''inventory'' # b # ss)) = path_text (b # ss)"
  by (simp_all add: path_text_def)

lemma deployed_at:
  assumes "deployed listening env"
  shows "listening (target (setupProxies env ! 0)) = Some TheAuth" "listening (target (setupProxies env ! Suc 0)) = Some TheOrder"
    "listening (target (setupProxies env ! 2)) = Some ThePayment" "listening (target (setupProxies env ! 3)) = Some TheInventory"
    "listening (target (setupProxies env ! 4)) = Some TheCatalog"
  using assms by (simp_all add: deployed_def setupProxies_def)

definition answered_by :: "service \<Rightarrow> verb \<Rightarrow> string list \<Rightarrow> (service \<times> endpoint \<times> bool \<times> params) option" where
  "answered_by s v ss = map_option (\<lambda>(r, ps). (s, rt_endpoint r, rt_guarded r, ps))
     (dispatch (\<lambda>t _. seg_match t ss) (routes_of s) v [])"

lemma answered_by_services:
  "startsWith a ''auth'' \<Longrightarrow> answered_by TheAuth v (a # ss) = surface v (a # ss)"
  "startsWith a ''orders'' \<Longrightarrow> answered_by TheOrder v (a # ss) = surface v (a # ss)"
  "startsWith a ''products'' \<Longrightarrow> answered_by TheCatalog v (a # ss) = surface v (a # ss)"
  "answered_by ThePayment v (b # ss) = surface v (''payments'' # b # ss)"
  "answered_by TheInventory v (b # ss) = surface v (''inventory'' # b # ss)"
  "answered_by TheGateway v [] = surface v []"
  "list_all (\<lambda>p. \<not> startsWith a p) [''auth'', ''orders'', ''payments'', ''inventory'', ''products''] \<Longrightarrow>
     answered_by TheGateway v (a # ss) = surface v (a # ss)"
proof -
  note unfold = answered_by_def routes_of_services common_routes_def action_def seg_match_unfold surface_def
  have other: "startsWith a ''auth'' \<Longrightarrow> a \<notin> {''orders'', ''products'', ''payments'', ''inventory'', ''health'', ''metrics''}"
    "startsWith a ''orders'' \<Longrightarrow> a \<notin> {''auth'', ''products'', ''payments'', ''inventory'', ''health'', ''metrics''}"
    "startsWith a ''products'' \<Longrightarrow> a \<notin> {''auth'', ''orders'', ''payments'', ''inventory'', ''health'', ''metrics''}"
    "list_all (\<lambda>p. \<not> startsWith a p) [''auth'', ''orders'', ''payments'', ''inventory'', ''products''] \<Longrightarrow>
      a \<notin> {''auth'', ''orders'', ''payments'', ''inventory'', ''products''}"
    by auto
  show "startsWith a ''auth'' \<Longrightarrow> answered_by TheAuth v (a # ss) = surface v (a # ss)"
    using other(1) by (cases v; cases ss rule: remdups_adj.cases; simp add: unfold del: startsWith.simps)
  show "startsWith a ''orders'' \<Longrightarrow> answered_by TheOrder v (a # ss) = surface v (a # ss)"
    using other(2) by (cases v; cases ss rule: remdups_adj.cases; simp add: unfold del: startsWith.simps)
  show "startsWith a ''products'' \<Longrightarrow> answered_by TheCatalog v (a # ss) = surface v (a # ss)"
    using other(3) by (cases v; cases ss rule: remdups_adj.cases; simp add: unfold del: startsWith.simps)
  show "answered_by ThePayment v (b # ss) = surface v (''payments'' # b # ss)"
    "answered_by TheInventory v (b # ss) = surface v (''inventory'' # b # ss)"
    "answered_by TheGateway v [] = surface v []"
    by (cases v; cases ss; simp add: unfold)+
  show "list_all (\<lambda>p. \<not> startsWith a p) [''auth'', ''orders'', ''payments'', ''inventory'', ''products''] \<Longrightarrow>
     answered_by TheGateway v (a # ss) = surface v (a # ss)"
    using other(4) by (cases v; cases ss rule: remdups_adj.cases; simp add: unfold del: startsWith.simps)
qed


text \<open>A router that keeps the law: it splits the path at its slashes.\<close>

fun split_slash :: "string \<Rightarrow> string list" where
  "split_slash [] = [[]]"
| "split_slash (c # cs) = (if c = CHR ''/'' then [] # split_slash cs
     else (case split_slash cs of [] \<Rightarrow> [[c]] | s # ss \<Rightarrow> (c # s) # ss))"

definition path_segments :: "string \<Rightarrow> string list" where
  "path_segments path = (if path = ''/'' then [] else split_slash (tl path))"

definition segment_router :: matcher where
  "segment_router t path = seg_match t (path_segments path)"

lemma split_slash_append: "CHR ''/'' \<notin> set a \<Longrightarrow> split_slash (a @ CHR ''/'' # r) = a # split_slash r"
  "CHR ''/'' \<notin> set a \<Longrightarrow> split_slash a = [a]"
  by (induction a) auto

lemma path_segments_text: "list_all plain_segment ss \<Longrightarrow> path_segments (path_text ss) = ss"
proof (induction ss rule: remdups_adj.induct)
  case (2 a)
  then show ?case
    using plain_no_slash [of a] by (auto simp: path_segments_def path_text_simps split_slash_append plain_segment_def)
next
  case (3 a b ss)
  have "path_segments (path_text (b # ss)) = b # ss" using 3 by (cases "a = b") auto
  moreover have "path_text (b # ss) = CHR ''/'' # tl (path_text (b # ss))" "tl (path_text (b # ss)) \<noteq> []"
    using 3(3) by (auto simp: path_text_def plain_segment_def)
  ultimately have "split_slash (tl (path_text (b # ss))) = b # ss" by (auto simp: path_segments_def split: if_splits)
  moreover have "split_slash (a @ path_text (b # ss)) = a # split_slash (tl (path_text (b # ss)))"
    using 3(3) plain_no_slash [of a] split_slash_append(1) [of a "tl (path_text (b # ss))"]
    by (simp flip: \<open>path_text (b # ss) = _\<close>)
  moreover have "a \<noteq> []" using 3(3) by (simp add: plain_segment_def)
  ultimately show ?case by (simp add: path_segments_def path_text_simps)
qed (simp add: path_segments_def path_text_simps)

lemma segment_router_law: "router_law segment_router"
  by (simp add: router_law_def segment_router_def path_segments_text)

definition local_services :: "string \<Rightarrow> service option" where
  "local_services = map_of [(''http://localhost:3004'', TheAuth), (''http://localhost:3001'', TheOrder),
     (''http://payment:3002'', ThePayment), (''http://localhost:3003'', TheInventory), (''http://localhost:3005'', TheCatalog)]"

lemma local_services_deployed: "deployed local_services local_env"
  by (simp add: deployed_def local_services_def setupProxies_def local_env_def env_or_def)


end
