(* ===== verification/Api.thy ===== *)
theory Api
  imports Auth Order
begin

text \<open>
  The HTTP routes of the auth, catalog and order services: which handler a request reaches, and the
  JWT guard in front of the routes that change something or name a user (the controllers, and each
  service's own \<open>jwt.strategy.ts\<close>, \<open>auth.module.ts\<close> and \<open>jwt-auth.guard.ts\<close>).
\<close>

section \<open>Token settings\<close>

record jwt_module =
  module_secret :: string
  expiresIn :: string

definition auth_jwt_module :: "string option \<Rightarrow> jwt_module" where
  "auth_jwt_module env = \<lparr>module_secret = config_string env ''dev-secret-change-me'', expiresIn = ''1h''\<rparr>"

definition order_jwt_module :: "string option \<Rightarrow> jwt_module" where
  "order_jwt_module env = \<lparr>module_secret = config_string env ''dev-secret-change-me'', expiresIn = ''1h''\<rparr>"

definition catalog_jwt_module :: "string option \<Rightarrow> jwt_module" where
  "catalog_jwt_module env = \<lparr>module_secret = config_string env ''dev-secret-change-me'', expiresIn = ''1h''\<rparr>"

text \<open>The strategies of the order and catalog services; there, email and roles may be missing.\<close>

record verified_payload =
  vp_sub :: string
  vp_email :: "string option"
  vp_roles :: "string list option"

definition order_secretOrKey :: "string option \<Rightarrow> string" where
  "order_secretOrKey env = config_string env ''dev-secret-change-me''"

definition order_validate :: "verified_payload \<Rightarrow> verified_payload" where
  "order_validate p = \<lparr>vp_sub = vp_sub p, vp_email = vp_email p, vp_roles = vp_roles p\<rparr>"

definition catalog_secretOrKey :: "string option \<Rightarrow> string" where
  "catalog_secretOrKey env = config_string env ''dev-secret-change-me''"

definition catalog_validate :: "verified_payload \<Rightarrow> verified_payload" where
  "catalog_validate p = \<lparr>vp_sub = vp_sub p, vp_email = vp_email p, vp_roles = vp_roles p\<rparr>"

section \<open>Guarded routes\<close>

text \<open>\<open>JwtAuthGuard\<close>: passport-jwt verifies the bearer token with the service's secret and hands the
  payload to \<open>validate\<close>; without a valid token the handler does not run.\<close>

definition jwt_guard :: "(string \<Rightarrow> 'token \<Rightarrow> verified_payload option) \<Rightarrow> string \<Rightarrow>
    (verified_payload \<Rightarrow> verified_payload) \<Rightarrow> 'token option \<Rightarrow> (verified_payload \<Rightarrow> 's \<Rightarrow> 'a result \<times> 's) \<Rightarrow> 's \<Rightarrow> 'a result \<times> 's" where
  "jwt_guard verify secret check bearer handler s = (case bearer of
     None \<Rightarrow> (Inl (UnauthorizedException ''Unauthorized''), s)
   | Some token \<Rightarrow> (case verify secret token of
       None \<Rightarrow> (Inl (UnauthorizedException ''Unauthorized''), s)
     | Some p \<Rightarrow> handler (check p) s))"

definition post_orders :: "(string \<Rightarrow> 'token \<Rightarrow> verified_payload option) \<Rightarrow> string option \<Rightarrow> 'token option \<Rightarrow>
    (string list \<Rightarrow> GetPricesResult result) \<Rightarrow> order_env \<Rightarrow> CreateOrderDto \<Rightarrow> OrderDB \<Rightarrow> Order result \<times> OrderDB" where
  "post_orders verify env bearer fire oenv dto =
     jwt_guard verify (order_secretOrKey env) order_validate bearer (\<lambda>_. createOrder fire oenv dto)"

definition post_products :: "(string \<Rightarrow> 'token \<Rightarrow> verified_payload option) \<Rightarrow> string option \<Rightarrow> 'token option \<Rightarrow>
    exn option \<Rightarrow> exn option \<Rightarrow> string \<Rightarrow> CreateProductDto \<Rightarrow> Product list \<Rightarrow> Product result \<times> Product list" where
  "post_products verify env bearer lookup save pk dto =
     jwt_guard verify (catalog_secretOrKey env) catalog_validate bearer (\<lambda>_. create lookup save pk dto)"

definition get_products :: "exn option \<Rightarrow> Product list \<Rightarrow> Product list result" where
  "get_products fault products = findAll fault products"

definition post_register :: "(string \<Rightarrow> string) \<Rightarrow> register_env \<Rightarrow> Credentials \<Rightarrow> User list \<Rightarrow> Profile result \<times> User list" where
  "post_register bcrypt_hash env dto users = register bcrypt_hash env dto users"

definition post_login :: "(string \<Rightarrow> string \<Rightarrow> bool) \<Rightarrow> (string \<Rightarrow> JwtPayload \<Rightarrow> 'token) \<Rightarrow> string option \<Rightarrow> exn option \<Rightarrow>
    Credentials \<Rightarrow> User list \<Rightarrow> 'token result" where
  "post_login bcrypt_compare sign env fault dto users =
     login bcrypt_compare (sign (module_secret (auth_jwt_module env))) fault dto users"

section \<open>Properties\<close>

text \<open>What the other services read of a token's payload.\<close>

definition seen_payload :: "JwtPayload \<Rightarrow> verified_payload" where
  "seen_payload p = \<lparr>vp_sub = jwt_sub p, vp_email = Some (jwt_email p), vp_roles = Some (jwt_roles p)\<rparr>"

text \<open>Without a valid token nothing is written: a request to place an order or to register a product
  that carries no token, or one that does not verify with the service's secret, is refused as
  unauthorized and leaves the database as it was, whatever it contains.\<close>
theorem unauthenticated_writes_nothing:
  assumes "case bearer of None \<Rightarrow> True | Some token \<Rightarrow>
    verify (order_secretOrKey env) token = None \<and> verify (catalog_secretOrKey env) token = None"
  shows "post_orders verify env bearer fire oenv odto db = (Inl (UnauthorizedException ''Unauthorized''), db) \<and>
    post_products verify env bearer lookup save pk pdto products = (Inl (UnauthorizedException ''Unauthorized''), products)"
  using assms by (cases bearer) (simp_all add: post_orders_def post_products_def jwt_guard_def)

text \<open>A stand-in for the library: a token carries the secret it was made with.\<close>

definition open_seen :: "string \<Rightarrow> string \<times> JwtPayload \<Rightarrow> verified_payload option" where
  "open_seen secret token = (if fst token = secret then Some (seen_payload (snd token)) else None)"

definition a_payload :: JwtPayload where
  "a_payload = \<lparr>jwt_sub = ''u1'', jwt_email = ''a@b.c'', jwt_roles = [''customer'']\<rparr>"

theorem unauthenticated_writes_nothing_witness:
  "post_orders open_seen (Some ''right'') (Some (''wrong'', a_payload)) (ask_catalog [a_product ''tea'' 3]) (an_env ''o1'')
     (tea_order 2) no_orders = (Inl (UnauthorizedException ''Unauthorized''), no_orders)"
  using unauthenticated_writes_nothing [where bearer = "Some (''wrong'', a_payload)" and verify = open_seen
      and env = "Some ''right''" and fire = "ask_catalog [a_product ''tea'' 3]" and oenv = "an_env ''o1''"
      and odto = "tea_order 2" and db = no_orders]
  by (simp add: open_seen_def order_secretOrKey_def catalog_secretOrKey_def config_string_def)

text \<open>One login opens every service: a token the auth service issues for a user is accepted by the order
  and the catalog service when the three share the environment's secret (or all fall back to the same
  default), and the guarded handlers then run exactly as they would unguarded. Assumed of the library: a
  token verifies with the secret that signed it.\<close>
theorem login_token_opens_services:
  assumes "post_login bcrypt_compare sign env fault dto users = Inr token"
    and "\<And>secret p. verify secret (sign secret p) = Some (seen_payload p)"
  shows "post_orders verify env (Some token) fire oenv odto db = createOrder fire oenv odto db \<and>
    post_products verify env (Some token) lookup save pk pdto products = create lookup save pk pdto products \<and>
    (\<exists>u \<in> set users. user_email u = cred_email dto \<and> bcrypt_compare (cred_password dto) (passwordHash u) \<and>
       verify (order_secretOrKey env) token = Some (seen_payload (payload_of u)))"
proof -
  obtain u where u: "find_user (cred_email dto) users = Some u" "bcrypt_compare (cred_password dto) (passwordHash u)"
    and token: "token = sign (config_string env ''dev-secret-change-me'') (payload_of u)"
    using assms(1)
    by (auto simp: post_login_def login_def auth_jwt_module_def attempt_Inr split: sum.splits option.splits if_splits)
  with assms(2) find_row_SomeD [OF u(1)] show ?thesis
    by (auto simp: post_orders_def post_products_def jwt_guard_def order_secretOrKey_def catalog_secretOrKey_def)
qed

definition logged_in :: User where
  "logged_in = \<lparr>user_id = ''u1'', user_email = ''a@b.c'', passwordHash = mark_hash ''secret'',
     user_roles = [''customer''], user_createdAt = ''2025-01-01T00:00:00.000Z''\<rparr>"

theorem login_token_opens_services_witness:
  "\<exists>token. post_login mark_compare Pair None None a_user [logged_in] = Inr token \<and>
     post_orders open_seen None (Some token) (ask_catalog [a_product ''tea'' 3]) (an_env ''o1'') (tea_order 2) no_orders =
       createOrder (ask_catalog [a_product ''tea'' 3]) (an_env ''o1'') (tea_order 2) no_orders"
proof -
  have t: "post_login mark_compare Pair None None a_user [logged_in] = Inr (jwt_secret None, payload_of logged_in)"
    by (simp add: post_login_def login_def a_user_def logged_in_def mark_compare_def auth_jwt_module_def jwt_secret_def)
  have "open_seen secret (Pair secret p) = Some (seen_payload p)" for secret p
    by (simp add: open_seen_def)
  from login_token_opens_services [of mark_compare Pair None None a_user "[logged_in]" _ open_seen, OF t this] t
  show ?thesis by blast
qed

end
