(* ===== verification/Http_Api.thy ===== *)
theory Http_Api
  imports Http_Routes Api JSON_Roundtrip
begin

text \<open>
  The HTTP requests of the auth, order and catalog services from the text that arrives to the answer: the
  body is parsed, the route found, the token checked, and the handler run on what it reads of the body.
  None of the services validates bodies, so the code sees whatever the text holds. The router, the parser
  of bodies and the status of an exception are the framework's.
\<close>

section \<open>Requests and answers\<close>

record 'token http_call =
  call_verb :: verb
  call_path :: string
  call_bearer :: "'token option"
  call_text :: string

datatype 'token http_body =
    Greeting string
  | OrderSent Order
  | ProductSent Product
  | ProductsSent "Product list"
  | ProfileSent Profile "string option"
  | TokenSent 'token
  | Failure exn

text \<open>An answer with its status; \<open>Beyond\<close> is what the model does not say: the answer of a library's endpoint, or
  what becomes of a body whose values have other types than the code declares.\<close>

datatype 'token answer = Sent nat "'token http_body" | Beyond

record platform =
  match_path :: matcher
  parse_body :: "string \<Rightarrow> json result"
  status_of :: "exn \<Rightarrow> nat"

text \<open>The documented behaviour of the framework: no body is an empty object, the text of an object is that
  object, and a text that is no JSON is a bad request; exceptions have their status, others are 500.\<close>

fun nest_status :: "exn \<Rightarrow> nat" where
  "nest_status (Error _) = 500"
| "nest_status (BadRequestException _) = 400"
| "nest_status (UnauthorizedException _) = 401"
| "nest_status (NotFoundException _) = 404"
| "nest_status (ConflictException _) = 409"

definition platform_law :: "platform \<Rightarrow> bool" where
  "platform_law lib \<longleftrightarrow> router_law (match_path lib) \<and> status_of lib = nest_status \<and> parse_body lib [] = Inr (JObject []) \<and>
     (\<forall>t fs. t \<noteq> [] \<longrightarrow> JSON_parse t = Inr (JObject fs) \<longrightarrow> parse_body lib t = Inr (JObject fs)) \<and>
     (\<forall>t e. t \<noteq> [] \<longrightarrow> JSON_parse t = Inl e \<longrightarrow> (\<exists>m. parse_body lib t = Inl (BadRequestException m)))"

text \<open>What a handler returns: it throws, or answers with a body, or goes beyond the model.\<close>

type_synonym ('token, 's) http_handler =
  "endpoint \<Rightarrow> verified_payload option \<Rightarrow> params \<Rightarrow> json \<Rightarrow> 's \<Rightarrow> 'token http_body option result \<times> 's"

definition no_route :: "'token http_call \<Rightarrow> exn" where
  "no_route call = NotFoundException (''Cannot '' @ (case call_verb call of GET \<Rightarrow> ''GET '' | POST \<Rightarrow> ''POST '') @ call_path call)"

text \<open>A request at a service: the body parser, the router, the guard and the handler, in this order.\<close>

definition serve :: "platform \<Rightarrow> (string \<Rightarrow> 'token \<Rightarrow> verified_payload option) \<Rightarrow> string \<Rightarrow> (verified_payload \<Rightarrow> verified_payload) \<Rightarrow>
    service \<Rightarrow> ('token, 's) http_handler \<Rightarrow> 'token http_call \<Rightarrow> 's \<Rightarrow> 'token answer \<times> 's" where
  "serve lib verify secret check s handler call st = (case parse_body lib (call_text call) of
     Inl e \<Rightarrow> (Sent (status_of lib e) (Failure e), st)
   | Inr body \<Rightarrow> (case dispatch (match_path lib) (routes_of s) (call_verb call) (call_path call) of
       None \<Rightarrow> (Sent (status_of lib (no_route call)) (Failure (no_route call)), st)
     | Some (r, ps) \<Rightarrow>
         (case (if rt_guarded r
             then jwt_guard verify secret check (call_bearer call) (\<lambda>user. handler (rt_endpoint r) (Some user) ps body) st
             else handler (rt_endpoint r) None ps body st) of
            (Inl e, st') \<Rightarrow> (Sent (status_of lib e) (Failure e), st')
          | (Inr None, st') \<Rightarrow> (Beyond, st')
          | (Inr (Some b), st') \<Rightarrow> (Sent (if rt_verb r = POST then 201 else 200) b, st'))))"

section \<open>Reading a body\<close>

fun body_field :: "string \<Rightarrow> json \<Rightarrow> json option" where
  "body_field k (JObject fs) = map_of fs k"
| "body_field k _ = None"

definition body_string :: "string \<Rightarrow> json \<Rightarrow> string option" where
  "body_string k j = (case body_field k j of Some (JString s) \<Rightarrow> Some s | _ \<Rightarrow> None)"

definition body_number :: "string \<Rightarrow> json \<Rightarrow> js_number option" where
  "body_number k j = (case body_field k j of Some (JNumber x) \<Rightarrow> Some x | _ \<Rightarrow> None)"

text \<open>An optional string: missing, or there.\<close>

definition body_optional :: "string \<Rightarrow> json \<Rightarrow> string option option" where
  "body_optional k j = (case body_field k j of None \<Rightarrow> Some None | Some (JString s) \<Rightarrow> Some (Some s) | _ \<Rightarrow> None)"

definition read_credentials :: "json \<Rightarrow> Credentials option" where
  "read_credentials j = (case (body_string ''email'' j, body_string ''password'' j) of
     (Some e, Some p) \<Rightarrow> Some \<lparr>cred_email = e, cred_password = p\<rparr> | _ \<Rightarrow> None)"

definition read_dto_item :: "json \<Rightarrow> DtoItem option" where
  "read_dto_item j = (case (body_string ''productId'' j, body_number ''quantity'' j) of
     (Some p, Some q) \<Rightarrow> Some \<lparr>dto_item_productId = p, dto_item_quantity = q\<rparr> | _ \<Rightarrow> None)"

fun all_read :: "('a \<Rightarrow> 'b option) \<Rightarrow> 'a list \<Rightarrow> 'b list option" where
  "all_read f [] = Some []"
| "all_read f (x # xs) = (case (f x, all_read f xs) of (Some y, Some ys) \<Rightarrow> Some (y # ys) | _ \<Rightarrow> None)"

text \<open>\<open>items.map((item) => item.productId)\<close> throws when \<open>items\<close> is no array or an item is \<open>null\<close>.\<close>

definition read_order_dto :: "json \<Rightarrow> CreateOrderDto option result" where
  "read_order_dto j = (case body_field ''items'' j of
     Some (JArray items) \<Rightarrow>
       (if JNull \<in> set items then Inl (Error ''TypeError'')
        else Inr (case (body_string ''customerId'' j, all_read read_dto_item items) of
          (Some c, Some ds) \<Rightarrow> Some \<lparr>dto_customerId = c, dto_items = ds\<rparr> | _ \<Rightarrow> None))
   | _ \<Rightarrow> Inl (Error ''TypeError''))"

text \<open>The body of a product may have an \<open>id\<close>, which \<open>create(dto)\<close> copies like every other column.\<close>

record product_body =
  pb_id :: "string option"
  pb_dto :: CreateProductDto

definition read_product_body :: "json \<Rightarrow> product_body option" where
  "read_product_body j = (case (body_string ''productId'' j, body_string ''name'' j, body_number ''price'' j,
       body_optional ''description'' j, body_optional ''id'' j) of
     (Some p, Some n, Some x, Some d, Some i) \<Rightarrow>
       (if body_field ''createdAt'' j = None
        then Some \<lparr>pb_id = i, pb_dto = \<lparr>dto_productId = p, dto_name = n, dto_price = x, dto_description = d\<rparr>\<rparr> else None)
   | _ \<Rightarrow> None)"

section \<open>The handlers\<close>

definition order_handler :: "(string list \<Rightarrow> GetPricesResult result) \<Rightarrow> order_env \<Rightarrow> ('token, OrderDB) http_handler" where
  "order_handler fire oenv e user ps j db = (case e of
     GetHello \<Rightarrow> (Inr (Some (Greeting order_getHello)), db)
   | PlaceOrder \<Rightarrow> (case read_order_dto j of
       Inl x \<Rightarrow> (Inl x, db)
     | Inr None \<Rightarrow> (Inr None, db)
     | Inr (Some dto) \<Rightarrow> apfst (map_sum id (\<lambda>order. Some (OrderSent order))) (createOrder fire oenv dto db))
   | _ \<Rightarrow> (Inr None, db))"

text \<open>\<open>save\<close> of an entity with an id looks for the row: it updates the row's columns that the entity has, or
  inserts a row with that id.\<close>

definition overwrite_product :: "string \<Rightarrow> CreateProductDto \<Rightarrow> Product \<Rightarrow> Product" where
  "overwrite_product i dto row = row\<lparr>product_productId := dto_productId dto, product_name := dto_name dto,
     product_price := dto_price dto,
     product_description := (case dto_description dto of None \<Rightarrow> product_description row | Some d \<Rightarrow> Some d)\<rparr>"

definition save_with_id :: "(string \<Rightarrow> bool) \<Rightarrow> exn option \<Rightarrow> string \<Rightarrow> CreateProductDto \<Rightarrow> Product list \<Rightarrow>
    Product result \<times> Product list" where
  "save_with_id is_uuid fault i dto products =
     (if \<not> is_uuid i then (Inl (Error ''invalid input syntax for type uuid''), products)
      else case find_row product_id i products of
        None \<Rightarrow> save_product fault i dto products
      | Some row \<Rightarrow> (case attempt fault (case find_row product_productId (dto_productId dto) products of
            Some other \<Rightarrow> (if product_id other = i then Inr () else Inl (Error ''duplicate key value violates unique constraint''))
          | None \<Rightarrow> Inr ()) of
          Inl e \<Rightarrow> (Inl e, products)
        | Inr _ \<Rightarrow> (Inr (product_of_dto i dto), update_rows product_id i (overwrite_product i dto) products)))"

definition create_product :: "(string \<Rightarrow> bool) \<Rightarrow> exn option \<Rightarrow> exn option \<Rightarrow> string \<Rightarrow> product_body \<Rightarrow> Product list \<Rightarrow>
    Product result \<times> Product list" where
  "create_product is_uuid lookup save pk pb products = (case pb_id pb of
     None \<Rightarrow> create lookup save pk (pb_dto pb) products
   | Some i \<Rightarrow> (case check_unregistered lookup (pb_dto pb) products of
       Inl e \<Rightarrow> (Inl e, products)
     | Inr _ \<Rightarrow> save_with_id is_uuid save i (pb_dto pb) products))"

record catalog_env =
  cat_is_uuid :: "string \<Rightarrow> bool"
  cat_find_fault :: "exn option"
  cat_save_fault :: "exn option"
  cat_new_id :: string

definition catalog_handler :: "catalog_env \<Rightarrow> ('token, Product list) http_handler" where
  "catalog_handler cenv e user ps j products = (case e of
     GetHello \<Rightarrow> (Inr (Some (Greeting catalog_getHello)), products)
   | FindAllProducts \<Rightarrow> (map_sum id (\<lambda>found. Some (ProductsSent found)) (get_products (cat_find_fault cenv) products), products)
   | FindOneProduct \<Rightarrow> (case map_of ps ''id'' of
       None \<Rightarrow> (Inr None, products)
     | Some i \<Rightarrow> (map_sum id (\<lambda>p. Some (ProductSent p)) (get_product (cat_is_uuid cenv) (cat_find_fault cenv) i products), products))
   | CreateProduct \<Rightarrow> (case read_product_body j of
       None \<Rightarrow> (Inr None, products)
     | Some pb \<Rightarrow> apfst (map_sum id (\<lambda>p. Some (ProductSent p)))
         (create_product (cat_is_uuid cenv) (cat_find_fault cenv) (cat_save_fault cenv) (cat_new_id cenv) pb products))
   | _ \<Rightarrow> (Inr None, products))"

record 'token auth_env =
  bcrypt_hash :: "string \<Rightarrow> string"
  bcrypt_compare :: "string \<Rightarrow> string \<Rightarrow> bool"
  sign_token :: "string \<Rightarrow> JwtPayload \<Rightarrow> 'token"
  jwt_env :: "string option"
  auth_lookup_fault :: "exn option"
  auth_register_env :: register_env

definition auth_handler :: "'token auth_env \<Rightarrow> ('token, User list) http_handler" where
  "auth_handler aenv e user ps j users = (case e of
     GetHello \<Rightarrow> (Inr (Some (Greeting auth_getHello)), users)
   | RegisterUser \<Rightarrow> (case read_credentials j of
       None \<Rightarrow> (Inr None, users)
     | Some dto \<Rightarrow> apfst (map_sum id (\<lambda>p. Some (ProfileSent p None)))
         (post_register (bcrypt_hash aenv) (auth_register_env aenv) dto users))
   | LoginUser \<Rightarrow> (case read_credentials j of
       None \<Rightarrow> (Inr None, users)
     | Some dto \<Rightarrow> (map_sum id (\<lambda>t. Some (TokenSent t))
         (post_login (bcrypt_compare aenv) (sign_token aenv) (jwt_env aenv) (auth_lookup_fault aenv) dto users), users))
   | GetMe \<Rightarrow> (case user of
       None \<Rightarrow> (Inr None, users)
     | Some p \<Rightarrow> (map_sum id (\<lambda>(pr, created). Some (ProfileSent pr (Some created))) (me (auth_lookup_fault aenv) (vp_sub p) users), users))
   | _ \<Rightarrow> (Inr None, users))"

definition order_http :: "platform \<Rightarrow> (string \<Rightarrow> 'token \<Rightarrow> verified_payload option) \<Rightarrow> string option \<Rightarrow>
    (string list \<Rightarrow> GetPricesResult result) \<Rightarrow> order_env \<Rightarrow> 'token http_call \<Rightarrow> OrderDB \<Rightarrow> 'token answer \<times> OrderDB" where
  "order_http lib verify env fire oenv = serve lib verify (order_secretOrKey env) order_validate TheOrder (order_handler fire oenv)"

definition catalog_http :: "platform \<Rightarrow> (string \<Rightarrow> 'token \<Rightarrow> verified_payload option) \<Rightarrow> string option \<Rightarrow>
    catalog_env \<Rightarrow> 'token http_call \<Rightarrow> Product list \<Rightarrow> 'token answer \<times> Product list" where
  "catalog_http lib verify env cenv = serve lib verify (catalog_secretOrKey env) catalog_validate TheCatalog (catalog_handler cenv)"

definition auth_http :: "platform \<Rightarrow> (string \<Rightarrow> 'token \<Rightarrow> verified_payload option) \<Rightarrow>
    'token auth_env \<Rightarrow> 'token http_call \<Rightarrow> User list \<Rightarrow> 'token answer \<times> User list" where
  "auth_http lib verify aenv = serve lib verify (jwt_secret (jwt_env aenv)) (\<lambda>p. p) TheAuth (auth_handler aenv)"

end
