(* ===== verification/Http_Props.thy ===== *)
theory Http_Props
  imports Http_Api
begin

text \<open>
  What the HTTP requests of the services can do: tables change only with an answer 201, for orders and
  products only with a token that verifies; an order placed through the gateway is priced from the catalog
  and stored; and what the missing validation of bodies and owners lets a customer do.
\<close>

section \<open>Routes and handlers\<close>

lemma dispatch_member: "dispatch m rs v path = Some (r, ps) \<Longrightarrow> r \<in> set rs \<and> rt_verb r = v"
  by (induction rs) (auto split: if_splits option.splits)

lemma writing_routes:
  "r \<in> set (routes_of TheOrder) \<Longrightarrow> rt_endpoint r = PlaceOrder \<Longrightarrow> rt_guarded r \<and> rt_verb r = POST"
  "r \<in> set (routes_of TheCatalog) \<Longrightarrow> rt_endpoint r = CreateProduct \<Longrightarrow> rt_guarded r \<and> rt_verb r = POST"
  "r \<in> set (routes_of TheAuth) \<Longrightarrow> rt_endpoint r = RegisterUser \<Longrightarrow> rt_verb r = POST"
  by (auto simp: routes_of_services common_routes_def action_def)

text \<open>A request that changes the state has reached a handler, past the guard if there is one.\<close>

lemma serve_changed:
  assumes "serve lib verify secret check s handler call st = (ans, st')" and "st' \<noteq> st"
  obtains r ps j user res where "r \<in> set (routes_of s)" and "rt_verb r = call_verb call"
    and "handler (rt_endpoint r) user ps j st = (res, st')"
    and "ans = (case res of Inl e \<Rightarrow> Sent (status_of lib e) (Failure e) | Inr None \<Rightarrow> Beyond
      | Inr (Some b) \<Rightarrow> Sent (if rt_verb r = POST then 201 else 200) b)"
    and "rt_guarded r \<Longrightarrow> \<exists>token p. call_bearer call = Some token \<and> verify secret token = Some p"
proof -
  from assms obtain j r ps where d: "parse_body lib (call_text call) = Inr j"
      "dispatch (match_path lib) (routes_of s) (call_verb call) (call_path call) = Some (r, ps)"
    by (auto simp: serve_def split: sum.splits option.splits)
  define ran where "ran = (if rt_guarded r
      then jwt_guard verify secret check (call_bearer call) (\<lambda>user. handler (rt_endpoint r) (Some user) ps j) st
      else handler (rt_endpoint r) None ps j st)"
  have ran: "snd ran = st'" "ans = (case fst ran of Inl e \<Rightarrow> Sent (status_of lib e) (Failure e) | Inr None \<Rightarrow> Beyond
      | Inr (Some b) \<Rightarrow> Sent (if rt_verb r = POST then 201 else 200) b)"
    using assms(1) d by (auto simp: serve_def ran_def [symmetric] split: sum.splits option.splits prod.splits)
  have "\<exists>user. handler (rt_endpoint r) user ps j st = (fst ran, st') \<and>
      (rt_guarded r \<longrightarrow> (\<exists>token p. call_bearer call = Some token \<and> verify secret token = Some p))"
  proof (cases "rt_guarded r")
    case True
    with assms(2) ran(1) show ?thesis by (auto simp: ran_def jwt_guard_def split: option.splits)
  next
    case False
    with ran(1) show ?thesis by (auto simp: ran_def)
  qed
  then obtain user where user: "handler (rt_endpoint r) user ps j st = (fst ran, st')"
    "rt_guarded r \<Longrightarrow> \<exists>token p. call_bearer call = Some token \<and> verify secret token = Some p" by blast
  show ?thesis using that [OF _ _ user(1) ran(2) user(2)] dispatch_member [OF d(2)] by simp
qed

lemma createOrder_changed:
  assumes "createOrder fire env dto db = (r, db')" and "db' \<noteq> db"
  shows "\<exists>order. r = Inr order \<and> orders db' = orders db @ [order] \<and>
    outbox_events db' = outbox_events db @ [outbox_of (new_outbox_id env) order]"
proof -
  from assms obtain items order where r: "r = Inr order"
      and tx: "order_tx env (dto_customerId dto) items (order_sum items) db = Inr (order, db')"
    by (auto simp: createOrder_def split: sum.splits)
  from r order_tx_Inr(2,3) [OF tx] show ?thesis by simp
qed

lemma order_handler_changed:
  assumes "order_handler fire oenv e user ps j db = (res, db')" and "db' \<noteq> db"
  shows "e = PlaceOrder \<and> (\<exists>order. res = Inr (Some (OrderSent order)) \<and> orders db' = orders db @ [order] \<and>
    outbox_events db' = outbox_events db @ [outbox_of (new_outbox_id oenv) order])"
proof (cases e)
  case PlaceOrder
  with assms obtain dto where "read_order_dto j = Inr (Some dto)"
    by (auto simp: order_handler_def split: sum.splits option.splits)
  with assms PlaceOrder obtain r where "createOrder fire oenv dto db = (r, db')"
      and "res = map_sum id (\<lambda>order. Some (OrderSent order)) r"
    by (cases "createOrder fire oenv dto db") (simp add: order_handler_def)
  with createOrder_changed [OF this(1) assms(2)] PlaceOrder show ?thesis by auto
qed (use assms in \<open>simp_all add: order_handler_def\<close>)

lemma create_product_changed:
  assumes "create_product is_uuid lookup save pk pb products = (r, products')" and "products' \<noteq> products"
  shows "\<exists>i. r = Inr (product_of_dto i (pb_dto pb))"
  using assms
  by (auto simp: create_product_def create_def save_with_id_def save_product_def
      split: option.splits sum.splits if_splits)

lemma catalog_handler_changed:
  assumes "catalog_handler cenv e user ps j products = (res, products')" and "products' \<noteq> products"
  shows "e = CreateProduct \<and> (\<exists>product. res = Inr (Some (ProductSent product)))"
proof (cases e)
  case CreateProduct
  with assms obtain pb where "read_product_body j = Some pb"
    by (auto simp: catalog_handler_def split: option.splits)
  with assms CreateProduct obtain r where r: "create_product (cat_is_uuid cenv) (cat_find_fault cenv) (cat_save_fault cenv)
        (cat_new_id cenv) pb products = (r, products')"
      and "res = map_sum id (\<lambda>p. Some (ProductSent p)) r"
    by (auto simp: catalog_handler_def apfst_def map_prod_def split: prod.splits)
  with create_product_changed [OF r assms(2)] CreateProduct show ?thesis by auto
qed (use assms in \<open>simp_all add: catalog_handler_def split: option.splits\<close>)

lemma auth_handler_changed:
  assumes "auth_handler aenv e user ps j users = (res, users')" and "users' \<noteq> users"
  shows "e = RegisterUser \<and> (\<exists>profile u. res = Inr (Some (ProfileSent profile None)) \<and> users' = users @ [u] \<and>
    profile = profile_of u \<and> user_roles u = [''customer''])"
proof (cases e)
  case RegisterUser
  with assms obtain dto where "read_credentials j = Some dto"
    by (auto simp: auth_handler_def split: option.splits)
  with assms RegisterUser obtain r where r: "register (bcrypt_hash aenv) (auth_register_env aenv) dto users = (r, users')"
      and res: "res = map_sum id (\<lambda>p. Some (ProfileSent p None)) r"
    by (auto simp: auth_handler_def post_register_def apfst_def map_prod_def split: prod.splits)
  from r assms(2) obtain profile where "r = Inr profile"
    by (auto simp: register_def split: sum.splits option.splits)
  with register_Inr [of "bcrypt_hash aenv" "auth_register_env aenv" dto users profile users'] r res RegisterUser show ?thesis
    by (auto simp: new_user_def)
qed (use assms in \<open>simp_all add: auth_handler_def split: option.splits\<close>)

section \<open>Writing\<close>

lemma order_http_changed:
  assumes "order_http lib verify env fire oenv call db = (ans, db')" and "db' \<noteq> db"
  shows "\<exists>token p order. call_bearer call = Some token \<and> verify (order_secretOrKey env) token = Some p \<and>
    ans = Sent 201 (OrderSent order) \<and> orders db' = orders db @ [order] \<and>
    outbox_events db' = outbox_events db @ [outbox_of (new_outbox_id oenv) order]"
  using assms(1) unfolding order_http_def using assms(2)
  by (rule serve_changed) (use order_handler_changed assms(2) writing_routes(1) in \<open>fastforce\<close>)

lemma catalog_http_changed:
  assumes "catalog_http lib verify env cenv call products = (ans, products')" and "products' \<noteq> products"
  shows "\<exists>token p product. call_bearer call = Some token \<and> verify (catalog_secretOrKey env) token = Some p \<and>
    ans = Sent 201 (ProductSent product)"
  using assms(1) unfolding catalog_http_def using assms(2)
  by (rule serve_changed) (use catalog_handler_changed assms(2) writing_routes(2) in \<open>fastforce\<close>)

lemma auth_http_changed:
  assumes "auth_http lib verify aenv call users = (ans, users')" and "users' \<noteq> users"
  shows "\<exists>u. ans = Sent 201 (ProfileSent (profile_of u) None) \<and> users' = users @ [u] \<and> user_roles u = [''customer'']"
  using assms(1) unfolding auth_http_def using assms(2)
  by (rule serve_changed) (use auth_handler_changed assms(2) writing_routes(3) in \<open>fastforce\<close>)


section \<open>Placing an order\<close>

definition dto_json :: "CreateOrderDto \<Rightarrow> json" where
  "dto_json dto = JObject [(''customerId'', JString (dto_customerId dto)),
     (''items'', JArray (map (\<lambda>i. JObject [(''productId'', JString (dto_item_productId i)),
       (''quantity'', JNumber (dto_item_quantity i))]) (dto_items dto)))]"

definition order_call :: "'token option \<Rightarrow> json \<Rightarrow> 'token http_call" where
  "order_call bearer j = \<lparr>call_verb = POST, call_path = ''/orders'', call_bearer = bearer, call_text = JSON_stringify j\<rparr>"

definition dto_sendable :: "CreateOrderDto \<Rightarrow> bool" where
  "dto_sendable dto \<longleftrightarrow> (\<forall>i \<in> set (dto_items dto). json_ok (JNumber (dto_item_quantity i)))"

lemma read_dto_json: "read_order_dto (dto_json dto) = Inr (Some dto)"
proof -
  have "all_read read_dto_item (map (\<lambda>i. JObject [(''productId'', JString (dto_item_productId i)),
      (''quantity'', JNumber (dto_item_quantity i))]) items) = Some items" for items
    by (induction items) (simp_all add: read_dto_item_def body_string_def body_number_def)
  then show ?thesis
    by (auto simp: read_order_dto_def dto_json_def body_string_def)
qed

lemma dto_json_ok: "dto_sendable dto \<Longrightarrow> json_ok (dto_json dto)"
  by (auto simp: dto_json_def dto_sendable_def simp del: js_double.simps)

lemma dto_json_object: "\<exists>fs. dto_json dto = JObject fs"
  by (simp add: dto_json_def)

lemma order_route:
  assumes "router_law matches"
  shows "dispatch matches (routes_of TheOrder) POST ''/orders'' = Some (action POST [Fixed ''orders''] True PlaceOrder, [])"
proof -
  have "''/orders'' = path_text [''orders'']" by (simp add: path_text_def)
  moreover have "list_all plain_segment [''orders'']" by (simp add: plain_segment_def)
  ultimately have "dispatch matches (routes_of TheOrder) POST ''/orders'' =
      dispatch (\<lambda>t _. seg_match t [''orders'']) (routes_of TheOrder) POST []"
    by (simp only: dispatch_plain [OF assms])
  then show ?thesis by (simp add: routes_of_services common_routes_def action_def)
qed

lemma parsed_body:
  assumes "platform_law lib" and "json_ok (JObject fs)"
  shows "parse_body lib (JSON_stringify (JObject fs)) = Inr (JObject fs)"
proof -
  have "JSON_parse (JSON_stringify (JObject fs)) = Inr (JObject fs)" using assms(2) by (rule parse_stringify)
  moreover have "JSON_stringify (JObject fs) \<noteq> []" by simp
  ultimately show ?thesis using assms(1) unfolding platform_law_def by blast
qed

text \<open>With a token that verifies, the answer to an order is what \<open>createOrder\<close> makes of it.\<close>

lemma order_http_created:
  assumes "platform_law lib" and "verify (order_secretOrKey env) token = Some p" and "json_ok (JObject fs)"
    and "read_order_dto (JObject fs) = Inr (Some dto)"
  shows "order_http lib verify env fire oenv (order_call (Some token) (JObject fs)) db =
    (case createOrder fire oenv dto db of
       (Inl e, db') \<Rightarrow> (Sent (nest_status e) (Failure e), db')
     | (Inr order, db') \<Rightarrow> (Sent 201 (OrderSent order), db'))"
proof -
  have "dispatch (match_path lib) (routes_of TheOrder) POST ''/orders'' = Some (action POST [Fixed ''orders''] True PlaceOrder, [])"
    using assms(1) by (intro order_route) (simp add: platform_law_def)
  moreover have "status_of lib = nest_status" using assms(1) by (simp add: platform_law_def)
  ultimately show ?thesis
    using assms(2,4) parsed_body [OF assms(1,3)]
    by (cases "createOrder fire oenv dto db") (auto simp: order_http_def serve_def order_call_def jwt_guard_def order_handler_def
        action_def simp del: JSON_stringify.simps split: sum.splits)
qed

lemma priced_by_catalog:
  assumes "catalog_inv products"
  shows "priceItems (ask_catalog products) items =
    (let unknown = filter (\<lambda>pid. listed_price products pid = None) (map dto_item_productId items) in
     if unknown = []
     then Inr (map (\<lambda>d. \<lparr>oi_productId = dto_item_productId d, oi_quantity = dto_item_quantity d,
        oi_price = listed_price products (dto_item_productId d)\<rparr>) items)
     else Inl (BadRequestException (''Unknown product(s): '' @ join_comma unknown)))"
proof -
  have missing: "missing (catalog_answer None products ids) = filter (\<lambda>pid. listed_price products pid = None) ids" for ids
    by (simp add: catalog_answer_ok [OF assms])
  show ?thesis
  proof (cases "filter (\<lambda>pid. listed_price products pid = None) (map dto_item_productId items) = []")
    case True
    then obtain priced where priced: "priceItems (ask_catalog products) items = Inr priced"
      by (simp add: priceItems_def missing Let_def)
    from priceItems_catalog [OF this]
    have "priced = map (\<lambda>d. \<lparr>oi_productId = dto_item_productId d, oi_quantity = dto_item_quantity d,
        oi_price = listed_price products (dto_item_productId d)\<rparr>) items"
      unfolding indexed_price_listed [OF assms] by (induction rule: list_all2_induct) simp_all
    with priced True show ?thesis by (simp add: Let_def)
  next
    case False
    then show ?thesis by (simp add: priceItems_def missing Let_def)
  qed
qed

text \<open>The order a request makes, and the request's products the catalog does not know.\<close>

definition order_for :: "order_env \<Rightarrow> Product list \<Rightarrow> CreateOrderDto \<Rightarrow> Order" where
  "order_for oenv products dto = (let items = map (\<lambda>d. \<lparr>oi_productId = dto_item_productId d,
       oi_quantity = dto_item_quantity d, oi_price = listed_price products (dto_item_productId d)\<rparr>) (dto_items dto) in
     \<lparr>order_id = new_order_id oenv, order_customerId = dto_customerId dto, order_items = items,
      order_total = order_sum items, order_status = PENDING, order_createdAt = now_iso oenv\<rparr>)"

definition unknown_products :: "Product list \<Rightarrow> CreateOrderDto \<Rightarrow> string list" where
  "unknown_products products dto = filter (\<lambda>pid. listed_price products pid = None) (map dto_item_productId (dto_items dto))"

definition database_well :: "order_env \<Rightarrow> OrderDB \<Rightarrow> bool" where
  "database_well oenv db \<longleftrightarrow> order_fault oenv = None \<and> outbox_fault oenv = None \<and> commit_fault oenv = None \<and>
     new_order_id oenv \<notin> order_id ` set (orders db) \<and> new_outbox_id oenv \<notin> outbox_id ` set (outbox_events db)"

lemma order_created_as_asked:
  assumes "catalog_inv products" and "database_well oenv db"
  shows "createOrder (ask_catalog products) oenv dto db =
    (if unknown_products products dto = []
     then (Inr (order_for oenv products dto), \<lparr>orders = orders db @ [order_for oenv products dto],
        outbox_events = outbox_events db @ [outbox_of (new_outbox_id oenv) (order_for oenv products dto)]\<rparr>)
     else (Inl (BadRequestException (''Unknown product(s): '' @ join_comma (unknown_products products dto))), db))"
  using assms(2)
  by (simp add: createOrder_def priced_by_catalog [OF assms(1)] unknown_products_def order_tx_def Let_def
      database_well_def insert_row_fresh order_for_def)

text \<open>C15: From the text of a request to the rows: the gateway hands \<open>POST /orders\<close> to the order service, and with a
  token that verifies and nothing failing, the answer is \<open>201\<close> with an order of the products and
  quantities in the text, at the prices of the catalog, which is stored with its event; or \<open>400\<close> with the
  products the catalog does not know, and nothing is stored.\<close>
theorem order_through_the_gateway:
  assumes "platform_law lib" and "deployed listening genv"
    and "verify (order_secretOrKey env) token = Some p" and "dto_sendable dto"
    and "catalog_inv products" and "database_well oenv db"
  shows "map_option (\<lambda>(s, r, _). (s, rt_endpoint r)) (at_gateway (match_path lib) listening genv POST ''/orders'') = Some (TheOrder, PlaceOrder) \<and>
    order_http lib verify env (ask_catalog products) oenv (order_call (Some token) (dto_json dto)) db =
    (if unknown_products products dto = []
     then (Sent 201 (OrderSent (order_for oenv products dto)), \<lparr>orders = orders db @ [order_for oenv products dto],
        outbox_events = outbox_events db @ [outbox_of (new_outbox_id oenv) (order_for oenv products dto)]\<rparr>)
     else (Sent 400 (Failure (BadRequestException (''Unknown product(s): '' @ join_comma (unknown_products products dto)))), db))"
proof
  have "dispatch (match_path lib) (routes_of TheOrder) POST ''/orders'' = Some (action POST [Fixed ''orders''] True PlaceOrder, [])"
    using assms(1) by (intro order_route) (simp add: platform_law_def)
  moreover have "forward (setupProxies genv) ''/orders'' = Some (target (setupProxies genv ! Suc 0), ''/orders'')"
    by (simp add: setupProxies_def rewritten_def)
  ultimately show "map_option (\<lambda>(s, r, _). (s, rt_endpoint r)) (at_gateway (match_path lib) listening genv POST ''/orders'') = Some (TheOrder, PlaceOrder)"
    by (simp add: at_gateway_def deployed_at [OF assms(2)] action_def)
  show "order_http lib verify env (ask_catalog products) oenv (order_call (Some token) (dto_json dto)) db =
    (if unknown_products products dto = []
     then (Sent 201 (OrderSent (order_for oenv products dto)), \<lparr>orders = orders db @ [order_for oenv products dto],
        outbox_events = outbox_events db @ [outbox_of (new_outbox_id oenv) (order_for oenv products dto)]\<rparr>)
     else (Sent 400 (Failure (BadRequestException (''Unknown product(s): '' @ join_comma (unknown_products products dto)))), db))"
  proof -
    obtain fs where fs: "dto_json dto = JObject fs" using dto_json_object by blast
    have "json_ok (JObject fs)" "read_order_dto (JObject fs) = Inr (Some dto)"
      using dto_json_ok [OF assms(4)] read_dto_json [of dto] by (simp_all only: fs)
    from order_http_created [where fire = "ask_catalog products" and verify = verify and env = env and token = token
        and p = p, OF assms(1,3) this]
    show ?thesis unfolding fs by (simp add: order_created_as_asked [OF assms(5,6)])
  qed
qed

text \<open>A framework that keeps the law.\<close>

definition plain_platform :: platform where
  "plain_platform = \<lparr>match_path = segment_router,
     parse_body = (\<lambda>t. if t = [] then Inr (JObject []) else map_sum (\<lambda>_. BadRequestException ''Unexpected token'') id (JSON_parse t)),
     status_of = nest_status\<rparr>"

lemma plain_platform_law: "platform_law plain_platform"
  by (simp add: platform_law_def plain_platform_def segment_router_law)

lemma tea_sendable: "dto_sendable (tea_order 2)"
  using js_int_double [of 2] by (simp add: dto_sendable_def tea_order_def js_int_def del: js_double.simps)

theorem order_through_the_gateway_witness:
  "fst (order_http plain_platform open_seen None (ask_catalog [a_product ''cup'' 7]) (an_env ''o1'')
     (order_call (Some (''dev-secret-change-me'', a_payload)) (dto_json (tea_order 2))) no_orders) =
   Sent 400 (Failure (BadRequestException ''Unknown product(s): tea''))"
proof -
  have "open_seen (order_secretOrKey None) (''dev-secret-change-me'', a_payload) = Some (seen_payload a_payload)"
    by (simp add: open_seen_def order_secretOrKey_def config_string_def)
  note verified = this
  have inv: "catalog_inv [a_product ''cup'' 7]" by (simp add: catalog_inv_def)
  have well: "database_well (an_env ''o1'') no_orders" by (simp add: database_well_def an_env_def no_orders_def)
  have "unknown_products [a_product ''cup'' 7] (tea_order 2) = [''tea'']"
    by (simp add: unknown_products_def tea_order_def listed_price_def a_product_def)
  with order_through_the_gateway [where verify = open_seen and env = None and token = "(''dev-secret-change-me'', a_payload)"
      and p = "seen_payload a_payload", OF plain_platform_law local_services_deployed verified tea_sendable inv well]
  show ?thesis by simp
qed

end
