(* ===== verification/Http_Ownership.thy ===== *)
theory Http_Ownership
  imports Http_Props
begin

text \<open>
  What a logged-in customer can do that is not theirs to do: the services look at a token only to see
  that it verifies, and hand the body of a request to \<open>create\<close> as it is.
\<close>

section \<open>Nobody asks who the caller is\<close>

lemma serve_ignores_the_caller:
  assumes "verify secret token = Some p" and "verify secret token' = Some p'"
  shows "serve lib verify secret check s (\<lambda>e user. h e) (call\<lparr>call_bearer := Some token\<rparr>) st =
    serve lib verify secret check s (\<lambda>e user. h e) (call\<lparr>call_bearer := Some token'\<rparr>) st"
proof -
  have "serve lib verify secret check s (\<lambda>e user. h e) (call\<lparr>call_bearer := Some t\<rparr>) st =
      serve lib (\<lambda>_ _. Some p) secret check s (\<lambda>e user. h e) call' st"
    if "verify secret t = Some q" and "call' = call\<lparr>call_bearer := Some token\<rparr>" for t q call'
    using that by (auto simp: serve_def jwt_guard_def no_route_def split: sum.split option.split)
  from this [OF assms(1) refl] this [OF assms(2) refl] show ?thesis by simp
qed

text \<open>The answer to a request does not depend on whose token it carries: with two tokens that verify, of
  two customers say, the order service answers and stores the same, and so does the catalog. The customer of
  an order is the one the body names, so a customer can order in the name of another.\<close>
theorem services_ignore_the_caller:
  fixes token token' :: 'token
  assumes "verify (order_secretOrKey env) token = Some p" and "verify (order_secretOrKey env) token' = Some p'"
  shows "order_http lib verify env fire oenv (call\<lparr>call_bearer := Some token\<rparr>) db =
      order_http lib verify env fire oenv (call\<lparr>call_bearer := Some token'\<rparr>) db \<and>
    catalog_http lib verify env cenv (call\<lparr>call_bearer := Some token\<rparr>) products =
      catalog_http lib verify env cenv (call\<lparr>call_bearer := Some token'\<rparr>) products"
proof -
  define h where "h e = (order_handler fire oenv :: ('token, OrderDB) http_handler) e None" for e
  define g where "g e = (catalog_handler cenv :: ('token, Product list) http_handler) e None" for e
  have handlers: "order_handler fire oenv = (\<lambda>e user. h e)" "catalog_handler cenv = (\<lambda>e user. g e)"
    by (simp_all add: fun_eq_iff order_handler_def catalog_handler_def h_def g_def)
  have secret: "catalog_secretOrKey env = order_secretOrKey env"
    by (simp add: catalog_secretOrKey_def order_secretOrKey_def)
  show ?thesis
    unfolding order_http_def catalog_http_def handlers secret
    by (intro conjI; rule serve_ignores_the_caller; fact)
qed

section \<open>Anybody sets any price\<close>

text \<open>A row found by its key is replaced; the others keep their keys.\<close>

lemma find_after_overwrite:
  assumes "distinct (map product_productId rows)" and "distinct (map product_id rows)" and "row \<in> set rows"
    and "product_productId (f row) \<notin> product_productId ` set rows - {product_productId row}"
  shows "find_row product_productId k (update_rows product_id (product_id row) f rows) =
    (if k = product_productId (f row) then Some (f row)
     else if k = product_productId row then None else find_row product_productId k rows)"
  using assms
proof (induction rows)
  case (Cons r rows)
  show ?case
  proof (cases "r = row")
    case True
    then have "update_rows product_id (product_id row) f rows = rows"
      using Cons.prems(2) by (intro update_rows_absent) auto
    moreover have "find_row product_productId (product_productId row) rows = None"
      using True Cons.prems(1) by (auto simp: find_row_None_iff)
    ultimately show ?thesis using True by (auto simp: update_rows_def)
  next
    case False
    then have row: "row \<in> set rows" and ids: "product_id r \<noteq> product_id row" and keys: "product_productId r \<noteq> product_productId row"
      using Cons.prems(1-3) by auto
    have new: "product_productId (f row) \<noteq> product_productId r" using keys Cons.prems(4) by auto
    have "find_row product_productId k (update_rows product_id (product_id row) f rows) =
      (if k = product_productId (f row) then Some (f row)
       else if k = product_productId row then None else find_row product_productId k rows)"
      by (rule Cons.IH) (use Cons.prems row in auto)
    then show ?thesis using ids keys new by (auto simp: update_rows_def split: if_splits)
  qed
qed simp

definition product_json :: "string \<Rightarrow> string \<Rightarrow> js_number \<Rightarrow> json" where
  "product_json i pid x = JObject [(''id'', JString i), (''productId'', JString pid), (''name'', JString pid), (''price'', JNumber x)]"

definition product_call :: "'token option \<Rightarrow> json \<Rightarrow> 'token http_call" where
  "product_call bearer j = \<lparr>call_verb = POST, call_path = ''/products'', call_bearer = bearer, call_text = JSON_stringify j\<rparr>"

definition priced_dto :: "string \<Rightarrow> js_number \<Rightarrow> CreateProductDto" where
  "priced_dto pid x = \<lparr>dto_productId = pid, dto_name = pid, dto_price = x, dto_description = None\<rparr>"

lemma product_route:
  assumes "router_law matches"
  shows "dispatch matches (routes_of TheCatalog) POST ''/products'' = Some (action POST [Fixed ''products''] True CreateProduct, [])"
proof -
  have "''/products'' = path_text [''products'']" by (simp add: path_text_def)
  moreover have "list_all plain_segment [''products'']" by (simp add: plain_segment_def)
  ultimately have "dispatch matches (routes_of TheCatalog) POST ''/products'' =
      dispatch (\<lambda>t _. seg_match t [''products'']) (routes_of TheCatalog) POST []"
    by (simp only: dispatch_plain [OF assms])
  then show ?thesis by (simp add: routes_of_services common_routes_def action_def)
qed

lemma catalog_http_created:
  assumes "platform_law lib" and "verify (catalog_secretOrKey env) token = Some p" and "json_ok (JObject fs)"
    and "read_product_body (JObject fs) = Some pb"
    and "create_product (cat_is_uuid cenv) (cat_find_fault cenv) (cat_save_fault cenv) (cat_new_id cenv) pb products = (Inr product, products')"
  shows "catalog_http lib verify env cenv (product_call (Some token) (JObject fs)) products = (Sent 201 (ProductSent product), products')"
proof -
  have "dispatch (match_path lib) (routes_of TheCatalog) POST ''/products'' =
      Some (action POST [Fixed ''products''] True CreateProduct, [])"
    using assms(1) by (intro product_route) (simp add: platform_law_def)
  then show ?thesis
    using assms(2,4,5) parsed_body [OF assms(1,3)]
    by (simp add: catalog_http_def serve_def product_call_def jwt_guard_def catalog_handler_def action_def del: JSON_stringify.simps)
qed

lemma product_json_body:
  "json_ok (JNumber x) \<Longrightarrow> \<exists>fs. product_json i pid x = JObject fs \<and> json_ok (JObject fs) \<and>
    read_product_body (JObject fs) = Some \<lparr>pb_id = Some i, pb_dto = priced_dto pid x\<rparr>"
  by (simp add: read_product_body_def product_json_def body_string_def body_number_def body_optional_def priced_dto_def
      del: js_double.simps)

lemma product_http_created:
  assumes "platform_law lib" and "verify (catalog_secretOrKey env) token = Some p" and "json_ok (JNumber x)"
    and "create_product (cat_is_uuid cenv) (cat_find_fault cenv) (cat_save_fault cenv) (cat_new_id cenv)
      \<lparr>pb_id = Some i, pb_dto = priced_dto pid x\<rparr> products = (Inr product, products')"
  shows "catalog_http lib verify env cenv (product_call (Some token) (product_json i pid x)) products =
    (Sent 201 (ProductSent product), products')"
proof -
  obtain fs where fs: "product_json i pid x = JObject fs" "json_ok (JObject fs)"
      "read_product_body (JObject fs) = Some \<lparr>pb_id = Some i, pb_dto = priced_dto pid x\<rparr>"
    using product_json_body [OF assms(3)] by blast
  show ?thesis
    unfolding fs(1) by (rule catalog_http_created [where verify = verify, OF assms(1,2) fs(2,3) assms(4)])
qed

lemma overwrite_keeps_id [simp]: "product_id (overwrite_product i dto row) = product_id row"
  by (simp add: overwrite_product_def)

lemma product_overwritten:
  assumes "find_row product_id i products = Some row" and "is_uuid i"
    and "find_row product_productId (dto_productId dto) products = None"
  shows "create_product is_uuid None None pk \<lparr>pb_id = Some i, pb_dto = dto\<rparr> products =
    (Inr (product_of_dto i dto), update_rows product_id i (overwrite_product i dto) products)"
  using assms by (simp add: create_product_def check_unregistered_def save_with_id_def)

text \<open>C16: Any customer sets the price of any product. The catalog keeps the \<open>id\<close> of a body, and \<open>save\<close> of
  an entity with the id of a row updates that row; the check in between is for the \<open>productId\<close> only. So with any
  token that verifies, two requests with the id of a product, which \<open>GET /products\<close> shows to everybody, rename
  it and name it back, and it has the price they say; the other products keep theirs.\<close>
theorem any_customer_sets_any_price:
  assumes "platform_law lib" and "verify (catalog_secretOrKey env) token = Some p" and "json_ok (JNumber x)"
    and "catalog_inv products" and "distinct (map product_id products)" and "row \<in> set products"
    and "cat_is_uuid cenv (product_id row)" and "cat_find_fault cenv = None" and "cat_save_fault cenv = None"
    and "listed_price products tmp = None"
  shows "\<exists>products1 products2 a b.
    catalog_http lib verify env cenv (product_call (Some token) (product_json (product_id row) tmp x)) products = (Sent 201 a, products1) \<and>
    catalog_http lib verify env cenv (product_call (Some token) (product_json (product_id row) (product_productId row) x)) products1 = (Sent 201 b, products2) \<and>
    listed_price products2 (product_productId row) = Some x \<and>
    (\<forall>q. q \<noteq> product_productId row \<longrightarrow> listed_price products2 q = listed_price products q)"
proof -
  let ?i = "product_id row" and ?pid = "product_productId row"
  note created = product_http_created [where verify = verify and env = env and token = token and p = p and x = x, OF assms(1,2,3)]
  define f where "f = overwrite_product ?i (priced_dto tmp x)"
  define g where "g = overwrite_product ?i (priced_dto ?pid x)"
  define products1 where "products1 = update_rows product_id ?i f products"
  define products2 where "products2 = update_rows product_id ?i g products1"
  have keys: "distinct (map product_productId products)" using assms(4) by (simp add: catalog_inv_def)
  have row: "find_row product_id ?i products = Some row" using find_row_member [OF assms(5,6)] .
  have tmp: "find_row product_productId tmp products = None" using assms(10) by (simp add: listed_price_def)
  then have "tmp \<noteq> ?pid" using find_row_member [OF keys assms(6)] by auto
  have first: "catalog_http lib verify env cenv (product_call (Some token) (product_json ?i tmp x)) products =
      (Sent 201 (ProductSent (product_of_dto ?i (priced_dto tmp x))), products1)"
    unfolding products1_def f_def
    by (rule created) (use product_overwritten [where is_uuid = "cat_is_uuid cenv", OF row assms(7)] tmp assms(8,9) in \<open>simp add: priced_dto_def\<close>)
  have "find_row product_productId ?pid products1 = None"
    using find_after_overwrite [OF keys assms(5,6), of f ?pid] tmp \<open>tmp \<noteq> ?pid\<close>
    by (auto simp: products1_def f_def overwrite_product_def priced_dto_def find_row_None_iff)
  moreover have "find_row product_id ?i products1 = Some (f row)"
    using row by (simp add: products1_def find_row_update f_def)
  ultimately have second: "catalog_http lib verify env cenv (product_call (Some token) (product_json ?i ?pid x)) products1 =
      (Sent 201 (ProductSent (product_of_dto ?i (priced_dto ?pid x))), products2)"
    unfolding products2_def g_def
    by (intro created) (use product_overwritten [where is_uuid = "cat_is_uuid cenv", OF _ assms(7)] assms(8,9) in \<open>simp add: priced_dto_def\<close>)
  have "products2 = update_rows product_id ?i (g \<circ> f) products"
    unfolding products2_def products1_def by (rule update_rows_twice) (simp add: f_def)
  then have "find_row product_productId q products2 =
      (if q = ?pid then Some (g (f row)) else find_row product_productId q products)" for q
    using find_after_overwrite [OF keys assms(5,6), of "g \<circ> f" q]
    by (auto simp: g_def f_def overwrite_product_def priced_dto_def)
  moreover have "product_price (g (f row)) = x" by (simp add: g_def overwrite_product_def priced_dto_def)
  ultimately show ?thesis using first second by (auto simp: listed_price_def)
qed

theorem any_customer_sets_any_price_witness:
  "\<exists>products1 products2 a b.
    catalog_http plain_platform open_seen None \<lparr>cat_is_uuid = (\<lambda>_. True), cat_find_fault = None, cat_save_fault = None, cat_new_id = ''k''\<rparr>
      (product_call (Some (''dev-secret-change-me'', a_payload)) (product_json ''uuid-tea'' ''x'' (js_int 0))) [a_product ''tea'' 3] = (Sent 201 a, products1) \<and>
    catalog_http plain_platform open_seen None \<lparr>cat_is_uuid = (\<lambda>_. True), cat_find_fault = None, cat_save_fault = None, cat_new_id = ''k''\<rparr>
      (product_call (Some (''dev-secret-change-me'', a_payload)) (product_json ''uuid-tea'' ''tea'' (js_int 0))) products1 = (Sent 201 b, products2) \<and>
    listed_price products2 ''tea'' = Some (js_int 0)"
proof -
  have "open_seen (catalog_secretOrKey None) (''dev-secret-change-me'', a_payload) = Some (seen_payload a_payload)"
    by (simp add: open_seen_def catalog_secretOrKey_def config_string_def)
  moreover have "json_ok (JNumber (js_int 0))"
    using js_int_double [of 0] by (simp add: js_int_def del: js_double.simps)
  moreover have "catalog_inv [a_product ''tea'' 3]" "distinct (map product_id [a_product ''tea'' 3])"
    "a_product ''tea'' 3 \<in> set [a_product ''tea'' 3]" "listed_price [a_product ''tea'' 3] ''x'' = None"
    by (simp_all add: catalog_inv_def listed_price_def a_product_def)
  moreover have "product_id (a_product ''tea'' 3) = ''uuid-tea''" "product_productId (a_product ''tea'' 3) = ''tea''"
    by (simp_all add: a_product_def)
  ultimately show ?thesis
    using any_customer_sets_any_price [where verify = open_seen and env = None and token = "(''dev-secret-change-me'', a_payload)"
        and p = "seen_payload a_payload" and x = "js_int 0" and products = "[a_product ''tea'' 3]" and row = "a_product ''tea'' 3" and tmp = "''x''"
        and cenv = "\<lparr>cat_is_uuid = (\<lambda>_. True), cat_find_fault = None, cat_save_fault = None, cat_new_id = ''k''\<rparr>", OF plain_platform_law]
    by (simp del: json_ok.simps) blast
qed

end
