(* ===== verification/Topology.thy ===== *)
theory Topology
  imports Payment
begin

text \<open>
  Who is bound to what: the consumers' decorators with their exchange, routing key and queue, the
  exchanges and queues the \<open>rabbitmq.module.ts\<close> of each service declares from its environment, and
  the exchange and key each service publishes with. The keys hold no wildcards, so a topic exchange
  routes by equality.
\<close>

section \<open>Consumers\<close>

record consumer =
  consumer_queue :: string
  consumer_exchange :: string
  consumer_key :: string
  dead_letter :: "(string \<times> string) option"

definition inventory_reserve_consumer :: consumer where
  "inventory_reserve_consumer = \<lparr>consumer_queue = ''inventory.reserve-queue'', consumer_exchange = ''ecommerce.events'',
     consumer_key = ''inventory.reserve'', dead_letter = Some (''ecommerce.events.dlq'', ''inventory.requests'')\<rparr>"

definition inventory_confirm_consumer :: consumer where
  "inventory_confirm_consumer = \<lparr>consumer_queue = ''inventory.confirm-queue'', consumer_exchange = ''ecommerce.events'',
     consumer_key = ''inventory.confirm'', dead_letter = Some (''ecommerce.events.dlq'', ''inventory.requests'')\<rparr>"

definition inventory_release_consumer :: consumer where
  "inventory_release_consumer = \<lparr>consumer_queue = ''inventory.release-queue'', consumer_exchange = ''ecommerce.events'',
     consumer_key = ''inventory.release'', dead_letter = Some (''ecommerce.events.dlq'', ''inventory.requests'')\<rparr>"

definition inventory_consumers :: "consumer list" where
  "inventory_consumers = [inventory_reserve_consumer, inventory_confirm_consumer, inventory_release_consumer]"

definition catalog_consumers :: "consumer list" where
  "catalog_consumers = [\<lparr>consumer_queue = ''catalog.get-prices-queue'', consumer_exchange = ''ecommerce.events'',
     consumer_key = ''catalog.get-prices'', dead_letter = Some (''ecommerce.events.dlq'', ''catalog.requests'')\<rparr>]"

definition saga_order_created_consumer :: consumer where
  "saga_order_created_consumer = \<lparr>consumer_queue = ''saga.order-created-queue'', consumer_exchange = EXCHANGE,
     consumer_key = ''order.created'', dead_letter = None\<rparr>"

definition saga_payment_succeeded_consumer :: consumer where
  "saga_payment_succeeded_consumer = \<lparr>consumer_queue = ''saga.payment-succeeded-queue'', consumer_exchange = EXCHANGE,
     consumer_key = ''payment.succeeded'', dead_letter = None\<rparr>"

definition saga_payment_failed_consumer :: consumer where
  "saga_payment_failed_consumer = \<lparr>consumer_queue = ''saga.payment-failed-queue'', consumer_exchange = EXCHANGE,
     consumer_key = ''payment.failed'', dead_letter = None\<rparr>"

definition saga_consumers :: "consumer list" where
  "saga_consumers = [saga_order_created_consumer, saga_payment_succeeded_consumer, saga_payment_failed_consumer]"

definition payment_consumers :: "consumer list" where
  "payment_consumers = [\<lparr>consumer_queue = ''payment.requested-queue'', consumer_exchange = ''ecommerce.events'',
     consumer_key = ''payment.requested'', dead_letter = None\<rparr>]"

definition notification_consumers :: "consumer list" where
  "notification_consumers = [\<lparr>consumer_queue = ''notification.order-status-changed-queue'', consumer_exchange = EXCHANGE,
     consumer_key = ''order.status-changed'', dead_letter = None\<rparr>]"

section \<open>Declared exchanges and queues\<close>

text \<open>The topic exchanges each module asserts.\<close>

definition order_exchanges :: "string option \<Rightarrow> string list" where
  "order_exchanges env = [config_string env ''ecommerce.events'']"

definition notification_exchanges :: "string option \<Rightarrow> string list" where
  "notification_exchanges env = [config_string env ''ecommerce.events'']"

definition payment_exchanges :: "string option \<Rightarrow> string list" where
  "payment_exchanges env = [payment_exchange env, retryExchange env, dlqExchange env]"

definition inventory_exchanges :: "string option \<Rightarrow> string list" where
  "inventory_exchanges env = (let exchange = config_string env ''ecommerce.events'' in [exchange, exchange @ ''.dlq''])"

definition catalog_exchanges :: "string option \<Rightarrow> string list" where
  "catalog_exchanges env = (let exchange = config_string env ''ecommerce.events'' in [exchange, exchange @ ''.dlq''])"

definition declared_exchanges :: "string option \<Rightarrow> string list" where
  "declared_exchanges env = order_exchanges env @ notification_exchanges env @ payment_exchanges env @
     inventory_exchanges env @ catalog_exchanges env"

definition inventory_queues :: "string option \<Rightarrow> queue list" where
  "inventory_queues env = (let exchange = config_string env ''ecommerce.events''; dlqExchange = exchange @ ''.dlq'' in
     [\<lparr>queue_name = ''inventory.requests-queue.dlq'', bound_exchange = dlqExchange, bound_key = ''inventory.requests'',
       message_ttl = None, dead_letter_to = None\<rparr>])"

definition catalog_queues :: "string option \<Rightarrow> queue list" where
  "catalog_queues env = (let exchange = config_string env ''ecommerce.events''; dlqExchange = exchange @ ''.dlq'' in
     [\<lparr>queue_name = ''catalog.requests-queue.dlq'', bound_exchange = dlqExchange, bound_key = ''catalog.requests'',
       message_ttl = None, dead_letter_to = None\<rparr>])"

text \<open>All bindings of the system, every service with the same environment: exchange, key, queue.\<close>

definition bindings :: "string option \<Rightarrow> (string \<times> string \<times> string) list" where
  "bindings env =
     map (\<lambda>c. (consumer_exchange c, consumer_key c, consumer_queue c))
       (inventory_consumers @ catalog_consumers @ saga_consumers @ payment_consumers @ notification_consumers) @
     map (\<lambda>q. (bound_exchange q, bound_key q, queue_name q))
       (payment_queues env @ inventory_queues env @ catalog_queues env)"

definition queues_for :: "string option \<Rightarrow> string \<times> string \<Rightarrow> string list" where
  "queues_for env dest = map (\<lambda>(x, k, q). q) (filter (\<lambda>(x, k, q). x = fst dest \<and> k = snd dest) (bindings env))"

section \<open>What is published where\<close>

text \<open>The destinations the services publish or send requests to, and those the broker dead-letters to.\<close>

definition destinations :: "string option \<Rightarrow> (string \<times> string) list" where
  "destinations env =
     [(config_string env ''ecommerce.events'', ''order.created''),
      (EXCHANGE, ''catalog.get-prices''), (EXCHANGE, ''inventory.reserve''), (EXCHANGE, ''inventory.confirm''),
      (EXCHANGE, ''inventory.release''), (EXCHANGE, ''payment.requested''), (EXCHANGE, ''order.status-changed''),
      (payment_exchange env, ''payment.succeeded''), (payment_exchange env, ''payment.failed''),
      (dlqExchange env, ''payment.requested''), (retryExchange env, retry_key 0),
      (retryExchange env, retry_key 1), (retryExchange env, retry_key 2)] @
     map (\<lambda>c. the (dead_letter c)) (filter (\<lambda>c. dead_letter c \<noteq> None)
       (inventory_consumers @ catalog_consumers @ saga_consumers @ payment_consumers @ notification_consumers)) @
     map (\<lambda>q. the (dead_letter_to q)) (filter (\<lambda>q. dead_letter_to q \<noteq> None) (payment_queues env))"

lemmas topology_defs = declared_exchanges_def order_exchanges_def notification_exchanges_def payment_exchanges_def
  inventory_exchanges_def catalog_exchanges_def inventory_reserve_consumer_def inventory_confirm_consumer_def
  inventory_release_consumer_def saga_order_created_consumer_def saga_payment_succeeded_consumer_def
  saga_payment_failed_consumer_def destinations_def queues_for_def bindings_def inventory_consumers_def catalog_consumers_def
  saga_consumers_def payment_consumers_def notification_consumers_def inventory_queues_def catalog_queues_def
  payment_queues_def payment_exchange_def retryExchange_def dlqExchange_def config_string_def EXCHANGE_def Let_def

lemma retry_keys:
  "retry_key 0 = ''payment.requested.retry-1''" "retry_key (Suc 0) = ''payment.requested.retry-2''"
  "retry_key 2 = ''payment.requested.retry-3''"
  by (simp_all add: retry_key_def string_of_nat.simps)



end
