(* ===== verification/Schema.thy ===== *)
theory Schema
  imports Prelude
begin

text \<open>
  The database schemas: the \<open>up\<close> and \<open>down\<close> statements of each service's migration
  (\<open>*/src/migrations/*-InitialSchema.ts\<close>), run as statements on a catalog of types and tables, and the
  tables TypeORM derives from the decorators of the entity classes. \<open>synchronize\<close> is off, so the
  services depend on the two agreeing.
\<close>

section \<open>Catalog and statements\<close>

datatype column_type = Uuid | Varchar | TextArray | Double | Integer | Jsonb | Timestamp | Enum string

record column =
  column_name :: string
  column_type :: column_type
  not_null :: bool
  column_default :: "string option"

record table =
  table_name :: string
  columns :: "column list"
  unique_columns :: "string list"
  primary_key :: string

record db_catalog =
  extensions :: "string list"
  enum_types :: "(string \<times> string list) list"
  tables :: "table list"

datatype ddl =
    CreateExtension string
  | CreateType string "string list"
  | CreateTable table
  | DropTable string
  | DropType string

definition types_used :: "table \<Rightarrow> string list" where
  "types_used t = concat (map (\<lambda>c. case column_type c of Enum n \<Rightarrow> [n] | _ \<Rightarrow> []) (columns t))"

text \<open>A statement fails when what it creates exists, what it names does not, or what it drops is in use.\<close>

fun exec :: "ddl \<Rightarrow> db_catalog \<Rightarrow> db_catalog result" where
  "exec (CreateExtension x) db = Inr (if x \<in> set (extensions db) then db else db\<lparr>extensions := x # extensions db\<rparr>)"
| "exec (CreateType n vs) db =
     (if n \<in> set (map fst (enum_types db)) then Inl (Error ''type already exists'')
      else Inr (db\<lparr>enum_types := enum_types db @ [(n, vs)]\<rparr>))"
| "exec (CreateTable t) db =
     (if table_name t \<in> set (map table_name (tables db)) then Inl (Error ''relation already exists'')
      else if \<not> list_all (\<lambda>n. n \<in> set (map fst (enum_types db))) (types_used t) then Inl (Error ''type does not exist'')
      else Inr (db\<lparr>tables := tables db @ [t]\<rparr>))"
| "exec (DropTable n) db =
     (if n \<notin> set (map table_name (tables db)) then Inl (Error ''table does not exist'')
      else Inr (db\<lparr>tables := filter (\<lambda>t. table_name t \<noteq> n) (tables db)\<rparr>))"
| "exec (DropType n) db =
     (if n \<notin> set (map fst (enum_types db)) then Inl (Error ''type does not exist'')
      else if list_ex (\<lambda>t. n \<in> set (types_used t)) (tables db) then Inl (Error ''other objects depend on it'')
      else Inr (db\<lparr>enum_types := filter (\<lambda>e. fst e \<noteq> n) (enum_types db)\<rparr>))"

text \<open>A migration runs in one transaction: all of its statements, or none.\<close>

fun migrate :: "ddl list \<Rightarrow> db_catalog \<Rightarrow> db_catalog result" where
  "migrate [] db = Inr db"
| "migrate (s # ss) db = (case exec s db of Inl e \<Rightarrow> Inl e | Inr db' \<Rightarrow> migrate ss db')"

section \<open>The migrations\<close>

abbreviation "req n t \<equiv> \<lparr>column_name = n, column_type = t, not_null = True, column_default = None\<rparr>"
abbreviation "dflt n t d \<equiv> \<lparr>column_name = n, column_type = t, not_null = True, column_default = Some d\<rparr>"
abbreviation "opt n t \<equiv> \<lparr>column_name = n, column_type = t, not_null = False, column_default = None\<rparr>"

abbreviation "id_column \<equiv> dflt ''id'' Uuid ''uuid_generate_v4()''"

definition auth_up :: "ddl list" where
  "auth_up = [CreateExtension ''uuid-ossp'',
     CreateTable \<lparr>table_name = ''users'', columns = [id_column, req ''email'' Varchar, req ''passwordHash'' Varchar,
       dflt ''roles'' TextArray ''{customer}'', dflt ''createdAt'' Timestamp ''now()''],
       unique_columns = [''email''], primary_key = ''id''\<rparr>]"

definition auth_down :: "ddl list" where
  "auth_down = [DropTable ''users'']"

definition catalog_up :: "ddl list" where
  "catalog_up = [CreateExtension ''uuid-ossp'',
     CreateTable \<lparr>table_name = ''products'', columns = [id_column, req ''productId'' Varchar, req ''name'' Varchar,
       req ''price'' Double, opt ''description'' Varchar, dflt ''createdAt'' Timestamp ''now()''],
       unique_columns = [''productId''], primary_key = ''id''\<rparr>]"

definition catalog_down :: "ddl list" where
  "catalog_down = [DropTable ''products'']"

definition order_up :: "ddl list" where
  "order_up = [CreateExtension ''uuid-ossp'',
     CreateType ''orders_status_enum'' [''PENDING'', ''INVENTORY_RESERVED'', ''COMPLETED'', ''CANCELLED''],
     CreateTable \<lparr>table_name = ''orders'', columns = [id_column, req ''customerId'' Varchar, req ''items'' Jsonb,
       req ''total'' Double, dflt ''status'' (Enum ''orders_status_enum'') ''PENDING'',
       dflt ''createdAt'' Timestamp ''now()''], unique_columns = [], primary_key = ''id''\<rparr>,
     CreateTable \<lparr>table_name = ''outbox_events'', columns = [id_column, req ''aggregateType'' Varchar,
       req ''aggregateId'' Varchar, req ''eventType'' Varchar, req ''payload'' Jsonb,
       dflt ''createdAt'' Timestamp ''now()''], unique_columns = [], primary_key = ''id''\<rparr>]"

definition order_down :: "ddl list" where
  "order_down = [DropTable ''outbox_events'', DropTable ''orders'', DropType ''orders_status_enum'']"

definition payment_up :: "ddl list" where
  "payment_up = [CreateExtension ''uuid-ossp'',
     CreateType ''payments_status_enum'' [''SUCCESS'', ''FAILED''],
     CreateTable \<lparr>table_name = ''payments'', columns = [id_column, req ''orderId'' Varchar, req ''customerId'' Varchar,
       req ''amount'' Double, req ''status'' (Enum ''payments_status_enum''),
       dflt ''processedAt'' Timestamp ''now()''], unique_columns = [], primary_key = ''id''\<rparr>]"

definition payment_down :: "ddl list" where
  "payment_down = [DropTable ''payments'', DropType ''payments_status_enum'']"

definition inventory_up :: "ddl list" where
  "inventory_up = [CreateExtension ''uuid-ossp'',
     CreateTable \<lparr>table_name = ''stock_items'', columns = [id_column, req ''productId'' Varchar,
       req ''availableQuantity'' Integer, dflt ''reservedQuantity'' Integer ''0''],
       unique_columns = [''productId''], primary_key = ''id''\<rparr>,
     CreateType ''reservations_status_enum'' [''RESERVED'', ''CONFIRMED'', ''RELEASED''],
     CreateTable \<lparr>table_name = ''reservations'', columns = [id_column, req ''orderId'' Varchar, req ''items'' Jsonb,
       req ''status'' (Enum ''reservations_status_enum''), dflt ''createdAt'' Timestamp ''now()''],
       unique_columns = [''orderId''], primary_key = ''id''\<rparr>]"

definition inventory_down :: "ddl list" where
  "inventory_down = [DropTable ''reservations'', DropType ''reservations_status_enum'', DropTable ''stock_items'']"

section \<open>The entities\<close>

text \<open>A decorated property: the column options that matter to the schema.\<close>

datatype property_type = TString | TNumber | TDate | TOther

datatype decorator =
    PrimaryGeneratedColumn
  | CreateDateColumn
  | Column "string option" bool bool "string option"

text \<open>A property is its name, its TypeScript type and its decorator; the options of \<open>Column\<close> are the
  database type when given (\<open>text[]\<close> for \<open>'text', { array: true }\<close>), \<open>unique\<close>, \<open>nullable\<close> and \<open>default\<close>.\<close>

type_synonym entity_property = "string \<times> property_type \<times> decorator"

record entity =
  entity_table :: string
  entity_enum :: "string list"
  entity_properties :: "entity_property list"

text \<open>The column TypeORM's Postgres driver derives.\<close>

definition derived_type :: "string \<Rightarrow> string \<Rightarrow> property_type \<Rightarrow> string option \<Rightarrow> column_type" where
  "derived_type tab n t given = (case given of
     Some g \<Rightarrow>
       (if g = ''float'' then Double else if g = ''int'' then Integer else if g = ''jsonb'' then Jsonb
        else if g = ''enum'' then Enum (tab @ ''_'' @ n @ ''_enum'') else if g = ''text[]'' then TextArray else Varchar)
   | None \<Rightarrow> (case t of TNumber \<Rightarrow> Integer | TDate \<Rightarrow> Timestamp | _ \<Rightarrow> Varchar))"

fun derived_column :: "string \<Rightarrow> entity_property \<Rightarrow> column" where
  "derived_column tab (n, t, PrimaryGeneratedColumn) =
     \<lparr>column_name = n, column_type = Uuid, not_null = True, column_default = Some ''uuid_generate_v4()''\<rparr>"
| "derived_column tab (n, t, CreateDateColumn) =
     \<lparr>column_name = n, column_type = Timestamp, not_null = True, column_default = Some ''now()''\<rparr>"
| "derived_column tab (n, t, Column given unique nullable d) =
     \<lparr>column_name = n, column_type = derived_type tab n t given, not_null = (\<not> nullable), column_default = d\<rparr>"

definition derived_table :: "entity \<Rightarrow> table" where
  "derived_table e = \<lparr>table_name = entity_table e,
     columns = map (derived_column (entity_table e)) (entity_properties e),
     unique_columns = concat (map (\<lambda>(n, t, d). case d of Column _ True _ _ \<Rightarrow> [n] | _ \<Rightarrow> []) (entity_properties e)),
     primary_key = concat (map (\<lambda>(n, t, d). case d of PrimaryGeneratedColumn \<Rightarrow> n | _ \<Rightarrow> []) (entity_properties e))\<rparr>"

definition derived_enums :: "entity \<Rightarrow> (string \<times> string list) list" where
  "derived_enums e = concat (map (\<lambda>(n, t, d). case d of
     Column (Some g) _ _ _ \<Rightarrow> if g = ''enum'' then [(entity_table e @ ''_'' @ n @ ''_enum'', entity_enum e)] else []
   | _ \<Rightarrow> []) (entity_properties e))"

abbreviation "plain n t \<equiv> (n, t, Column None False False None)"
abbreviation "typed n t g \<equiv> (n, t, Column (Some g) False False None)"
abbreviation "uniq n \<equiv> (n, TString, Column None True False None)"

definition user_entity :: entity where
  "user_entity = \<lparr>entity_table = ''users'', entity_enum = [], entity_properties =
     [(''id'', TString, PrimaryGeneratedColumn), uniq ''email'', plain ''passwordHash'' TString,
      (''roles'', TOther, Column (Some ''text[]'') False False (Some ''{customer}'')),
      (''createdAt'', TDate, CreateDateColumn)]\<rparr>"

definition product_entity :: entity where
  "product_entity = \<lparr>entity_table = ''products'', entity_enum = [], entity_properties =
     [(''id'', TString, PrimaryGeneratedColumn), uniq ''productId'', plain ''name'' TString, typed ''price'' TNumber ''float'',
      (''description'', TString, Column None False True None), (''createdAt'', TDate, CreateDateColumn)]\<rparr>"

definition order_entity :: entity where
  "order_entity = \<lparr>entity_table = ''orders'',
     entity_enum = [''PENDING'', ''INVENTORY_RESERVED'', ''COMPLETED'', ''CANCELLED''], entity_properties =
     [(''id'', TString, PrimaryGeneratedColumn), plain ''customerId'' TString, typed ''items'' TOther ''jsonb'',
      typed ''total'' TNumber ''float'', (''status'', TOther, Column (Some ''enum'') False False (Some ''PENDING'')),
      (''createdAt'', TDate, CreateDateColumn)]\<rparr>"

definition outbox_entity :: entity where
  "outbox_entity = \<lparr>entity_table = ''outbox_events'', entity_enum = [], entity_properties =
     [(''id'', TString, PrimaryGeneratedColumn), plain ''aggregateType'' TString, plain ''aggregateId'' TString,
      plain ''eventType'' TString, typed ''payload'' TOther ''jsonb'', (''createdAt'', TDate, CreateDateColumn)]\<rparr>"

definition payment_entity :: entity where
  "payment_entity = \<lparr>entity_table = ''payments'', entity_enum = [''SUCCESS'', ''FAILED''], entity_properties =
     [(''id'', TString, PrimaryGeneratedColumn), plain ''orderId'' TString, plain ''customerId'' TString,
      typed ''amount'' TNumber ''float'', typed ''status'' TOther ''enum'', (''processedAt'', TDate, CreateDateColumn)]\<rparr>"

definition stock_entity :: entity where
  "stock_entity = \<lparr>entity_table = ''stock_items'', entity_enum = [], entity_properties =
     [(''id'', TString, PrimaryGeneratedColumn), uniq ''productId'', typed ''availableQuantity'' TNumber ''int'',
      (''reservedQuantity'', TNumber, Column (Some ''int'') False False (Some ''0''))]\<rparr>"

definition reservation_entity :: entity where
  "reservation_entity = \<lparr>entity_table = ''reservations'', entity_enum = [''RESERVED'', ''CONFIRMED'', ''RELEASED''],
     entity_properties =
     [(''id'', TString, PrimaryGeneratedColumn), uniq ''orderId'', typed ''items'' TOther ''jsonb'',
      typed ''status'' TOther ''enum'', (''createdAt'', TDate, CreateDateColumn)]\<rparr>"

section \<open>Agreement\<close>

definition fresh_db :: db_catalog where
  "fresh_db = \<lparr>extensions = [], enum_types = [], tables = []\<rparr>"

definition migration_fits :: "ddl list \<Rightarrow> ddl list \<Rightarrow> entity list \<Rightarrow> bool" where
  "migration_fits up down es \<longleftrightarrow> (case migrate up fresh_db of
     Inl _ \<Rightarrow> False
   | Inr db \<Rightarrow> tables db = map derived_table es \<and> enum_types db = concat (map derived_enums es) \<and>
       migrate down db = Inr (fresh_db\<lparr>extensions := extensions db\<rparr>) \<and>
       (\<exists>e. migrate up db = Inl e))"


end
