(* ===== verification/Settings.thy ===== *)
theory Settings
  imports Config Schema Nest_Modules
begin

text \<open>
  What each process reads from its environment when it starts: the database connection of the
  application (\<open>app.module.ts\<close>) and of the TypeORM command line (\<open>data-source.ts\<close>), the broker connection
  (\<open>rabbitmq.module.ts\<close>), the tracing exporter (\<open>tracer.ts\<close>) and the port (\<open>main.ts\<close>).
\<close>

section \<open>Database connections\<close>

text \<open>A port is handed over as it stands in the environment, or as a number.\<close>

datatype port = PortText "string option" | PortNumber js_number

record connection =
  db_type :: string
  db_host :: "string option"
  db_port :: port
  db_username :: "string option"
  db_password :: "string option"
  db_database :: "string option"
  db_entities :: "string list"
  db_migrations :: string
  db_migrationsRun :: "bool option"
  db_synchronize :: "bool option"

definition auth_connection :: "string \<Rightarrow> process_env \<Rightarrow> connection" where
  "auth_connection dirname env = \<lparr>db_type = ''postgres'', db_host = env ''DB_HOST'', db_port = PortText (env ''DB_PORT''),
     db_username = env ''DB_USERNAME'', db_password = env ''DB_PASSWORD'', db_database = env ''DB_NAME'',
     db_entities = [''User''], db_migrations = dirname @ ''/migrations/*{.ts,.js}'',
     db_migrationsRun = Some True, db_synchronize = Some False\<rparr>"

definition catalog_connection :: "string \<Rightarrow> process_env \<Rightarrow> connection" where
  "catalog_connection dirname env = \<lparr>db_type = ''postgres'', db_host = env ''DB_HOST'', db_port = PortText (env ''DB_PORT''),
     db_username = env ''DB_USERNAME'', db_password = env ''DB_PASSWORD'', db_database = env ''DB_NAME'',
     db_entities = [''Product''], db_migrations = dirname @ ''/migrations/*{.ts,.js}'',
     db_migrationsRun = Some True, db_synchronize = Some False\<rparr>"

definition order_connection :: "string \<Rightarrow> process_env \<Rightarrow> connection" where
  "order_connection dirname env = \<lparr>db_type = ''postgres'', db_host = env ''DB_HOST'', db_port = PortText (env ''DB_PORT''),
     db_username = env ''DB_USERNAME'', db_password = env ''DB_PASSWORD'', db_database = env ''DB_NAME'',
     db_entities = [''Order'', ''OutboxEvent''], db_migrations = dirname @ ''/migrations/*{.ts,.js}'',
     db_migrationsRun = Some True, db_synchronize = Some False\<rparr>"

definition payment_connection :: "string \<Rightarrow> process_env \<Rightarrow> connection" where
  "payment_connection dirname env = \<lparr>db_type = ''postgres'', db_host = env ''DB_HOST'', db_port = PortText (env ''DB_PORT''),
     db_username = env ''DB_USERNAME'', db_password = env ''DB_PASSWORD'', db_database = env ''DB_NAME'',
     db_entities = [''Payment''], db_migrations = dirname @ ''/migrations/*{.ts,.js}'',
     db_migrationsRun = Some True, db_synchronize = Some False\<rparr>"

definition inventory_connection :: "string \<Rightarrow> process_env \<Rightarrow> connection" where
  "inventory_connection dirname env = \<lparr>db_type = ''postgres'', db_host = env ''DB_HOST'', db_port = PortText (env ''DB_PORT''),
     db_username = env ''DB_USERNAME'', db_password = env ''DB_PASSWORD'', db_database = env ''DB_NAME'',
     db_entities = [''StockItem'', ''Reservation''], db_migrations = dirname @ ''/migrations/*{.ts,.js}'',
     db_migrationsRun = Some True, db_synchronize = Some False\<rparr>"

text \<open>The command line's connections set neither \<open>migrationsRun\<close> nor \<open>synchronize\<close>.\<close>

definition auth_data_source :: "string \<Rightarrow> process_env \<Rightarrow> connection" where
  "auth_data_source dirname env = \<lparr>db_type = ''postgres'', db_host = env ''DB_HOST'', db_port = PortNumber (js_Number (env ''DB_PORT'')),
     db_username = env ''DB_USERNAME'', db_password = env ''DB_PASSWORD'', db_database = env ''DB_NAME'',
     db_entities = [''User''], db_migrations = dirname @ ''/migrations/*{.ts,.js}'',
     db_migrationsRun = None, db_synchronize = None\<rparr>"

definition catalog_data_source :: "string \<Rightarrow> process_env \<Rightarrow> connection" where
  "catalog_data_source dirname env = \<lparr>db_type = ''postgres'', db_host = env ''DB_HOST'', db_port = PortNumber (js_Number (env ''DB_PORT'')),
     db_username = env ''DB_USERNAME'', db_password = env ''DB_PASSWORD'', db_database = env ''DB_NAME'',
     db_entities = [''Product''], db_migrations = dirname @ ''/migrations/*{.ts,.js}'',
     db_migrationsRun = None, db_synchronize = None\<rparr>"

definition order_data_source :: "string \<Rightarrow> process_env \<Rightarrow> connection" where
  "order_data_source dirname env = \<lparr>db_type = ''postgres'', db_host = env ''DB_HOST'', db_port = PortNumber (js_Number (env ''DB_PORT'')),
     db_username = env ''DB_USERNAME'', db_password = env ''DB_PASSWORD'', db_database = env ''DB_NAME'',
     db_entities = [''Order'', ''OutboxEvent''], db_migrations = dirname @ ''/migrations/*{.ts,.js}'',
     db_migrationsRun = None, db_synchronize = None\<rparr>"

definition payment_data_source :: "string \<Rightarrow> process_env \<Rightarrow> connection" where
  "payment_data_source dirname env = \<lparr>db_type = ''postgres'', db_host = env ''DB_HOST'', db_port = PortNumber (js_Number (env ''DB_PORT'')),
     db_username = env ''DB_USERNAME'', db_password = env ''DB_PASSWORD'', db_database = env ''DB_NAME'',
     db_entities = [''Payment''], db_migrations = dirname @ ''/migrations/*{.ts,.js}'',
     db_migrationsRun = None, db_synchronize = None\<rparr>"

definition inventory_data_source :: "string \<Rightarrow> process_env \<Rightarrow> connection" where
  "inventory_data_source dirname env = \<lparr>db_type = ''postgres'', db_host = env ''DB_HOST'', db_port = PortNumber (js_Number (env ''DB_PORT'')),
     db_username = env ''DB_USERNAME'', db_password = env ''DB_PASSWORD'', db_database = env ''DB_NAME'',
     db_entities = [''StockItem'', ''Reservation''], db_migrations = dirname @ ''/migrations/*{.ts,.js}'',
     db_migrationsRun = None, db_synchronize = None\<rparr>"

section \<open>Broker connections\<close>

text \<open>\<open>uri\<close>, \<open>connectionInitOptions.wait\<close> and the number of messages in flight; the exchanges and queues are
  in the theories \<open>Topology\<close> and \<open>Payment\<close>.\<close>

record broker_options =
  broker_uri :: "string option"
  broker_wait :: bool
  prefetchCount :: config_value

definition order_broker :: "process_env \<Rightarrow> broker_options" where
  "order_broker env = \<lparr>broker_uri = env ''RABBITMQ_URI'', broker_wait = False,
     prefetchCount = config_number (env ''RABBITMQ_PREFETCH_COUNT'') 15\<rparr>"

definition payment_broker :: "process_env \<Rightarrow> broker_options" where
  "payment_broker env = \<lparr>broker_uri = env ''RABBITMQ_URI'', broker_wait = False,
     prefetchCount = config_number (env ''RABBITMQ_PREFETCH_COUNT'') 10\<rparr>"

definition inventory_broker :: "process_env \<Rightarrow> broker_options" where
  "inventory_broker env = \<lparr>broker_uri = env ''RABBITMQ_URI'', broker_wait = False,
     prefetchCount = config_number (env ''RABBITMQ_PREFETCH_COUNT'') 20\<rparr>"

definition catalog_broker :: "process_env \<Rightarrow> broker_options" where
  "catalog_broker env = \<lparr>broker_uri = env ''RABBITMQ_URI'', broker_wait = False,
     prefetchCount = config_number (env ''RABBITMQ_PREFETCH_COUNT'') 20\<rparr>"

definition notification_broker :: "process_env \<Rightarrow> broker_options" where
  "notification_broker env = \<lparr>broker_uri = env ''RABBITMQ_URI'', broker_wait = False,
     prefetchCount = config_number (env ''RABBITMQ_PREFETCH_COUNT'') 10\<rparr>"

section \<open>Tracing\<close>

record tracer =
  serviceName :: string
  exporter_url :: string

definition auth_tracer :: "process_env \<Rightarrow> tracer" where
  "auth_tracer env = (let otlpEndpoint = env_or (env ''OTEL_EXPORTER_OTLP_ENDPOINT'') ''http://localhost:4318'' in
     \<lparr>serviceName = env_or (env ''OTEL_SERVICE_NAME'') ''auth-service'', exporter_url = otlpEndpoint @ ''/v1/traces''\<rparr>)"

definition catalog_tracer :: "process_env \<Rightarrow> tracer" where
  "catalog_tracer env = (let otlpEndpoint = env_or (env ''OTEL_EXPORTER_OTLP_ENDPOINT'') ''http://localhost:4318'' in
     \<lparr>serviceName = env_or (env ''OTEL_SERVICE_NAME'') ''catalog-service'', exporter_url = otlpEndpoint @ ''/v1/traces''\<rparr>)"

definition order_tracer :: "process_env \<Rightarrow> tracer" where
  "order_tracer env = (let otlpEndpoint = env_or (env ''OTEL_EXPORTER_OTLP_ENDPOINT'') ''http://localhost:4318'' in
     \<lparr>serviceName = env_or (env ''OTEL_SERVICE_NAME'') ''order-service'', exporter_url = otlpEndpoint @ ''/v1/traces''\<rparr>)"

definition payment_tracer :: "process_env \<Rightarrow> tracer" where
  "payment_tracer env = (let otlpEndpoint = env_or (env ''OTEL_EXPORTER_OTLP_ENDPOINT'') ''http://localhost:4318'' in
     \<lparr>serviceName = env_or (env ''OTEL_SERVICE_NAME'') ''payment-service'', exporter_url = otlpEndpoint @ ''/v1/traces''\<rparr>)"

definition inventory_tracer :: "process_env \<Rightarrow> tracer" where
  "inventory_tracer env = (let otlpEndpoint = env_or (env ''OTEL_EXPORTER_OTLP_ENDPOINT'') ''http://localhost:4318'' in
     \<lparr>serviceName = env_or (env ''OTEL_SERVICE_NAME'') ''inventory-service'', exporter_url = otlpEndpoint @ ''/v1/traces''\<rparr>)"

definition notification_tracer :: "process_env \<Rightarrow> tracer" where
  "notification_tracer env = (let otlpEndpoint = env_or (env ''OTEL_EXPORTER_OTLP_ENDPOINT'') ''http://localhost:4318'' in
     \<lparr>serviceName = env_or (env ''OTEL_SERVICE_NAME'') ''notification-service'', exporter_url = otlpEndpoint @ ''/v1/traces''\<rparr>)"

definition gateway_tracer :: "process_env \<Rightarrow> tracer" where
  "gateway_tracer env = (let otlpEndpoint = env_or (env ''OTEL_EXPORTER_OTLP_ENDPOINT'') ''http://localhost:4318'' in
     \<lparr>serviceName = env_or (env ''OTEL_SERVICE_NAME'') ''gateway-service'', exporter_url = otlpEndpoint @ ''/v1/traces''\<rparr>)"

section \<open>Starting a process\<close>

text \<open>\<open>process.env.PORT ?? 3000\<close>\<close>

definition listen_port :: "process_env \<Rightarrow> config_value" where
  "listen_port env = (case env ''PORT'' of None \<Rightarrow> Number 3000 | Some p \<Rightarrow> Text p)"

text \<open>\<open>main.ts\<close>: the tracer is started by its import, then the application is created, and only then the
  process listens. Creating one that does not resolve ends the process. The gateway's is in the
  theory \<open>Gateway_Bootstrap\<close>.\<close>

record process =
  traced_as :: tracer
  listening :: config_value

definition bootstrap :: "tracer \<Rightarrow> (module_ref \<Rightarrow> string list) \<Rightarrow> application \<Rightarrow> process_env \<Rightarrow> process option" where
  "bootstrap t lib app env = (if starts lib app then Some \<lparr>traced_as = t, listening = listen_port env\<rparr> else None)"

definition auth_main :: "(module_ref \<Rightarrow> string list) \<Rightarrow> process_env \<Rightarrow> process option" where
  "auth_main lib env = bootstrap (auth_tracer env) lib auth_app env"

definition catalog_main :: "(module_ref \<Rightarrow> string list) \<Rightarrow> process_env \<Rightarrow> process option" where
  "catalog_main lib env = bootstrap (catalog_tracer env) lib catalog_app env"

definition order_main :: "(module_ref \<Rightarrow> string list) \<Rightarrow> process_env \<Rightarrow> process option" where
  "order_main lib env = bootstrap (order_tracer env) lib order_app env"

definition payment_main :: "(module_ref \<Rightarrow> string list) \<Rightarrow> process_env \<Rightarrow> process option" where
  "payment_main lib env = bootstrap (payment_tracer env) lib payment_app env"

definition inventory_main :: "(module_ref \<Rightarrow> string list) \<Rightarrow> process_env \<Rightarrow> process option" where
  "inventory_main lib env = bootstrap (inventory_tracer env) lib inventory_app env"

definition notification_main :: "(module_ref \<Rightarrow> string list) \<Rightarrow> process_env \<Rightarrow> process option" where
  "notification_main lib env = bootstrap (notification_tracer env) lib notification_app env"

section \<open>Agreement of the connections\<close>

text \<open>The entity a class name stands for.\<close>

definition entity_class :: "string \<Rightarrow> entity option" where
  "entity_class = map_of [(''User'', user_entity), (''Product'', product_entity), (''Order'', order_entity),
     (''OutboxEvent'', outbox_entity), (''Payment'', payment_entity), (''StockItem'', stock_entity),
     (''Reservation'', reservation_entity)]"

text \<open>The tables of the classes a connection is given.\<close>

definition tables_of :: "connection \<Rightarrow> table option list" where
  "tables_of c = map (\<lambda>n. map_option derived_table (entity_class n)) (db_entities c)"

definition migrated_tables :: "ddl list \<Rightarrow> table list" where
  "migrated_tables up = (case migrate up fresh_db of Inl _ \<Rightarrow> [] | Inr db \<Rightarrow> tables db)"

text \<open>The classes the application asks the connection for.\<close>

definition root_entities :: "application \<Rightarrow> string list" where
  "root_entities app = concat (map (\<lambda>r. case r of ForRoot es \<Rightarrow> es | _ \<Rightarrow> []) (module_imports (app_root app)))"

definition connections_agree :: "(process_env \<Rightarrow> connection) \<Rightarrow> (process_env \<Rightarrow> connection) \<Rightarrow> application \<Rightarrow> ddl list \<Rightarrow> process_env \<Rightarrow> bool" where
  "connections_agree app_c cli_c app up env \<longleftrightarrow>
     (cli_c env)\<lparr>db_port := db_port (app_c env), db_migrationsRun := db_migrationsRun (app_c env),
       db_synchronize := db_synchronize (app_c env)\<rparr> = app_c env \<and>
     (\<forall>n. db_port (app_c (env(''DB_PORT'' \<mapsto> string_of_nat n))) = PortText (Some (string_of_nat n)) \<and>
          db_port (cli_c (env(''DB_PORT'' \<mapsto> string_of_nat n))) = PortNumber (round_double (of_nat n))) \<and>
     db_migrationsRun (app_c env) = Some True \<and> db_synchronize (app_c env) = Some False \<and>
     db_entities (app_c env) = root_entities app \<and>
     tables_of (app_c env) = map Some (migrated_tables up)"

lemmas connection_defs = auth_connection_def catalog_connection_def order_connection_def payment_connection_def
  inventory_connection_def auth_data_source_def catalog_data_source_def order_data_source_def
  payment_data_source_def inventory_data_source_def

lemma migrated:
  "migrated_tables auth_up = [derived_table user_entity]"
  "migrated_tables catalog_up = [derived_table product_entity]"
  "migrated_tables order_up = [derived_table order_entity, derived_table outbox_entity]"
  "migrated_tables payment_up = [derived_table payment_entity]"
  "migrated_tables inventory_up = [derived_table stock_entity, derived_table reservation_entity]"
  by (simp_all add: migrated_tables_def fresh_db_def derived_table_def derived_type_def types_used_def
      auth_up_def catalog_up_def order_up_def payment_up_def inventory_up_def user_entity_def product_entity_def
      order_entity_def outbox_entity_def payment_entity_def stock_entity_def reservation_entity_def)


section \<open>Every service comes up\<close>

definition mains :: "((module_ref \<Rightarrow> string list) \<Rightarrow> process_env \<Rightarrow> process option) list" where
  "mains = [auth_main, catalog_main, order_main, payment_main, inventory_main, notification_main]"

lemmas main_defs = mains_def auth_main_def catalog_main_def order_main_def payment_main_def inventory_main_def
  notification_main_def bootstrap_def

lemmas tracer_defs = auth_tracer_def catalog_tracer_def order_tracer_def payment_tracer_def inventory_tracer_def
  notification_tracer_def

text \<open>With the libraries as documented each of the six services behind the gateway comes up and listens
  on the port of its environment, or on 3000; they report to one collector, under six names unless
  the environment names them.\<close>
theorem services_come_up:
  assumes "nest_libraries lib" and "env ''OTEL_SERVICE_NAME'' = None"
  shows "list_all (\<lambda>main. \<exists>p. main lib env = Some p \<and> listening p = (case env ''PORT'' of None \<Rightarrow> Number 3000 | Some t \<Rightarrow> Text t) \<and>
       exporter_url (traced_as p) = exporter_url (gateway_tracer env)) mains \<and>
     distinct (map (\<lambda>main. map_option (serviceName \<circ> traced_as) (main lib env)) mains)"
  using assms by (simp add: main_defs tracer_defs gateway_tracer_def listen_port_def env_or_def Let_def
      auth_starts catalog_starts order_starts payment_starts inventory_starts notification_starts)

definition no_variables :: process_env where
  "no_variables = (\<lambda>_. None)"

theorem services_come_up_witness:
  "\<exists>p. order_main documented_exports no_variables = Some p \<and> listening p = Number 3000"
  using services_come_up [OF documented_exports_law, of no_variables]
  by (auto simp: no_variables_def mains_def)

end
