(* ===== verification/Health.thy ===== *)
theory Health
  imports Nest_Modules
begin

text \<open>
  The health checks (\<open>health.controller.ts\<close>, \<open>rabbitmq.health.ts\<close> of each service), which the probes of the
  deployment call. The health service and the database ping of the library are arguments.
\<close>

section \<open>Indicators\<close>

datatype indicator = Up | Down string

type_synonym check_result = "string \<times> indicator"

text \<open>What a check looks at: whether the database answers and whether the broker connection is open.\<close>

record dependencies =
  database_answers :: bool
  broker_connected :: bool

text \<open>The library: \<open>HealthCheckService.check\<close>, which answers with a status code and the results, and
  \<open>TypeOrmHealthIndicator.pingCheck\<close>.\<close>

record terminus =
  health_check :: "check_result list \<Rightarrow> nat \<times> check_result list"
  pingCheck :: "dependencies \<Rightarrow> string \<Rightarrow> check_result"

definition rabbitmq_check :: "dependencies \<Rightarrow> string \<Rightarrow> check_result" where
  "rabbitmq_check deps key = (let isConnected = broker_connected deps in
     if \<not> isConnected then (key, Down ''RabbitMQ connection is down'') else (key, Up))"

text \<open>The indicators of the other services with a broker, each from its own file.\<close>

definition payment_rabbitmq_check :: "dependencies \<Rightarrow> string \<Rightarrow> check_result" where
  "payment_rabbitmq_check deps key = (let isConnected = broker_connected deps in
     if \<not> isConnected then (key, Down ''RabbitMQ connection is down'') else (key, Up))"

definition catalog_rabbitmq_check :: "dependencies \<Rightarrow> string \<Rightarrow> check_result" where
  "catalog_rabbitmq_check deps key = (let isConnected = broker_connected deps in
     if \<not> isConnected then (key, Down ''RabbitMQ connection is down'') else (key, Up))"

definition inventory_rabbitmq_check :: "dependencies \<Rightarrow> string \<Rightarrow> check_result" where
  "inventory_rabbitmq_check deps key = (let isConnected = broker_connected deps in
     if \<not> isConnected then (key, Down ''RabbitMQ connection is down'') else (key, Up))"

definition notification_rabbitmq_check :: "dependencies \<Rightarrow> string \<Rightarrow> check_result" where
  "notification_rabbitmq_check deps key = (let isConnected = broker_connected deps in
     if \<not> isConnected then (key, Down ''RabbitMQ connection is down'') else (key, Up))"

section \<open>The controllers\<close>

definition order_health :: "terminus \<Rightarrow> dependencies \<Rightarrow> nat \<times> check_result list" where
  "order_health t deps = health_check t [pingCheck t deps ''database'', rabbitmq_check deps ''rabbitmq'']"

definition payment_health :: "terminus \<Rightarrow> dependencies \<Rightarrow> nat \<times> check_result list" where
  "payment_health t deps = health_check t [pingCheck t deps ''database'', payment_rabbitmq_check deps ''rabbitmq'']"

definition catalog_health :: "terminus \<Rightarrow> dependencies \<Rightarrow> nat \<times> check_result list" where
  "catalog_health t deps = health_check t [pingCheck t deps ''database'', catalog_rabbitmq_check deps ''rabbitmq'']"

definition inventory_health :: "terminus \<Rightarrow> dependencies \<Rightarrow> nat \<times> check_result list" where
  "inventory_health t deps = health_check t [pingCheck t deps ''database'', inventory_rabbitmq_check deps ''rabbitmq'']"

definition auth_health :: "terminus \<Rightarrow> dependencies \<Rightarrow> nat \<times> check_result list" where
  "auth_health t deps = health_check t [pingCheck t deps ''database'']"

definition notification_health :: "terminus \<Rightarrow> dependencies \<Rightarrow> nat \<times> check_result list" where
  "notification_health t deps = health_check t [notification_rabbitmq_check deps ''rabbitmq'']"

text \<open>The gateway answers \<open>{ status: 'ok' }\<close> and looks at nothing.\<close>

definition gateway_health :: "nat \<times> (string \<times> string) list" where
  "gateway_health = (200, [(''status'', ''ok'')])"

section \<open>What a check says\<close>

text \<open>The documented behaviour of the library: 200 when every indicator is up and 503 otherwise, with the
  results; a ping is up when the database answers.\<close>

definition terminus_law :: "terminus \<Rightarrow> bool" where
  "terminus_law t \<longleftrightarrow>
     (\<forall>rs. health_check t rs = (if list_all (\<lambda>r. snd r = Up) rs then 200 else 503, rs)) \<and>
     (\<forall>deps key. fst (pingCheck t deps key) = key \<and> (snd (pingCheck t deps key) = Up \<longleftrightarrow> database_answers deps))"

text \<open>Whether an application has a database connection or a broker connection, from its modules.\<close>

definition has_database :: "application \<Rightarrow> bool" where
  "has_database app = list_ex (\<lambda>r. case r of ForRoot _ \<Rightarrow> True | _ \<Rightarrow> False) (module_imports (app_root app))"

definition has_broker :: "application \<Rightarrow> bool" where
  "has_broker app = list_ex (\<lambda>r. r = Own ''SharedRabbitMQModule'') (module_imports (app_root app))"

definition serves :: "application \<Rightarrow> dependencies \<Rightarrow> bool" where
  "serves app deps \<longleftrightarrow> (has_database app \<longrightarrow> database_answers deps) \<and> (has_broker app \<longrightarrow> broker_connected deps)"

definition watched :: "application \<Rightarrow> string list" where
  "watched app = (if has_database app then [''database''] else []) @ (if has_broker app then [''rabbitmq''] else [])"

text \<open>A check reports an application when it watches exactly the application's connections, answers 200
  when all of them work and 503 otherwise.\<close>

definition reports :: "(dependencies \<Rightarrow> nat \<times> check_result list) \<Rightarrow> application \<Rightarrow> bool" where
  "reports check app \<longleftrightarrow> (\<forall>deps. map fst (snd (check deps)) = watched app \<and>
     fst (check deps) = (if serves app deps then 200 else 503))"

lemmas health_defs = order_health_def payment_health_def catalog_health_def inventory_health_def
  auth_health_def notification_health_def rabbitmq_check_def
  payment_rabbitmq_check_def catalog_rabbitmq_check_def inventory_rabbitmq_check_def notification_rabbitmq_check_def Let_def

lemmas connection_of_app_defs = reports_def serves_def watched_def has_database_def has_broker_def order_app_def
  payment_app_def catalog_app_def inventory_app_def auth_app_def notification_app_def

text \<open>C37: The health route of every service watches exactly the connections its modules open, the database
  and the broker or the one of them it has, and answers 200 precisely when all of them work, 503
  otherwise.\<close>
theorem health_follows_the_connections:
  assumes "terminus_law t"
  shows "reports (order_health t) order_app \<and> reports (payment_health t) payment_app \<and>
    reports (catalog_health t) catalog_app \<and> reports (inventory_health t) inventory_app \<and>
    reports (auth_health t) auth_app \<and> reports (notification_health t) notification_app \<and>
    \<not> has_database gateway_app \<and> \<not> has_broker gateway_app \<and> fst gateway_health = 200"
  using assms by (simp add: terminus_law_def connection_of_app_defs health_defs gateway_app_def gateway_health_def)

definition documented_terminus :: terminus where
  "documented_terminus = \<lparr>health_check = \<lambda>rs. (if list_all (\<lambda>r. snd r = Up) rs then 200 else 503, rs),
     pingCheck = \<lambda>deps key. (key, if database_answers deps then Up else Down ''timeout'')\<rparr>"

theorem health_follows_the_connections_witness:
  "terminus_law documented_terminus \<and>
   fst (auth_health documented_terminus \<lparr>database_answers = True, broker_connected = False\<rparr>) = 200 \<and>
   fst (order_health documented_terminus \<lparr>database_answers = True, broker_connected = False\<rparr>) = 503"
proof -
  have law: "terminus_law documented_terminus"
    by (simp add: terminus_law_def documented_terminus_def)
  from health_follows_the_connections [OF law] have
    "reports (auth_health documented_terminus) auth_app" "reports (order_health documented_terminus) order_app"
    by blast+
  with law show ?thesis by (simp add: connection_of_app_defs)
qed

end
