(* ===== verification/Metrics.thy ===== *)
theory Metrics
  imports JS_Number Prelude
begin

text \<open>
  The metrics of the HTTP requests (\<open>metrics.registry.ts\<close> and \<open>metrics.middleware.ts\<close>, the same text in
  each of the seven services). What the middleware does to the registry is kept as the list of
  calls it makes; what the library makes of the calls is its own affair.
\<close>

section \<open>The registries\<close>

record metric =
  metric_name :: string
  metric_help :: string
  labelNames :: "string list"
  buckets :: "js_number list option"

definition auth_registry :: "metric list" where
  "auth_registry =
    [\<lparr>metric_name = ''http_requests_total'', metric_help = ''Total number of HTTP requests'',
       labelNames = [''method'', ''route'', ''status_code''], buckets = None\<rparr>,
     \<lparr>metric_name = ''http_request_duration_seconds'', metric_help = ''HTTP request duration in seconds'',
       labelNames = [''method'', ''route'', ''status_code''],
       buckets = Some [round_double (1 / 100), round_double (1 / 20), round_double (1 / 10), round_double (3 / 10),
       round_double (1 / 2), js_int 1, js_int 2, js_int 5]\<rparr>]"

definition catalog_registry :: "metric list" where
  "catalog_registry =
    [\<lparr>metric_name = ''http_requests_total'', metric_help = ''Total number of HTTP requests'',
       labelNames = [''method'', ''route'', ''status_code''], buckets = None\<rparr>,
     \<lparr>metric_name = ''http_request_duration_seconds'', metric_help = ''HTTP request duration in seconds'',
       labelNames = [''method'', ''route'', ''status_code''],
       buckets = Some [round_double (1 / 100), round_double (1 / 20), round_double (1 / 10), round_double (3 / 10),
       round_double (1 / 2), js_int 1, js_int 2, js_int 5]\<rparr>]"

definition order_registry :: "metric list" where
  "order_registry =
    [\<lparr>metric_name = ''http_requests_total'', metric_help = ''Total number of HTTP requests'',
       labelNames = [''method'', ''route'', ''status_code''], buckets = None\<rparr>,
     \<lparr>metric_name = ''http_request_duration_seconds'', metric_help = ''HTTP request duration in seconds'',
       labelNames = [''method'', ''route'', ''status_code''],
       buckets = Some [round_double (1 / 100), round_double (1 / 20), round_double (1 / 10), round_double (3 / 10),
       round_double (1 / 2), js_int 1, js_int 2, js_int 5]\<rparr>]"

definition payment_registry :: "metric list" where
  "payment_registry =
    [\<lparr>metric_name = ''http_requests_total'', metric_help = ''Total number of HTTP requests'',
       labelNames = [''method'', ''route'', ''status_code''], buckets = None\<rparr>,
     \<lparr>metric_name = ''http_request_duration_seconds'', metric_help = ''HTTP request duration in seconds'',
       labelNames = [''method'', ''route'', ''status_code''],
       buckets = Some [round_double (1 / 100), round_double (1 / 20), round_double (1 / 10), round_double (3 / 10),
       round_double (1 / 2), js_int 1, js_int 2, js_int 5]\<rparr>]"

definition inventory_registry :: "metric list" where
  "inventory_registry =
    [\<lparr>metric_name = ''http_requests_total'', metric_help = ''Total number of HTTP requests'',
       labelNames = [''method'', ''route'', ''status_code''], buckets = None\<rparr>,
     \<lparr>metric_name = ''http_request_duration_seconds'', metric_help = ''HTTP request duration in seconds'',
       labelNames = [''method'', ''route'', ''status_code''],
       buckets = Some [round_double (1 / 100), round_double (1 / 20), round_double (1 / 10), round_double (3 / 10),
       round_double (1 / 2), js_int 1, js_int 2, js_int 5]\<rparr>]"

definition notification_registry :: "metric list" where
  "notification_registry =
    [\<lparr>metric_name = ''http_requests_total'', metric_help = ''Total number of HTTP requests'',
       labelNames = [''method'', ''route'', ''status_code''], buckets = None\<rparr>,
     \<lparr>metric_name = ''http_request_duration_seconds'', metric_help = ''HTTP request duration in seconds'',
       labelNames = [''method'', ''route'', ''status_code''],
       buckets = Some [round_double (1 / 100), round_double (1 / 20), round_double (1 / 10), round_double (3 / 10),
       round_double (1 / 2), js_int 1, js_int 2, js_int 5]\<rparr>]"

definition gateway_registry :: "metric list" where
  "gateway_registry =
    [\<lparr>metric_name = ''http_requests_total'', metric_help = ''Total number of HTTP requests'',
       labelNames = [''method'', ''route'', ''status_code''], buckets = None\<rparr>,
     \<lparr>metric_name = ''http_request_duration_seconds'', metric_help = ''HTTP request duration in seconds'',
       labelNames = [''method'', ''route'', ''status_code''],
       buckets = Some [round_double (1 / 100), round_double (1 / 20), round_double (1 / 10), round_double (3 / 10),
       round_double (1 / 2), js_int 1, js_int 2, js_int 5]\<rparr>]"

section \<open>The middleware\<close>

type_synonym labels = "(string \<times> string) list"

record http_request =
  http_method :: string
  http_path :: string

text \<open>The calls to the two metrics: \<open>httpRequestsTotal.inc\<close> and \<open>httpRequestDurationSeconds.observe\<close>.\<close>

datatype call = Inc labels | Observe labels js_number

text \<open>A request that has arrived, with the route the router has matched and the time in nanoseconds.\<close>

type_synonym started = "http_request \<times> string option \<times> nat"

record middleware =
  listening_for :: "nat \<Rightarrow> started option"
  calls :: "call list"

text \<open>What happens to the request with a number: it arrives, it is matched to a route, its response is
  finished with a status, or its connection closes before that.\<close>

datatype http_event =
    Arrives nat http_request nat
  | Matched nat string
  | Finishes nat nat nat
  | Closes nat

text \<open>\<open>Number(end - start) / 1e9\<close>\<close>

definition durationSeconds :: "nat \<Rightarrow> nat \<Rightarrow> js_number" where
  "durationSeconds start now = (case round_double (of_int (int now - int start)) of
     Fin x \<Rightarrow> round_double (x / 10 ^ 9)
   | y \<Rightarrow> y)"

text \<open>\<open>req.route?.path || req.path\<close>\<close>

definition labels_of :: "http_request \<Rightarrow> string option \<Rightarrow> nat \<Rightarrow> labels" where
  "labels_of req matched status_code = (let route = env_or matched (http_path req) in
     [(''method'', http_method req), (''route'', route), (''status_code'', string_of_nat status_code)])"

text \<open>The callback of \<open>finish\<close>.\<close>

definition on_finish :: "started \<Rightarrow> nat \<Rightarrow> nat \<Rightarrow> call list" where
  "on_finish st status_code now = (case st of (req, matched, start) \<Rightarrow>
     let labels = labels_of req matched status_code in
     [Inc labels, Observe labels (durationSeconds start now)])"

text \<open>The callbacks of the other services, each from its own copy of the middleware; the one above is that of the
  order service.\<close>

definition auth_on_finish :: "started \<Rightarrow> nat \<Rightarrow> nat \<Rightarrow> call list" where
  "auth_on_finish st status_code now = (case st of (req, matched, start) \<Rightarrow>
     let route = env_or matched (http_path req); seconds = durationSeconds start now;
       labels = [(''method'', http_method req), (''route'', route), (''status_code'', string_of_nat status_code)] in
     [Inc labels, Observe labels seconds])"

definition catalog_on_finish :: "started \<Rightarrow> nat \<Rightarrow> nat \<Rightarrow> call list" where
  "catalog_on_finish st status_code now = (case st of (req, matched, start) \<Rightarrow>
     let route = env_or matched (http_path req); seconds = durationSeconds start now;
       labels = [(''method'', http_method req), (''route'', route), (''status_code'', string_of_nat status_code)] in
     [Inc labels, Observe labels seconds])"

definition payment_on_finish :: "started \<Rightarrow> nat \<Rightarrow> nat \<Rightarrow> call list" where
  "payment_on_finish st status_code now = (case st of (req, matched, start) \<Rightarrow>
     let route = env_or matched (http_path req); seconds = durationSeconds start now;
       labels = [(''method'', http_method req), (''route'', route), (''status_code'', string_of_nat status_code)] in
     [Inc labels, Observe labels seconds])"

definition inventory_on_finish :: "started \<Rightarrow> nat \<Rightarrow> nat \<Rightarrow> call list" where
  "inventory_on_finish st status_code now = (case st of (req, matched, start) \<Rightarrow>
     let route = env_or matched (http_path req); seconds = durationSeconds start now;
       labels = [(''method'', http_method req), (''route'', route), (''status_code'', string_of_nat status_code)] in
     [Inc labels, Observe labels seconds])"

definition notification_on_finish :: "started \<Rightarrow> nat \<Rightarrow> nat \<Rightarrow> call list" where
  "notification_on_finish st status_code now = (case st of (req, matched, start) \<Rightarrow>
     let route = env_or matched (http_path req); seconds = durationSeconds start now;
       labels = [(''method'', http_method req), (''route'', route), (''status_code'', string_of_nat status_code)] in
     [Inc labels, Observe labels seconds])"

definition gateway_on_finish :: "started \<Rightarrow> nat \<Rightarrow> nat \<Rightarrow> call list" where
  "gateway_on_finish st status_code now = (case st of (req, matched, start) \<Rightarrow>
     let route = env_or matched (http_path req); seconds = durationSeconds start now;
       labels = [(''method'', http_method req), (''route'', route), (''status_code'', string_of_nat status_code)] in
     [Inc labels, Observe labels seconds])"

definition service_callbacks :: "(started \<Rightarrow> nat \<Rightarrow> nat \<Rightarrow> call list) list" where
  "service_callbacks = [auth_on_finish, catalog_on_finish, on_finish, payment_on_finish, inventory_on_finish,
     notification_on_finish, gateway_on_finish]"

lemmas callback_defs = service_callbacks_def auth_on_finish_def catalog_on_finish_def payment_on_finish_def
  inventory_on_finish_def notification_on_finish_def gateway_on_finish_def on_finish_def labels_of_def

lemma callbacks_agree: "list_all (\<lambda>finish. finish = on_finish) service_callbacks"
  by (simp add: callback_defs fun_eq_iff Let_def)

text \<open>\<open>use\<close> notes the time and leaves the callback with the response.\<close>

definition use_middleware :: "nat \<Rightarrow> http_request \<Rightarrow> nat \<Rightarrow> middleware \<Rightarrow> middleware" where
  "use_middleware i req now s = s\<lparr>listening_for := (listening_for s)(i \<mapsto> (req, None, now))\<rparr>"

fun on_event :: "http_event \<Rightarrow> middleware \<Rightarrow> middleware" where
  "on_event (Arrives i req now) s = use_middleware i req now s"
| "on_event (Matched i p) s = (case listening_for s i of
     None \<Rightarrow> s
   | Some (req, _, start) \<Rightarrow> s\<lparr>listening_for := (listening_for s)(i \<mapsto> (req, Some p, start))\<rparr>)"
| "on_event (Finishes i status_code now) s = (case listening_for s i of
     None \<Rightarrow> s
   | Some st \<Rightarrow> s\<lparr>listening_for := (listening_for s)(i := None), calls := calls s @ on_finish st status_code now\<rparr>)"
| "on_event (Closes i) s = s\<lparr>listening_for := (listening_for s)(i := None)\<rparr>"

definition new_middleware :: middleware where
  "new_middleware = \<lparr>listening_for = (\<lambda>_. None), calls = []\<rparr>"

definition observe_events :: "http_event list \<Rightarrow> middleware" where
  "observe_events es = fold on_event es new_middleware"

section \<open>What is counted\<close>

text \<open>The same from the history alone, newest event first: the request with a number that is still
  open, and the calls the finished ones gave.\<close>

fun open_request :: "nat \<Rightarrow> http_event list \<Rightarrow> started option" where
  "open_request i [] = None"
| "open_request i (Arrives j req now # h) = (if i = j then Some (req, None, now) else open_request i h)"
| "open_request i (Matched j p # h) = (if i = j
     then map_option (\<lambda>(req, _, start). (req, Some p, start)) (open_request i h) else open_request i h)"
| "open_request i (Finishes j _ _ # h) = (if i = j then None else open_request i h)"
| "open_request i (Closes j # h) = (if i = j then None else open_request i h)"

fun reported :: "http_event list \<Rightarrow> call list" where
  "reported [] = []"
| "reported (Finishes i status_code now # h) = reported h @ (case open_request i h of
     None \<Rightarrow> [] | Some st \<Rightarrow> on_finish st status_code now)"
| "reported (_ # h) = reported h"

lemma observe_events_snoc [simp]: "observe_events (es @ [e]) = on_event e (observe_events es)"
  by (simp add: observe_events_def)

lemma middleware_is_history:
  "listening_for (observe_events es) = (\<lambda>i. open_request i (rev es)) \<and> calls (observe_events es) = reported (rev es)"
proof (induction es rule: rev_induct)
  case Nil
  show ?case by (simp add: observe_events_def new_middleware_def)
next
  case (snoc e es)
  then show ?case by (cases e) (auto simp: use_middleware_def fun_eq_iff split: option.splits)
qed

text \<open>How often each metric is called with some labels.\<close>

definition increments :: "labels \<Rightarrow> call list \<Rightarrow> nat" where
  "increments l cs = length (filter (\<lambda>c. c = Inc l) cs)"

definition observations :: "labels \<Rightarrow> call list \<Rightarrow> nat" where
  "observations l cs = length (filter (\<lambda>c. case c of Observe l' _ \<Rightarrow> l' = l | _ \<Rightarrow> False) cs)"

lemma counted_simps [simp]:
  "increments l [] = 0" "observations l [] = 0"
  "increments l (cs @ ds) = increments l cs + increments l ds"
  "observations l (cs @ ds) = observations l cs + observations l ds"
  by (simp_all add: increments_def observations_def)

lemma on_finish_counts: "increments l (on_finish st c t) = observations l (on_finish st c t)"
  by (cases st) (simp add: on_finish_def Let_def increments_def observations_def)

lemma reported_counts: "increments l (reported h) = observations l (reported h)"
  by (induction h rule: reported.induct) (auto simp: on_finish_counts split: option.splits)

fun call_labels :: "call \<Rightarrow> labels" where
  "call_labels (Inc l) = l"
| "call_labels (Observe l _) = l"

lemma reported_labels: "c \<in> set (reported h) \<Longrightarrow> map fst (call_labels c) = [''method'', ''route'', ''status_code'']"
  by (induction h rule: reported.induct) (auto simp: on_finish_def labels_of_def Let_def split: option.splits)

definition arrivals :: "http_event list \<Rightarrow> nat" where
  "arrivals h = length (filter (\<lambda>e. case e of Arrives _ _ _ \<Rightarrow> True | _ \<Rightarrow> False) h)"

definition open_numbers :: "http_event list \<Rightarrow> nat set" where
  "open_numbers h = {i. open_request i h \<noteq> None}"

lemma open_numbers_simps [simp]:
  "open_numbers [] = {}"
  "open_numbers (Arrives i r t # h) = insert i (open_numbers h)"
  "open_numbers (Matched i p # h) = open_numbers h"
  "open_numbers (Finishes i c t # h) = open_numbers h - {i}"
  "open_numbers (Closes i # h) = open_numbers h - {i}"
  by (auto simp: open_numbers_def split: if_splits)

lemma arrivals_simps [simp]: "arrivals [] = 0" "arrivals (e # h) = (case e of Arrives _ _ _ \<Rightarrow> 1 | _ \<Rightarrow> 0) + arrivals h"
  by (auto simp: arrivals_def split: http_event.splits)

lemma finite_open [simp]: "finite (open_numbers h)"
proof (induction h)
  case (Cons e h)
  then show ?case by (cases e) auto
qed simp

lemma length_on_finish [simp]: "length (on_finish st c t) = 2"
  by (cases st) (simp add: on_finish_def Let_def)

text \<open>Every request is reported at most once: two calls for each arrival that is no longer open.\<close>

lemma reported_bound: "length (reported h) + 2 * card (open_numbers h) \<le> 2 * arrivals h"
proof (induction h)
  case (Cons e h)
  show ?case
  proof (cases e)
    case (Finishes i c t)
    have "open_request i h \<noteq> None \<Longrightarrow> card (open_numbers h) = Suc (card (open_numbers h - {i}))"
      by (rule card.remove [OF finite_open]) (auto simp: open_numbers_def)
    moreover have "card (open_numbers h - {i}) \<le> card (open_numbers h)" by (rule card_Diff1_le)
    ultimately show ?thesis using Finishes Cons by (auto split: option.splits)
  next
    case (Arrives i r t)
    have "card (insert i (open_numbers h)) \<le> Suc (card (open_numbers h))" by (simp add: card_insert_if)
    with Arrives Cons show ?thesis by simp
  next
    case (Closes i)
    have "card (open_numbers h - {i}) \<le> card (open_numbers h)" by (rule card_Diff1_le)
    with Closes Cons show ?thesis by simp
  qed (use Cons in simp)
qed simp

definition registries :: "metric list list" where
  "registries = [auth_registry, catalog_registry, order_registry, payment_registry, inventory_registry,
     notification_registry, gateway_registry]"

lemmas registry_defs = registries_def auth_registry_def catalog_registry_def order_registry_def payment_registry_def
  inventory_registry_def notification_registry_def gateway_registry_def

text \<open>Whatever happens to the requests, in any interleaving, the calls to the metrics are those of the
  finished ones, each with its method, the route it matched or else its path, its status and its
  duration; the counter and the histogram are called equally often with the same labels; the labels
  are the ones all seven services declare for both metrics; and no request is reported twice, nor
  before it is finished. The callbacks of the seven services are the same function.\<close>
theorem finished_requests_are_counted_once:
  "calls (observe_events es) = reported (rev es) \<and>
   increments l (calls (observe_events es)) = observations l (calls (observe_events es)) \<and>
   list_all (list_all (\<lambda>m. list_all (\<lambda>c. map fst (call_labels c) = labelNames m) (calls (observe_events es)))) registries \<and>
   length (calls (observe_events es)) + 2 * card (open_numbers (rev es)) \<le> 2 * arrivals es \<and>
   list_all (\<lambda>finish. finish = on_finish) service_callbacks"
proof -
  have calls: "calls (observe_events es) = reported (rev es)"
    using middleware_is_history by blast
  have "arrivals (rev es) = arrivals es"
    by (simp add: arrivals_def rev_filter [symmetric])
  then show ?thesis
    unfolding calls using reported_counts reported_labels reported_bound [of "rev es"] callbacks_agree
    by (simp add: registry_defs list_all_iff)
qed

end
