(* ===== verification/Gateway_Bootstrap.thy ===== *)
theory Gateway_Bootstrap
  imports Gateway Settings Metrics
begin

text \<open>
  The gateway as a process (\<open>gateway-service/src/main.ts\<close>): the Redis client, the rate limiter in front
  of everything, the proxies behind it and the application's own routes last. The limiter and its
  store are libraries: their decision and their counter are arguments.
\<close>

section \<open>Options\<close>

record redis_options =
  redis_url :: string
  maxRetriesPerRequest :: nat
  retryStrategy :: "nat \<Rightarrow> nat"
  lazyConnect :: bool

definition redis_client :: "process_env \<Rightarrow> redis_options" where
  "redis_client env = \<lparr>redis_url = (case env ''REDIS_URL'' of None \<Rightarrow> ''redis://localhost:6379'' | Some u \<Rightarrow> u),
     maxRetriesPerRequest = 5, retryStrategy = (\<lambda>_. 1000), lazyConnect = False\<rparr>"

record limiter_options =
  windowMs :: js_number
  limit :: js_number
  standardHeaders :: bool
  legacyHeaders :: bool
  passOnStoreError :: bool

definition rateLimit_options :: "process_env \<Rightarrow> limiter_options" where
  "rateLimit_options env = \<lparr>windowMs = env_number (env ''THROTTLE_TTL_MS'') 60000,
     limit = env_number (env ''THROTTLE_LIMIT'') 100,
     standardHeaders = True, legacyHeaders = False, passOnStoreError = True\<rparr>"

definition PROXY_TIMEOUT_MS :: "process_env \<Rightarrow> js_number" where
  "PROXY_TIMEOUT_MS env = env_number (env ''PROXY_TIMEOUT_MS'') 15000"

text \<open>The targets as the process finds them.\<close>

definition gateway_targets :: "process_env \<Rightarrow> gateway_env" where
  "gateway_targets env = \<lparr>AUTH_SERVICE_URL = env ''AUTH_SERVICE_URL'', ORDER_SERVICE_URL = env ''ORDER_SERVICE_URL'',
     PAYMENT_SERVICE_URL = env ''PAYMENT_SERVICE_URL'', INVENTORY_SERVICE_URL = env ''INVENTORY_SERVICE_URL'',
     CATALOG_SERVICE_URL = env ''CATALOG_SERVICE_URL''\<rparr>"

section \<open>A request\<close>

text \<open>What the limiter does with the answer of its store, the hits of a client in its window or an
  error: let the request through, answer 429, or hand an error on, which Express answers with 500.\<close>

datatype decision = Pass | TooManyRequests | StoreFailure

text \<open>A hit is a client and a time in milliseconds; the store, shared by the replicas, counts a new hit
  given the earlier ones.\<close>

record limiter_library =
  decide :: "limiter_options \<Rightarrow> nat result \<Rightarrow> decision"
  totalHits :: "limiter_options \<Rightarrow> (string \<times> nat) list \<Rightarrow> string \<Rightarrow> nat \<Rightarrow> nat"

text \<open>What becomes of a request: it is answered with a status, forwarded to a target with a path and a
  timeout, or handled by the application, its metrics middleware first and then its routes.\<close>

datatype outcome = Status nat | Forwarded string string js_number | Handled

definition behind_limiter :: "process_env \<Rightarrow> string \<Rightarrow> outcome" where
  "behind_limiter env path = (case forward (setupProxies (gateway_targets env)) path of
     Some (url, path') \<Rightarrow> Forwarded url path' (PROXY_TIMEOUT_MS env)
   | None \<Rightarrow> Handled)"

definition gateway_request :: "limiter_library \<Rightarrow> process_env \<Rightarrow> nat result \<Rightarrow> string \<Rightarrow> outcome" where
  "gateway_request lib env answer path = (case decide lib (rateLimit_options env) answer of
     TooManyRequests \<Rightarrow> Status 429
   | StoreFailure \<Rightarrow> Status 500
   | Pass \<Rightarrow> behind_limiter env path)"

text \<open>A request to one of the replicas; \<open>store_error\<close> is what Redis rejects the count with.\<close>

record gateway_call =
  replica :: nat
  client :: string
  at_time :: nat
  path_of :: string
  store_error :: "exn option"

definition hit_of :: "gateway_call \<Rightarrow> (string \<times> nat) list" where
  "hit_of r = (if store_error r = None then [(client r, at_time r)] else [])"

definition store_answer :: "limiter_library \<Rightarrow> process_env \<Rightarrow> (string \<times> nat) list \<Rightarrow> gateway_call \<Rightarrow> nat result" where
  "store_answer lib env h r = attempt (store_error r) (Inr (totalHits lib (rateLimit_options env) h (client r) (at_time r)))"

fun serve :: "limiter_library \<Rightarrow> process_env \<Rightarrow> (string \<times> nat) list \<Rightarrow> gateway_call list \<Rightarrow> outcome list" where
  "serve lib env h [] = []"
| "serve lib env h (r # rs) =
     gateway_request lib env (store_answer lib env h r) (path_of r) # serve lib env (h @ hit_of r) rs"

section \<open>Starting\<close>

text \<open>Node ends a process with an unhandled rejection unless a handler is installed; the first statement
  of \<open>bootstrap\<close> installs one. \<open>script_load\<close> is how the first command of the store ends.\<close>

definition survives :: "bool \<Rightarrow> exn option \<Rightarrow> bool" where
  "survives handler rejection \<longleftrightarrow> handler \<or> rejection = None"

record gateway_process =
  gateway_traced :: tracer
  gateway_redis :: redis_options
  gateway_limiter :: limiter_options
  gateway_proxies :: "proxy list"
  gateway_port :: config_value
  body_parser :: bool

definition gateway_main :: "(module_ref \<Rightarrow> string list) \<Rightarrow> process_env \<Rightarrow> exn option \<Rightarrow> gateway_process option" where
  "gateway_main lib env script_load = (let handler = True in
     if starts lib gateway_app \<and> survives handler script_load
     then Some \<lparr>gateway_traced = gateway_tracer env, gateway_redis = redis_client env,
       gateway_limiter = rateLimit_options env, gateway_proxies = setupProxies (gateway_targets env),
       gateway_port = listen_port env, body_parser = False\<rparr>
     else None)"

section \<open>The libraries\<close>

text \<open>Documented behaviour of the limiter: more hits than the limit are refused; an error of the store is
  passed over when \<open>passOnStoreError\<close> is set.\<close>

definition limiter_law :: "limiter_library \<Rightarrow> bool" where
  "limiter_law lib \<longleftrightarrow> (\<forall>opts n L. limit opts = js_int (int L) \<longrightarrow>
       decide lib opts (Inr n) = (if L < n then TooManyRequests else Pass)) \<and>
     (\<forall>opts e. decide lib opts (Inl e) = (if passOnStoreError opts then Pass else StoreFailure))"

text \<open>Documented behaviour of the store: a window of \<open>windowMs\<close> opens with the first hit of a client that
  has no open window. So when all hits of the client are older than the window at \<open>t\<close>, or later than
  \<open>t\<close> and within the window, those after \<open>t\<close> are counted.\<close>

definition hits_of :: "string \<Rightarrow> (string \<times> nat) list \<Rightarrow> nat" where
  "hits_of k h = length (filter (\<lambda>(k', _). k' = k) h)"

definition no_open_window :: "nat \<Rightarrow> nat \<Rightarrow> string \<Rightarrow> (string \<times> nat) list \<Rightarrow> bool" where
  "no_open_window W t k h \<longleftrightarrow> list_all (\<lambda>(k', u). k' = k \<longrightarrow> u + W \<le> t) h"

definition in_window :: "nat \<Rightarrow> nat \<Rightarrow> nat \<Rightarrow> bool" where
  "in_window W t u \<longleftrightarrow> t \<le> u \<and> u < t + W"

definition store_law :: "limiter_library \<Rightarrow> bool" where
  "store_law lib \<longleftrightarrow> (\<forall>opts W t k h b now. windowMs opts = js_int (int W) \<longrightarrow> no_open_window W t k h \<longrightarrow>
     list_all (\<lambda>(_, u). in_window W t u) b \<longrightarrow> in_window W t now \<longrightarrow>
     totalHits lib opts (h @ b) k now = Suc (hits_of k b))"

section \<open>Limits\<close>

definition counted :: "string \<Rightarrow> gateway_call \<Rightarrow> bool" where
  "counted k r \<longleftrightarrow> client r = k \<and> store_error r = None"

text \<open>The requests of a client that are refused.\<close>

definition refused :: "string \<Rightarrow> gateway_call list \<Rightarrow> outcome list \<Rightarrow> nat" where
  "refused k rs os = length (filter (\<lambda>(r, out). counted k r \<and> out = Status 429) (zip rs os))"

lemma refused_Cons [simp]:
  "refused k (r # rs) (out # os) = (if counted k r \<and> out = Status 429 then 1 else 0) + refused k rs os"
  by (simp add: refused_def)

lemma hits_of_append: "hits_of k (b @ hit_of r) = hits_of k b + (if counted k r then 1 else 0)"
  by (simp add: hits_of_def hit_of_def counted_def)

lemma behind_limiter_not_refused: "behind_limiter env path \<noteq> Status n"
  by (simp add: behind_limiter_def split: option.splits)

lemma limited_request:
  assumes "limiter_law lib" "limit (rateLimit_options env) = js_int (int L)"
  shows "gateway_request lib env (Inr n) path = (if L < n then Status 429 else behind_limiter env path)"
    and "gateway_request lib env (Inl e) path = behind_limiter env path"
  using assms by (simp_all add: gateway_request_def limiter_law_def rateLimit_options_def)

lemma serve_from:
  assumes law: "limiter_law lib" "store_law lib"
    and opts: "windowMs (rateLimit_options env) = js_int (int W)" "limit (rateLimit_options env) = js_int (int L)"
    and old: "\<And>k. no_open_window W t k h"
    and now: "list_all (\<lambda>(_, u). in_window W t u) b" "list_all (\<lambda>r. in_window W t (at_time r)) rs"
  shows "refused k rs (serve lib env (h @ b) rs) = (hits_of k b + length (filter (counted k) rs) - L) - (hits_of k b - L) \<and>
    list_all2 (\<lambda>r out. out = Status 429 \<and> store_error r = None \<or> out = behind_limiter env (path_of r)) rs (serve lib env (h @ b) rs)"
  using now
proof (induction rs arbitrary: b)
  case Nil
  show ?case by (simp add: refused_def)
next
  case (Cons r rs)
  have hit: "list_all (\<lambda>(_, u). in_window W t u) (b @ hit_of r)"
    using Cons.prems by (simp add: hit_of_def)
  have "totalHits lib (rateLimit_options env) (h @ b) (client r) (at_time r) = Suc (hits_of (client r) b)"
    using law(2) [unfolded store_law_def, rule_format, OF opts(1) old Cons.prems(1)] Cons.prems(2) by simp
  then have out: "gateway_request lib env (store_answer lib env (h @ b) r) (path_of r) =
      (if store_error r = None \<and> L < Suc (hits_of (client r) b) then Status 429 else behind_limiter env (path_of r))"
    by (cases "store_error r") (simp_all add: store_answer_def limited_request [OF law(1) opts(2)])
  show ?case
    using Cons.IH [OF hit] Cons.prems(2)
    by (auto simp: out hits_of_append counted_def behind_limiter_not_refused)
qed

text \<open>Numbers of the environment: unset, or written out in decimal.\<close>

definition set_to :: "string option \<Rightarrow> nat \<Rightarrow> nat \<Rightarrow> bool" where
  "set_to v fallback n \<longleftrightarrow> n < 2 ^ 53 \<and> (v = None \<and> n = fallback \<or> v = Some (string_of_nat n))"

lemma env_number_set_to: "set_to v fallback n \<Longrightarrow> env_number v (int fallback) = js_int (int n)"
  by (auto simp: set_to_def env_number_def number_of_small_text)

text \<open>C35: Behind the limiter the replicas share one count. In any burst of requests that arrive within one
  window, from any clients through any replicas, with Redis failing at any of them, a client whose
  window was closed before is refused exactly as many of its counted requests as exceed the limit;
  every other request, and every request whose count Redis rejects, is treated as if there were no
  limiter. The limit and the window are those of the environment, or 100 requests a minute, and
  nobody is refused for another client's requests.\<close>
theorem gateway_limits_and_fails_open:
  assumes "limiter_law lib" "store_law lib"
    and "set_to (env ''THROTTLE_LIMIT'') 100 L" "set_to (env ''THROTTLE_TTL_MS'') 60000 W"
    and "\<And>k. no_open_window W t k h" "list_all (\<lambda>r. in_window W t (at_time r)) rs"
  shows "refused k rs (serve lib env h rs) = length (filter (counted k) rs) - L \<and>
    list_all2 (\<lambda>r out. out = Status 429 \<and> store_error r = None \<or> out = behind_limiter env (path_of r)) rs (serve lib env h rs)"
proof -
  have "windowMs (rateLimit_options env) = js_int (int W)" "limit (rateLimit_options env) = js_int (int L)"
    using env_number_set_to [OF assms(3)] env_number_set_to [OF assms(4)] by (simp_all add: rateLimit_options_def)
  from serve_from [OF assms(1,2) this assms(5), of "[]" rs k] assms(6) show ?thesis by (simp add: hits_of_def)
qed

text \<open>A library that keeps to the laws: it counts the hits of the last window.\<close>

definition window_of :: "limiter_options \<Rightarrow> nat" where
  "window_of opts = (case windowMs opts of Fin x \<Rightarrow> nat \<lfloor>x\<rfloor> | _ \<Rightarrow> 0)"

definition counting_library :: limiter_library where
  "counting_library = \<lparr>decide = \<lambda>opts answer. (case answer of
       Inr n \<Rightarrow> if js_lt (limit opts) (js_int (int n)) then TooManyRequests else Pass
     | Inl e \<Rightarrow> if passOnStoreError opts then Pass else StoreFailure),
     totalHits = \<lambda>opts h k now. Suc (length (filter (\<lambda>(k', u). k' = k \<and> now < u + window_of opts) h))\<rparr>"

lemma counting_library_laws: "limiter_law counting_library" "store_law counting_library"
proof -
  show "limiter_law counting_library"
    by (auto simp: limiter_law_def counting_library_def js_int_def)
  have older: "filter (\<lambda>(k', u). k' = k \<and> now < u + W) h = []" if "no_open_window W t k h" "t \<le> now" for W t k now h
    using that by (fastforce simp: filter_empty_conv no_open_window_def list_all_iff)
  have recent: "filter (\<lambda>(k', u). k' = k \<and> now < u + W) b = filter (\<lambda>(k', _). k' = k) b"
    if "list_all (\<lambda>(_, u). in_window W t u) b" "now < t + W" for W t k now b
    using that by (fastforce intro!: filter_cong simp: list_all_iff in_window_def)
  show "store_law counting_library"
    unfolding store_law_def
  proof (intro allI impI)
    fix opts :: limiter_options and W t :: nat and k and h b :: "(string \<times> nat) list" and now :: nat
    assume "windowMs opts = js_int (int W)" and old: "no_open_window W t k h"
      and b: "list_all (\<lambda>(_, u). in_window W t u) b" and now: "in_window W t now"
    then have "window_of opts = W" "t \<le> now" "now < t + W"
      by (simp_all add: window_of_def js_int_def in_window_def)
    then show "totalHits counting_library opts (h @ b) k now = Suc (hits_of k b)"
      using older [OF old] recent [OF b] by (simp add: counting_library_def hits_of_def)
  qed
qed

definition small_limit :: process_env where
  "small_limit = [''THROTTLE_LIMIT'' \<mapsto> ''1'']"

definition three_calls :: "gateway_call list" where
  "three_calls = map (\<lambda>i. \<lparr>replica = i, client = ''10.0.0.1'', at_time = i, path_of = ''/orders'', store_error = None\<rparr>) [0, 1, 2]"

theorem gateway_limits_and_fails_open_witness:
  "refused ''10.0.0.1'' three_calls (serve counting_library small_limit [] three_calls) = 2"
proof -
  have "set_to (small_limit ''THROTTLE_LIMIT'') 100 1" "set_to (small_limit ''THROTTLE_TTL_MS'') 60000 60000"
    by (simp_all add: set_to_def small_limit_def string_of_nat.simps)
  moreover have "list_all (\<lambda>r. in_window 60000 0 (at_time r)) three_calls"
    by (simp add: three_calls_def in_window_def)
  ultimately show ?thesis
    using gateway_limits_and_fails_open [OF counting_library_laws, of small_limit 1 60000 0 "[]" three_calls "''10.0.0.1''"]
    by (simp add: no_open_window_def three_calls_def counted_def)
qed

section \<open>Starting and timeouts\<close>

lemma number_texts: "string_of_nat 10000 = ''10000''" "string_of_nat 15000 = ''15000''"
  by (simp_all add: string_of_nat.simps)

lemma deployed_numbers: "number_of_text ''10000'' = js_int 10000" "number_of_text ''15000'' = js_int 15000"
  using number_of_small_text [of 10000] number_of_small_text [of 15000] by (simp_all add: number_texts)

definition deployed :: process_env where
  "deployed = [''PROXY_TIMEOUT_MS'' \<mapsto> ''15000'', ''CATALOG_RPC_TIMEOUT_MS'' \<mapsto> ''10000'', ''INVENTORY_RPC_TIMEOUT_MS'' \<mapsto> ''10000'']"

text \<open>The gateway comes up whether or not Redis takes the first command of the store, limited and routed as
  its environment says, with the bodies of requests left unread for the proxies. Its timeout is
  longer than the order service's RPC timeout by default and with the values of the manifests, so
  the RPC ends first; with those values the breaker around the RPC is no longer below it.\<close>
theorem gateway_comes_up:
  assumes "nest_libraries lib"
  shows "(\<exists>p. gateway_main lib env script_load = Some p \<and> gateway_limiter p = rateLimit_options env \<and>
       passOnStoreError (gateway_limiter p) \<and> \<not> body_parser p \<and> gateway_proxies p = setupProxies (gateway_targets env)) \<and>
     js_lt (milliseconds (catalogRpcTimeoutMs None)) (PROXY_TIMEOUT_MS no_variables) \<and>
     js_lt (milliseconds (priceBreaker_timeout None)) (PROXY_TIMEOUT_MS no_variables) \<and>
     js_lt (milliseconds (catalogRpcTimeoutMs (deployed ''CATALOG_RPC_TIMEOUT_MS''))) (PROXY_TIMEOUT_MS deployed) \<and>
     js_lt (PROXY_TIMEOUT_MS deployed) (milliseconds (priceBreaker_timeout (deployed ''CATALOG_RPC_TIMEOUT_MS'')))"
proof -
  have "milliseconds (priceBreaker_timeout (Some ''10000'')) = js_int 100001000"
    using joined_digits [of 10000] round_double_int [of 100001000]
    by (simp add: priceBreaker_timeout_def catalogRpcTimeoutMs_def config_number_def text_1000 number_texts js_int_def)
  then show ?thesis
    using gateway_starts [OF assms]
    by (simp add: gateway_main_def survives_def rateLimit_options_def PROXY_TIMEOUT_MS_def env_number_def deployed_def
        no_variables_def catalogRpcTimeoutMs_def priceBreaker_timeout_def config_number_def deployed_numbers)
qed

theorem gateway_comes_up_witness:
  "\<exists>p. gateway_main documented_exports no_variables (Some (Error ''connect ECONNREFUSED'')) = Some p"
  using gateway_comes_up [OF documented_exports_law] by blast

end
