(* ===== verification/Payment_Retries.thy ===== *)
theory Payment_Retries
  imports Payment_Props Environment
begin

text \<open>
  A payment request on its way through the retry queues (\<open>rabbitmq.module.ts\<close> and the retry branch of
  \<open>payment.service.ts\<close>): delivered, sent to a delay queue when the gateway does not answer, dead-lettered back to
  the consumer when its time is over, and so on, against a gateway that is down for a while. Times are in
  milliseconds and count the delays of the queues.
\<close>

section \<open>A request and its delays\<close>

record in_flight =
  due :: nat
  carried_headers :: "x_death option"

record retry_state =
  books :: payment_state
  flight :: "in_flight option"

text \<open>A message published to a delay queue comes back to the consumer with what the broker notes of its death,
  if the queue dead-letters to the consumer's binding; published anywhere else it does not.\<close>

definition requeued :: "(string \<Rightarrow> x_death \<Rightarrow> x_death) \<Rightarrow> string option \<Rightarrow> nat \<Rightarrow> publication \<Rightarrow> in_flight option" where
  "requeued dead_letter env now p = (case route env (to_exchange p) (routing_key p) of
     None \<Rightarrow> None
   | Some q \<Rightarrow> (case (message_ttl q, dead_letter_to q) of
       (Some ttl, Some target) \<Rightarrow>
         (if target = (EXCHANGE, ''payment.requested'')
          then Some \<lparr>due = now + ttl, carried_headers = Some (dead_letter (queue_name q) [])\<rparr> else None)
     | _ \<Rightarrow> None))"

text \<open>One delivery: the handler runs with the gateway as it is at that time, and what it publishes first may
  be the request again.\<close>

definition deliver :: "(string \<Rightarrow> x_death \<Rightarrow> x_death) \<Rightarrow> string option \<Rightarrow> (nat \<Rightarrow> js_number \<Rightarrow> PaymentStatus result) \<Rightarrow>
    string \<Rightarrow> PaymentRequestedEvent \<Rightarrow> retry_state \<Rightarrow> retry_state" where
  "deliver dead_letter env gateway pid event s = (case flight s of
     None \<Rightarrow> s
   | Some m \<Rightarrow>
       (let s' = snd (handlePaymentRequested env no_payment_faults (gateway (due m)) pid event (carried_headers m) (books s));
            sent = drop (length (published (books s))) (published s') in
        \<lparr>books = s', flight = (case sent of [] \<Rightarrow> None | p # _ \<Rightarrow> requeued dead_letter env (due m) p)\<rparr>))"

section \<open>The schedule of the retries\<close>

text \<open>When the \<open>n\<close>-th delivery is due, with which headers, and what was published before it.\<close>

definition delivered_at :: "nat \<Rightarrow> nat \<Rightarrow> nat" where
  "delivered_at began n = (if n = 0 then began else began + 2000 + 5000 * (n - 1))"

definition headers_at :: "(string \<Rightarrow> x_death \<Rightarrow> x_death) \<Rightarrow> nat \<Rightarrow> x_death option" where
  "headers_at dead_letter n = (if n = 0 then None
     else Some (dead_letter (if n = 1 then ''payment.requested-queue.retry-1'' else ''payment.requested-queue.retry-2'') []))"

definition retry_message :: "string option \<Rightarrow> PaymentRequestedEvent \<Rightarrow> nat \<Rightarrow> publication" where
  "retry_message env event k = publication (retryExchange env) (retry_key (min k 1)) (PaymentRequested event)"

definition after_failures :: "(string \<Rightarrow> x_death \<Rightarrow> x_death) \<Rightarrow> string option \<Rightarrow> PaymentRequestedEvent \<Rightarrow> nat \<Rightarrow> nat \<Rightarrow>
    payment_state \<Rightarrow> retry_state" where
  "after_failures dead_letter env event began n s =
     \<lparr>books = s\<lparr>published := published s @ map (retry_message env event) [0..<n]\<rparr>,
      flight = Some \<lparr>due = delivered_at began n, carried_headers = headers_at dead_letter n\<rparr>\<rparr>"

definition first_death :: "(string \<Rightarrow> x_death \<Rightarrow> x_death) \<Rightarrow> bool" where
  "first_death dead_letter \<longleftrightarrow> (\<forall>q. dead_letter q [] = [(q, 1)])"

lemma headers_counted: "first_death dead_letter \<Longrightarrow> retry_count (headers_at dead_letter n) = min n 1"
  by (simp add: retry_count_def headers_at_def first_death_def)

lemma failed_attempt:
  assumes "find_row payment_orderId (pr_orderId event) (payments s) = None" and "fire (pr_total event) = Inl e"
    and "retry_count headers < MAX_RETRIES"
  shows "snd (handlePaymentRequested env no_payment_faults fire pid event headers s) =
    s\<lparr>published := published s @ [publication (retryExchange env) (retry_key (retry_count headers)) (PaymentRequested event)]\<rparr>"
  using assms
  by (simp add: handlePaymentRequested_def processPaymentRequested_def find_payment_def charge_def no_payment_faults_def Let_def)

lemma answered_attempt:
  assumes "find_row payment_orderId (pr_orderId event) (payments s) = None" and "fire (pr_total event) = Inr status"
    and "retry_count headers < MAX_RETRIES"
  shows "snd (handlePaymentRequested env no_payment_faults fire pid event headers s) =
    s\<lparr>payments := payments s @ [payment_row pid event status],
      published := published s @ [result_message env (pr_orderId event) status (Some pid)]\<rparr>"
  using assms
  by (cases status) (simp_all add: handlePaymentRequested_def processPaymentRequested_def find_payment_def charge_def
      no_payment_faults_def append_row_def payment_row_def publishResult_def result_message_def Let_def)

lemma retry_requeued:
  assumes "payment_exchange env = EXCHANGE"
  shows "requeued dead_letter env (delivered_at began n) (retry_message env event n) =
    Some \<lparr>due = delivered_at began (Suc n), carried_headers = headers_at dead_letter (Suc n)\<rparr>"
  using assms
  by (cases n) (simp_all add: requeued_def retry_message_def publication_def route_def payment_queues_def retry_key_cases
      delivered_at_def headers_at_def)

lemma result_not_requeued:
  assumes "payment_exchange env = EXCHANGE"
  shows "requeued dead_letter env now (result_message env oid status pid) = None"
  using assms by (simp add: requeued_def result_message_def publication_def route_def payment_queues_def retryExchange_def
      dlqExchange_def EXCHANGE_def)

lemma failed_delivery:
  assumes "first_death dead_letter" and "payment_exchange env = EXCHANGE"
    and "find_row payment_orderId (pr_orderId event) (payments s) = None"
    and "gateway (delivered_at began n) (pr_total event) = Inl e"
  shows "deliver dead_letter env gateway pid event (after_failures dead_letter env event began n s) =
    after_failures dead_letter env event began (Suc n) s"
proof -
  let ?s = "s\<lparr>published := published s @ map (retry_message env event) [0..<n]\<rparr>"
  have count: "retry_count (headers_at dead_letter n) = min n 1" using headers_counted [OF assms(1)] .
  have "snd (handlePaymentRequested env no_payment_faults (gateway (delivered_at began n)) pid event (headers_at dead_letter n) ?s) =
      ?s\<lparr>published := published ?s @ [retry_message env event n]\<rparr>"
    unfolding retry_message_def [of env event n] count [symmetric]
    by (rule failed_attempt) (use assms(3,4) count in \<open>simp_all add: MAX_RETRIES_def\<close>)
  then show ?thesis
    by (simp add: deliver_def after_failures_def Let_def retry_requeued [OF assms(2)])
qed

lemma deliveries_during_outage:
  assumes "first_death dead_letter" and "payment_exchange env = EXCHANGE"
    and "find_row payment_orderId (pr_orderId event) (payments s) = None"
    and "\<And>k. k < n \<Longrightarrow> \<exists>e. gateway (delivered_at began k) (pr_total event) = Inl e"
  shows "(deliver dead_letter env gateway pid event ^^ n) (after_failures dead_letter env event began 0 s) =
    after_failures dead_letter env event began n s"
  using assms(4)
proof (induction n)
  case (Suc n)
  then obtain e where "gateway (delivered_at began n) (pr_total event) = Inl e" by auto
  from failed_delivery [where gateway = gateway and n = n and s = s and env = env and event = event and began = began, OF assms(1-3) this] Suc
  show ?case by simp
qed simp

lemma answered_delivery:
  assumes "first_death dead_letter" and "payment_exchange env = EXCHANGE"
    and "find_row payment_orderId (pr_orderId event) (payments s) = None"
    and "gateway (delivered_at began n) (pr_total event) = Inr status"
  shows "deliver dead_letter env gateway pid event (after_failures dead_letter env event began n s) =
    \<lparr>books = s\<lparr>payments := payments s @ [payment_row pid event status],
       published := published s @ map (retry_message env event) [0..<n] @
         [result_message env (pr_orderId event) status (Some pid)]\<rparr>, flight = None\<rparr>"
proof -
  let ?s = "s\<lparr>published := published s @ map (retry_message env event) [0..<n]\<rparr>"
  have "snd (handlePaymentRequested env no_payment_faults (gateway (delivered_at began n)) pid event (headers_at dead_letter n) ?s) =
      ?s\<lparr>payments := payments ?s @ [payment_row pid event status],
        published := published ?s @ [result_message env (pr_orderId event) status (Some pid)]\<rparr>"
    by (rule answered_attempt) (use assms(3,4) headers_counted [OF assms(1)] in \<open>simp_all add: MAX_RETRIES_def\<close>)
  then show ?thesis
    by (simp add: deliver_def after_failures_def Let_def result_not_requeued [OF assms(2)])
qed

section \<open>An outage of the gateway\<close>

text \<open>The first delivery that is not before a given time comes within five seconds of it.\<close>

lemma first_delivery_after:
  obtains n where "T \<le> delivered_at began n" and "\<And>k. k < n \<Longrightarrow> delivered_at began k < T" and "delivered_at began n < max T (Suc began) + 5000"
proof -
  define n where "n = (LEAST n. T \<le> delivered_at began n)"
  have "T \<le> delivered_at began (Suc T)" by (simp add: delivered_at_def)
  then have late: "T \<le> delivered_at began n" unfolding n_def by (rule LeastI)
  have before: "delivered_at began k < T" if "k < n" for k
    using that not_less_Least [of k "\<lambda>n. T \<le> delivered_at began n"] by (auto simp: n_def)
  have "delivered_at began n < max T (Suc began) + 5000"
  proof (cases n)
    case (Suc k)
    have "delivered_at began n \<le> delivered_at began k + 5000" by (cases k) (simp_all add: Suc delivered_at_def)
    with before [of k] Suc show ?thesis by simp
  qed (simp add: delivered_at_def)
  with that late before show ?thesis by blast
qed


text \<open>A gateway that is down for a minute.\<close>

definition down_for_a_minute :: "nat \<Rightarrow> js_number \<Rightarrow> PaymentStatus result" where
  "down_for_a_minute t amount = (if t < 60000 then Inl (Error ''gateway timeout'') else Inr SUCCESS)"


section \<open>The failure rate of the simulated gateway\<close>

text \<open>\<open>PAYMENT_TRANSIENT_FAILURE_RATE\<close> is read as text when it is set; \<open><\<close> compares the draw with the number the text stands for.\<close>

definition transientFailureRate :: "string option \<Rightarrow> js_number" where
  "transientFailureRate env = (case env of None \<Rightarrow> round_double (2 / 10) | Some t \<Rightarrow> number_of_text t)"

definition simulated_gateway :: "string option \<Rightarrow> (nat \<Rightarrow> js_number \<times> js_number) \<Rightarrow> nat \<Rightarrow> js_number \<Rightarrow> PaymentStatus result" where
  "simulated_gateway env draws t amount = callPaymentGateway (transientFailureRate env) (draws t) amount"

text \<open>A text that is no number makes the gateway fail never, a whole number from one on makes it fail always.\<close>

lemma failure_rate_from_environment:
  "number_of_text v = NaN \<Longrightarrow> simulated_gateway (Some v) draws t amount \<noteq> Inl e"
  "1 \<le> n \<Longrightarrow> n < 2 ^ 53 \<Longrightarrow> fst (draws t) = Fin a \<Longrightarrow> a < 1 \<Longrightarrow>
    \<exists>e. simulated_gateway (Some (string_of_nat n)) draws t amount = Inl e"
proof -
  show "number_of_text v = NaN \<Longrightarrow> simulated_gateway (Some v) draws t amount \<noteq> Inl e"
    by (cases "fst (draws t)") (simp_all add: simulated_gateway_def transientFailureRate_def callPaymentGateway_def)
  assume n: "1 \<le> n" "n < 2 ^ 53" and a: "fst (draws t) = Fin a" "a < 1"
  then have "a < of_int (int n)" by (simp add: order_less_le_trans)
  then show "\<exists>e. simulated_gateway (Some (string_of_nat n)) draws t amount = Inl e"
    using n a by (simp add: simulated_gateway_def transientFailureRate_def callPaymentGateway_def number_of_small_text js_int_def)
qed

text \<open>With the rate set to \<open>1\<close>, as for a drill, a request circulates for good: every delivery sends it back, the
  third retry never becomes a failed payment, and the order is neither paid nor refused.\<close>
theorem request_circulates_at_rate_one:
  assumes "first_death dead_letter" and "payment_exchange env = EXCHANGE"
    and "find_row payment_orderId (pr_orderId event) (payments s) = None"
    and "\<And>t. \<exists>a. fst (draws t) = Fin a \<and> a < 1"
  shows "(deliver dead_letter env (simulated_gateway (Some ''1'') draws) pid event ^^ k) (after_failures dead_letter env event began 0 s) =
    after_failures dead_letter env event began k s \<and> payments (books (after_failures dead_letter env event began k s)) = payments s"
proof -
  have one: "string_of_nat 1 = ''1''" by (simp add: string_of_nat.simps)
  have "\<exists>e. simulated_gateway (Some ''1'') draws t (pr_total event) = Inl e" for t
    using failure_rate_from_environment(2) [of 1 draws t] assms(4) [of t] unfolding one by auto
  then show ?thesis
    using deliveries_during_outage [where gateway = "simulated_gateway (Some ''1'') draws" and n = k and s = s and env = env
        and event = event and began = began, OF assms(1-3)]
    by (simp add: after_failures_def)
qed

theorem request_circulates_at_rate_one_witness:
  "payments (books ((deliver rabbit_dead_letter None (simulated_gateway (Some ''1'') (\<lambda>_. (Fin 0, Fin 0))) ''p1'' a_payment_request ^^ 1000)
     (after_failures rabbit_dead_letter None a_payment_request 0 0 no_payments))) = []"
proof -
  have "first_death rabbit_dead_letter" by (simp add: first_death_def rabbit_dead_letter_def)
  moreover have "payment_exchange None = EXCHANGE" by (simp add: payment_exchange_def config_string_def EXCHANGE_def)
  moreover have "find_row payment_orderId (pr_orderId a_payment_request) (payments no_payments) = None"
    by (simp add: no_payments_def)
  ultimately show ?thesis
    using request_circulates_at_rate_one [where dead_letter = rabbit_dead_letter and env = None and event = a_payment_request
        and s = no_payments and draws = "\<lambda>_. (Fin 0, Fin 0)" and pid = "''p1''" and k = 1000 and began = 0]
    by (simp add: no_payments_def)
qed

end
