(* ===== verification/E2e_Specs.thy ===== *)
theory E2e_Specs
  imports Http_Api
begin

text \<open>
  The end-to-end tests \<open>test/app.e2e-spec.ts\<close> of six services, each as an evaluation of the model: the test
  compiles the application's modules, without what \<open>main.ts\<close> adds, and asks it for \<open>GET /\<close>.
\<close>

definition hello_handler :: "string \<Rightarrow> ('token, unit) http_handler" where
  "hello_handler greeting e user ps j st = (case e of
     GetHello \<Rightarrow> (Inr (Some (Greeting greeting)), st) | _ \<Rightarrow> (Inr None, st))"

definition get_root :: "'token http_call" where
  "get_root = \<lparr>call_verb = GET, call_path = ''/'', call_bearer = None, call_text = []\<rparr>"

text \<open>A test compiles an application and expects a status and a text.\<close>

definition expect_text :: "(module_ref \<Rightarrow> string list) \<Rightarrow> application \<Rightarrow> unit answer \<times> unit \<Rightarrow> nat \<Rightarrow> string \<Rightarrow> bool" where
  "expect_text exports app got status text \<longleftrightarrow> starts exports app \<and> fst got = Sent status (Greeting text)"

definition auth_e2e_spec :: "platform \<Rightarrow> (module_ref \<Rightarrow> string list) \<Rightarrow> bool" where
  "auth_e2e_spec lib exports \<longleftrightarrow> expect_text exports auth_app
     (serve lib (\<lambda>_ _. None) [] (\<lambda>p. p) TheAuth (hello_handler auth_getHello) get_root ()) 200 ''Hello World!''"

definition catalog_e2e_spec :: "platform \<Rightarrow> (module_ref \<Rightarrow> string list) \<Rightarrow> bool" where
  "catalog_e2e_spec lib exports \<longleftrightarrow> expect_text exports catalog_app
     (serve lib (\<lambda>_ _. None) [] (\<lambda>p. p) TheCatalog (hello_handler catalog_getHello) get_root ()) 200 ''Hello World!''"

definition payment_e2e_spec :: "platform \<Rightarrow> (module_ref \<Rightarrow> string list) \<Rightarrow> bool" where
  "payment_e2e_spec lib exports \<longleftrightarrow> expect_text exports payment_app
     (serve lib (\<lambda>_ _. None) [] (\<lambda>p. p) ThePayment (hello_handler payment_getHello) get_root ()) 200 ''Hello World!''"

definition inventory_e2e_spec :: "platform \<Rightarrow> (module_ref \<Rightarrow> string list) \<Rightarrow> bool" where
  "inventory_e2e_spec lib exports \<longleftrightarrow> expect_text exports inventory_app
     (serve lib (\<lambda>_ _. None) [] (\<lambda>p. p) TheInventory (hello_handler inventory_getHello) get_root ()) 200 ''Hello World!''"

definition notification_e2e_spec :: "platform \<Rightarrow> (module_ref \<Rightarrow> string list) \<Rightarrow> bool" where
  "notification_e2e_spec lib exports \<longleftrightarrow> expect_text exports notification_app
     (serve lib (\<lambda>_ _. None) [] (\<lambda>p. p) TheNotification (hello_handler notification_getHello) get_root ()) 200 ''Hello World!''"

definition gateway_e2e_spec :: "platform \<Rightarrow> (module_ref \<Rightarrow> string list) \<Rightarrow> bool" where
  "gateway_e2e_spec lib exports \<longleftrightarrow> expect_text exports gateway_app
     (serve lib (\<lambda>_ _. None) [] (\<lambda>p. p) TheGateway (hello_handler gateway_getHello) get_root ()) 200 ''Hello World!''"

lemma root_route:
  assumes "platform_law lib"
  shows "dispatch (match_path lib) (action GET [] False GetHello # rs) GET ''/'' = Some (action GET [] False GetHello, [])"
proof -
  have "match_path lib [] (path_text []) = seg_match [] []"
    using assms unfolding platform_law_def router_law_def by (simp only: list.pred_inject)
  then have "match_path lib [] ''/'' = Some []" by (simp add: path_text_def)
  then show ?thesis by (simp add: action_def)
qed

text \<open>All six tests pass, when the libraries' modules export what they document and the framework routes and
  parses as documented.\<close>
theorem e2e_specs_pass:
  assumes "platform_law lib" and "nest_libraries exports"
  shows "auth_e2e_spec lib exports \<and> catalog_e2e_spec lib exports \<and> payment_e2e_spec lib exports \<and>
    inventory_e2e_spec lib exports \<and> notification_e2e_spec lib exports \<and> gateway_e2e_spec lib exports"
proof -
  have "parse_body lib [] = Inr (JObject [])" using assms(1) by (simp add: platform_law_def)
  then show ?thesis
    using root_route [OF assms(1)] assms(2)
    by (simp add: auth_e2e_spec_def catalog_e2e_spec_def payment_e2e_spec_def inventory_e2e_spec_def notification_e2e_spec_def
        gateway_e2e_spec_def expect_text_def serve_def get_root_def routes_of_services hello_handler_def action_def
        auth_getHello_def catalog_getHello_def payment_getHello_def inventory_getHello_def notification_getHello_def gateway_getHello_def
        auth_starts catalog_starts payment_starts inventory_starts notification_starts gateway_starts)
qed

end
