(* ===== verification/Saga_E2e.thy ===== *)
theory Saga_E2e
  imports Http_Ownership System_Props
begin

text \<open>
  The system test \<open>order-service/test/saga.e2e-spec.ts\<close>: register a product and order it over HTTP, with a price of
  the client's own in the order, and wait for the order to end. Here over any state the system can
  reach, for any whole price and quantity, and for either answer of the payment gateway.
\<close>

definition new_product_json :: "string \<Rightarrow> string \<Rightarrow> js_number \<Rightarrow> json" where
  "new_product_json pid n x = JObject [(''productId'', JString pid), (''name'', JString n), (''price'', JNumber x)]"

text \<open>The order with a \<open>price\<close> in its item.\<close>

definition fake_price_json :: "string \<Rightarrow> string \<Rightarrow> js_number \<Rightarrow> js_number \<Rightarrow> json" where
  "fake_price_json customer pid q y = JObject [(''customerId'', JString customer),
     (''items'', JArray [JObject [(''productId'', JString pid), (''quantity'', JNumber q), (''price'', JNumber y)]])]"

record 'token e2e_world =
  e2e_platform :: platform
  e2e_verify :: "string \<Rightarrow> 'token \<Rightarrow> verified_payload option"
  e2e_secret :: "string option"
  e2e_catalog :: catalog_env
  e2e_order :: order_env
  e2e_gateway :: "js_number \<Rightarrow> PaymentStatus result"
  e2e_payment_id :: string

text \<open>The test: the answers to the two requests, and the system after the deliveries that end the order.\<close>

definition run_e2e :: "'token e2e_world \<Rightarrow> 'token \<Rightarrow> string \<Rightarrow> js_number \<Rightarrow> js_number \<Rightarrow> js_number \<Rightarrow> Product list \<Rightarrow> system \<Rightarrow>
    'token answer \<times> 'token answer \<times> system" where
  "run_e2e w token pid x q y products S =
     (let (createProduct, products') = catalog_http (e2e_platform w) (e2e_verify w) (e2e_secret w) (e2e_catalog w)
        (product_call (Some token) (new_product_json pid ''E2E product'' x)) products;
      (createOrder, db') = order_http (e2e_platform w) (e2e_verify w) (e2e_secret w) (ask_catalog products') (e2e_order w)
        (order_call (Some token) (fake_price_json ''e2e-customer'' pid q y)) (order_db (saga S));
      S' = S\<lparr>saga := (saga S)\<lparr>order_db := db'\<rparr>\<rparr>
      in (createProduct, createOrder, case createOrder of
          Sent _ (OrderSent order) \<Rightarrow> settle (e2e_gateway w) (e2e_payment_id w) (event_of order) S' | _ \<Rightarrow> S'))"

text \<open>What it expects: twice 201, the total from the catalog's price, a terminal status, and the total unchanged.\<close>

definition e2e_passes :: "'token answer \<times> 'token answer \<times> system \<Rightarrow> js_number \<Rightarrow> bool" where
  "e2e_passes result tot \<longleftrightarrow> (case result of
     (Sent created _, Sent placed (OrderSent order), T) \<Rightarrow> created = 201 \<and> placed = 201 \<and> order_total order = tot \<and>
       (case findOrder (order_id order) (order_db (saga T)) of
          None \<Rightarrow> False
        | Some row \<Rightarrow> order_status row \<in> {COMPLETED, CANCELLED} \<and> order_total row = tot)
   | _ \<Rightarrow> False)"

section \<open>The two requests\<close>

definition e2e_dto :: "string \<Rightarrow> js_number \<Rightarrow> CreateOrderDto" where
  "e2e_dto pid q = \<lparr>dto_customerId = ''e2e-customer'', dto_items = [\<lparr>dto_item_productId = pid, dto_item_quantity = q\<rparr>]\<rparr>"

definition e2e_product :: "string \<Rightarrow> js_number \<Rightarrow> CreateProductDto" where
  "e2e_product pid x = \<lparr>dto_productId = pid, dto_name = ''E2E product'', dto_price = x, dto_description = None\<rparr>"

lemma e2e_bodies:
  assumes "json_ok (JNumber x)" and "json_ok (JNumber q)" and "json_ok (JNumber y)"
  shows "\<exists>fs. new_product_json pid ''E2E product'' x = JObject fs \<and> json_ok (JObject fs) \<and>
      read_product_body (JObject fs) = Some \<lparr>pb_id = None, pb_dto = e2e_product pid x\<rparr>"
    and "\<exists>fs. fake_price_json ''e2e-customer'' pid q y = JObject fs \<and> json_ok (JObject fs) \<and>
      read_order_dto (JObject fs) = Inr (Some (e2e_dto pid q))"
  using assms
  by (simp_all add: new_product_json_def read_product_body_def body_string_def body_number_def body_optional_def e2e_product_def
      fake_price_json_def read_order_dto_def read_dto_item_def e2e_dto_def del: js_double.simps)

definition catalog_well :: "catalog_env \<Rightarrow> bool" where
  "catalog_well cenv \<longleftrightarrow> cat_find_fault cenv = None \<and> cat_save_fault cenv = None"

lemma product_registered:
  assumes "platform_law lib" and "verify (catalog_secretOrKey env) token = Some p" and "json_ok (JNumber x)" and "catalog_well cenv"
    and "find_row product_productId pid products = None"
  shows "catalog_http lib verify env cenv (product_call (Some token) (new_product_json pid ''E2E product'' x)) products =
    (Sent 201 (ProductSent (product_of_dto (cat_new_id cenv) (e2e_product pid x))),
     products @ [product_of_dto (cat_new_id cenv) (e2e_product pid x)])"
proof -
  obtain fs where fs: "new_product_json pid ''E2E product'' x = JObject fs" "json_ok (JObject fs)"
      "read_product_body (JObject fs) = Some \<lparr>pb_id = None, pb_dto = e2e_product pid x\<rparr>"
    using e2e_bodies(1) [OF assms(3,3,3)] by blast
  have "create_product (cat_is_uuid cenv) (cat_find_fault cenv) (cat_save_fault cenv) (cat_new_id cenv)
      \<lparr>pb_id = None, pb_dto = e2e_product pid x\<rparr> products =
    (Inr (product_of_dto (cat_new_id cenv) (e2e_product pid x)), products @ [product_of_dto (cat_new_id cenv) (e2e_product pid x)])"
    using assms(4,5) create_cases [of "cat_new_id cenv" "e2e_product pid x" products]
    by (simp add: create_product_def catalog_well_def e2e_product_def)
  from catalog_http_created [where verify = verify, OF assms(1,2) fs(2,3) this] show ?thesis by (simp only: fs(1))
qed

definition e2e_order_row :: "order_env \<Rightarrow> string \<Rightarrow> int \<Rightarrow> int \<Rightarrow> Order" where
  "e2e_order_row oenv pid x q = \<lparr>order_id = new_order_id oenv, order_customerId = ''e2e-customer'',
     order_items = [\<lparr>oi_productId = pid, oi_quantity = js_int q, oi_price = Some (js_int x)\<rparr>],
     order_total = js_int (x * q), order_status = PENDING, order_createdAt = now_iso oenv\<rparr>"

lemma e2e_total:
  assumes "0 \<le> x" and "0 \<le> q" and "x * q < 2 ^ 53"
  shows "order_sum [\<lparr>oi_productId = pid, oi_quantity = js_int q, oi_price = Some (js_int x)\<rparr>] = js_int (x * q)"
proof -
  let ?item = "\<lparr>oi_productId = pid, oi_quantity = js_int q, oi_price = Some (js_int x)\<rparr>"
  have "whole_item ?item" using assms by (auto simp: whole_item_def)
  moreover have "whole_amount ?item = x * q" by (simp add: whole_amount_def js_int_def)
  ultimately show ?thesis
    using order_sum_from [of "[?item]" 0] assms(3) by (simp add: order_sum_def del: foldl.simps)
qed

lemma order_placed:
  assumes "platform_law lib" and "verify (order_secretOrKey env) token = Some p"
    and "json_ok (JNumber (js_int q))" and "json_ok (JNumber y)"
    and "catalog_inv products" and "listed_price products pid = Some (js_int x)" and "database_well oenv db"
    and "0 \<le> x" and "0 \<le> q" and "x * q < 2 ^ 53"
  shows "order_http lib verify env (ask_catalog products) oenv (order_call (Some token) (fake_price_json ''e2e-customer'' pid (js_int q) y)) db =
    (Sent 201 (OrderSent (e2e_order_row oenv pid x q)), \<lparr>orders = orders db @ [e2e_order_row oenv pid x q],
      outbox_events = outbox_events db @ [outbox_of (new_outbox_id oenv) (e2e_order_row oenv pid x q)]\<rparr>)"
    and "createOrder (ask_catalog products) oenv (e2e_dto pid (js_int q)) db =
    (Inr (e2e_order_row oenv pid x q), \<lparr>orders = orders db @ [e2e_order_row oenv pid x q],
      outbox_events = outbox_events db @ [outbox_of (new_outbox_id oenv) (e2e_order_row oenv pid x q)]\<rparr>)"
proof -
  have "order_for oenv products (e2e_dto pid (js_int q)) = e2e_order_row oenv pid x q"
    using e2e_total [OF assms(8,9,10), of pid] by (simp add: order_for_def e2e_dto_def e2e_order_row_def assms(6) Let_def)
  moreover have "unknown_products products (e2e_dto pid (js_int q)) = []"
    by (simp add: unknown_products_def e2e_dto_def assms(6))
  ultimately show created: "createOrder (ask_catalog products) oenv (e2e_dto pid (js_int q)) db =
    (Inr (e2e_order_row oenv pid x q), \<lparr>orders = orders db @ [e2e_order_row oenv pid x q],
      outbox_events = outbox_events db @ [outbox_of (new_outbox_id oenv) (e2e_order_row oenv pid x q)]\<rparr>)"
    by (simp add: order_created_as_asked [OF assms(5,7)])
  obtain fs where fs: "fake_price_json ''e2e-customer'' pid (js_int q) y = JObject fs" "json_ok (JObject fs)"
      "read_order_dto (JObject fs) = Inr (Some (e2e_dto pid (js_int q)))"
    using e2e_bodies(2) [OF assms(3,3,4)] by blast
  show "order_http lib verify env (ask_catalog products) oenv (order_call (Some token) (fake_price_json ''e2e-customer'' pid (js_int q) y)) db =
    (Sent 201 (OrderSent (e2e_order_row oenv pid x q)), \<lparr>orders = orders db @ [e2e_order_row oenv pid x q],
      outbox_events = outbox_events db @ [outbox_of (new_outbox_id oenv) (e2e_order_row oenv pid x q)]\<rparr>)"
    unfolding fs(1) order_http_created [where verify = verify and fire = "ask_catalog products", OF assms(1,2) fs(2,3)] created by simp
qed

section \<open>Totals\<close>

text \<open>No handler writes an order's total.\<close>

definition order_totals :: "OrderDB \<Rightarrow> (string \<times> js_number) list" where
  "order_totals db = map (\<lambda>order. (order_id order, order_total order)) (orders db)"

lemma setStatus_totals [simp]: "order_totals (order_db (setStatus faults oid st s)) = order_totals (order_db s)"
  by (simp add: setStatus_db order_totals_def update_status_def update_rows_def)

lemma handlers_keep_totals [simp]:
  "order_totals (order_db (handleOrderCreated fire faults ev s)) = order_totals (order_db s)"
  "order_totals (order_db (handlePaymentSucceeded fire faults r s)) = order_totals (order_db s)"
  "order_totals (order_db (handlePaymentFailed fire faults r s)) = order_totals (order_db s)"
  by (auto simp: handleOrderCreated_def handlePaymentSucceeded_def handlePaymentFailed_def Let_def split: prod.splits sum.splits)

lemma settle_keeps_totals:
  "order_totals (order_db (saga (settle gateway pid ev S))) = order_totals (order_db (saga S))"
  by (simp add: settle_def Let_def saga_order_created_def payment_requested_def saga_payment_succeeded_def
      saga_payment_failed_def split: sum.split PaymentStatus.split)

lemma total_in_row:
  assumes "distinct (map order_id (orders db))" and "order \<in> set (orders db)" and "order_totals db' = order_totals db"
    and "findOrder (order_id order) db' = Some row"
  shows "order_total row = order_total order"
proof -
  have "row \<in> set (orders db')" and "order_id row = order_id order"
    using find_row_SomeD [OF assms(4)] by auto
  then have "(order_id order, order_total row) \<in> set (order_totals db)"
    unfolding assms(3) [symmetric] by (auto simp: order_totals_def intro!: rev_image_eqI)
  then obtain r where "r \<in> set (orders db)" "order_id r = order_id order" "order_total r = order_total row"
    by (auto simp: order_totals_def)
  with assms(1,2) show ?thesis by (metis find_row_member option.inject)
qed

section \<open>The test passes\<close>

text \<open>
  The stack the test runs against: the framework's law, a token both services accept, databases that
  answer, and a product and an order that nothing was recorded for yet.
\<close>

definition stack_ready :: "'token e2e_world \<Rightarrow> 'token \<Rightarrow> string \<Rightarrow> Product list \<Rightarrow> system \<Rightarrow> bool" where
  "stack_ready w token pid products S \<longleftrightarrow> platform_law (e2e_platform w) \<and>
     e2e_verify w (catalog_secretOrKey (e2e_secret w)) token \<noteq> None \<and> e2e_verify w (order_secretOrKey (e2e_secret w)) token \<noteq> None \<and>
     catalog_well (e2e_catalog w) \<and> database_well (e2e_order w) (order_db (saga S)) \<and>
     catalog_inv products \<and> find_row product_productId pid products = None \<and>
     findStock pid (world (saga S)) = None \<and> claim_status (world (saga S)) (new_order_id (e2e_order w)) = None"

lemma first_item_admissible:
  assumes "findStock pid db = None" and "0 < q" and "q \<le> DEFAULT_STOCK_QUANTITY"
  shows "admissible (map reserved_item (order_items (e2e_order_row oenv pid x q))) (\<lambda>p. avail p db - resv p db)"
  using assms by (simp add: admissible_def e2e_order_row_def reserved_item_def item_valid_def demand_def avail_def resv_def)

lemma product_listed:
  assumes "catalog_inv products" and "find_row product_productId pid products = None"
  shows "catalog_inv (products @ [product_of_dto i (e2e_product pid x)])"
    and "listed_price (products @ [product_of_dto i (e2e_product pid x)]) pid = Some x"
  using assms
  by (auto simp: catalog_inv_def listed_price_def find_row_append find_row_notin product_of_dto_def e2e_product_def find_row_None_iff)

lemma system_test_run:
  assumes "reachable system_start system_step S" and ready: "stack_ready w token pid products S"
    and "0 \<le> x" and "0 < q" and "q \<le> DEFAULT_STOCK_QUANTITY" and "x * q < 2 ^ 53"
    and "json_ok (JNumber (js_int x))" and "json_ok (JNumber (js_int q))" and "json_ok (JNumber y)"
    and "e2e_gateway w (js_int (x * q)) = Inr st"
  shows "\<exists>product order T row. run_e2e w token pid (js_int x) (js_int q) y products S = (Sent 201 product, Sent 201 (OrderSent order), T) \<and>
    order_id order = new_order_id (e2e_order w) \<and> order_total order = js_int (x * q) \<and> findOrder (order_id order) (order_db (saga T)) = Some row \<and>
    order_status row = (if st = SUCCESS then COMPLETED else CANCELLED) \<and> order_total row = js_int (x * q)"
proof -
  let ?row = "e2e_order_row (e2e_order w) pid x q"
  let ?ps = "products @ [product_of_dto (cat_new_id (e2e_catalog w)) (e2e_product pid (js_int x))]"
  let ?db = "\<lparr>orders = orders (order_db (saga S)) @ [?row],
      outbox_events = outbox_events (order_db (saga S)) @ [outbox_of (new_outbox_id (e2e_order w)) ?row]\<rparr>"
  define S' where "S' = S\<lparr>saga := (saga S)\<lparr>order_db := ?db\<rparr>\<rparr>"
  define T where "T = settle (e2e_gateway w) (e2e_payment_id w) (event_of ?row) S'"
  note r = ready [unfolded stack_ready_def]
  obtain p1 where p1: "e2e_verify w (catalog_secretOrKey (e2e_secret w)) token = Some p1" using r by blast
  obtain p2 where p2: "e2e_verify w (order_secretOrKey (e2e_secret w)) token = Some p2" using r by blast
  note product = product_registered [where verify = "e2e_verify w" and lib = "e2e_platform w", OF _ p1 assms(7)]
  note placed = order_placed [where verify = "e2e_verify w" and lib = "e2e_platform w" and products = ?ps and db = "order_db (saga S)"
      and oenv = "e2e_order w" and pid = pid, OF _ p2 assms(8,9)]
  have run: "run_e2e w token pid (js_int x) (js_int q) y products S =
      (Sent 201 (ProductSent (product_of_dto (cat_new_id (e2e_catalog w)) (e2e_product pid (js_int x)))), Sent 201 (OrderSent ?row), T)"
    using r assms(3,4,6) product_listed [of products pid] product [of "e2e_catalog w" pid products] placed(1) [of x]
    by (simp add: run_e2e_def S'_def T_def)
  have "S' = place_order (ask_catalog ?ps) (e2e_order w) (e2e_dto pid (js_int q)) S"
    using r assms(3,4,6) product_listed [of products pid] placed(2) [of x]
    by (simp add: place_order_def S'_def)
  then have "reachable system_start system_step S'"
    using reachable_step [OF assms(1) system_step.placed] by simp
  then have inv: "system_inv S'" by (rule system_inv_reachable)
  have keys: "distinct (map order_id (orders (order_db (saga S'))))"
    using inv by (auto simp: system_inv_def Let_def order_inv_def)
  have member: "?row \<in> set (orders (order_db (saga S')))" by (simp add: S'_def)
  have "status_of (order_id ?row) (saga T) = Some (if st = SUCCESS then COMPLETED else CANCELLED)"
    using settle_result [OF inv member _ first_item_admissible, of "e2e_gateway w" st "e2e_payment_id w"] r assms(4,5,10)
    by (simp add: S'_def T_def e2e_order_row_def Let_def)
  then obtain row where "findOrder (order_id ?row) (order_db (saga T)) = Some row"
    "order_status row = (if st = SUCCESS then COMPLETED else CANCELLED)"
    by (auto simp: status_of_def)
  moreover from this have "order_total row = js_int (x * q)"
    using total_in_row [OF keys member settle_keeps_totals] by (simp add: T_def e2e_order_row_def)
  ultimately show ?thesis using run by (force simp: e2e_order_row_def)
qed


definition local_stack :: "(string \<times> JwtPayload) e2e_world" where
  "local_stack = \<lparr>e2e_platform = plain_platform, e2e_verify = open_seen, e2e_secret = None,
     e2e_catalog = \<lparr>cat_is_uuid = (\<lambda>_. True), cat_find_fault = None, cat_save_fault = None, cat_new_id = ''k''\<rparr>,
     e2e_order = an_env ''o1'', e2e_gateway = (\<lambda>_. Inr FAILED), e2e_payment_id = ''p1''\<rparr>"


end
