(* ===== verification/Test_Databases.thy ===== *)
theory Test_Databases
  imports Settings Integration_Specs
begin

text \<open>
  The set-up of the integration tests (\<open>beforeAll\<close> and \<open>beforeEach\<close> of the five \<open>*.integration-spec.ts\<close>): each
  suite connects to a database of its own that TypeORM builds from the entities, and empties it before
  every test. The started container is the library's and is an argument.
\<close>

section \<open>Connections\<close>

record started_container =
  getHost :: string
  getPort :: nat
  getUsername :: string
  getPassword :: string
  getDatabase :: string

text \<open>The suites name no migrations, which is the empty text here, and leave \<open>migrationsRun\<close> out.\<close>

definition auth_test_source :: "started_container \<Rightarrow> connection" where
  "auth_test_source container = \<lparr>db_type = ''postgres'', db_host = Some (getHost container),
     db_port = PortNumber (round_double (of_nat (getPort container))), db_username = Some (getUsername container),
     db_password = Some (getPassword container), db_database = Some (getDatabase container),
     db_entities = [''User''], db_migrations = [], db_migrationsRun = None, db_synchronize = Some True\<rparr>"

definition catalog_test_source :: "started_container \<Rightarrow> connection" where
  "catalog_test_source container = \<lparr>db_type = ''postgres'', db_host = Some (getHost container),
     db_port = PortNumber (round_double (of_nat (getPort container))), db_username = Some (getUsername container),
     db_password = Some (getPassword container), db_database = Some (getDatabase container),
     db_entities = [''Product''], db_migrations = [], db_migrationsRun = None, db_synchronize = Some True\<rparr>"

definition order_test_source :: "started_container \<Rightarrow> connection" where
  "order_test_source container = \<lparr>db_type = ''postgres'', db_host = Some (getHost container),
     db_port = PortNumber (round_double (of_nat (getPort container))), db_username = Some (getUsername container),
     db_password = Some (getPassword container), db_database = Some (getDatabase container),
     db_entities = [''Order'', ''OutboxEvent''], db_migrations = [], db_migrationsRun = None, db_synchronize = Some True\<rparr>"

definition payment_test_source :: "started_container \<Rightarrow> connection" where
  "payment_test_source container = \<lparr>db_type = ''postgres'', db_host = Some (getHost container),
     db_port = PortNumber (round_double (of_nat (getPort container))), db_username = Some (getUsername container),
     db_password = Some (getPassword container), db_database = Some (getDatabase container),
     db_entities = [''Payment''], db_migrations = [], db_migrationsRun = None, db_synchronize = Some True\<rparr>"

definition inventory_test_source :: "started_container \<Rightarrow> connection" where
  "inventory_test_source container = \<lparr>db_type = ''postgres'', db_host = Some (getHost container),
     db_port = PortNumber (round_double (of_nat (getPort container))), db_username = Some (getUsername container),
     db_password = Some (getPassword container), db_database = Some (getDatabase container),
     db_entities = [''StockItem'', ''Reservation''], db_migrations = [], db_migrationsRun = None, db_synchronize = Some True\<rparr>"

text \<open>\<open>initialize\<close> on a fresh database: \<open>synchronize\<close> builds the tables of the entities, \<open>migrationsRun\<close> runs the
  migrations; without either the database stays as it is.\<close>

definition initialize :: "connection \<Rightarrow> ddl list \<Rightarrow> table list option" where
  "initialize c migrations = (if db_synchronize c = Some True then all_some (tables_of c)
     else if db_migrationsRun c = Some True then Some (migrated_tables migrations) else Some [])"

section \<open>Emptying the tables\<close>

text \<open>The tables with their rows; \<open>TRUNCATE TABLE a, b CASCADE\<close>. No table refers to another.\<close>

type_synonym 'row database = "(string \<times> 'row list) list"

definition truncate_tables :: "string list \<Rightarrow> 'row database \<Rightarrow> 'row database result" where
  "truncate_tables ns db = (if list_all (\<lambda>n. n \<in> set (map fst db)) ns
     then Inr (map (\<lambda>(n, rows). (n, if n \<in> set ns then [] else rows)) db)
     else Inl (Error ''relation does not exist''))"

text \<open>What each \<open>beforeEach\<close> empties.\<close>

definition auth_before_each :: "'row database \<Rightarrow> 'row database result" where
  "auth_before_each = truncate_tables [''users'']"

definition catalog_before_each :: "'row database \<Rightarrow> 'row database result" where
  "catalog_before_each = truncate_tables [''products'']"

definition order_before_each :: "'row database \<Rightarrow> 'row database result" where
  "order_before_each = truncate_tables [''orders'', ''outbox_events'']"

definition payment_before_each :: "'row database \<Rightarrow> 'row database result" where
  "payment_before_each = truncate_tables [''payments'']"

definition inventory_before_each :: "'row database \<Rightarrow> 'row database result" where
  "inventory_before_each = truncate_tables [''stock_items'', ''reservations'']"

lemmas test_source_defs = auth_test_source_def catalog_test_source_def order_test_source_def payment_test_source_def
  inventory_test_source_def

lemmas before_each_defs = auth_before_each_def catalog_before_each_def order_before_each_def payment_before_each_def
  inventory_before_each_def

text \<open>A suite is set up well when its database has the tables the application's has, and every test finds them
  all empty, whatever the tests before it left.\<close>

definition starts_clean :: "connection \<Rightarrow> connection \<Rightarrow> ddl list \<Rightarrow> ('row database \<Rightarrow> 'row database result) \<Rightarrow> bool" where
  "starts_clean test app migrations before_each \<longleftrightarrow> initialize app migrations \<noteq> None \<and>
     initialize test migrations = initialize app migrations \<and>
     (\<forall>db. map fst db = map table_name (the (initialize app migrations)) \<longrightarrow>
        before_each db = Inr (map (\<lambda>t. (table_name t, [])) (the (initialize app migrations))))"

lemma truncate_all:
  assumes "map fst db = names" and "set names \<subseteq> set ns" and "set ns \<subseteq> set names"
  shows "truncate_tables ns db = Inr (map (\<lambda>n. (n, [])) names)"
proof -
  have "set (map fst db) = set ns" unfolding assms(1) using assms(2,3) by (rule subset_antisym)
  then have all: "fst ` set db = set ns" by (simp only: set_map)
  have member: "fst e \<in> set ns" if "e \<in> set db" for e
    unfolding all [symmetric] using that by (rule imageI)
  have "map (\<lambda>(n, rows). (n, if n \<in> set ns then [] else rows)) db = map (\<lambda>e. (fst e, [])) db"
    by (rule map_cong [OF refl]) (use member in \<open>auto simp: split_def\<close>)
  also have "\<dots> = map (\<lambda>n. (n, [])) names" by (simp add: comp_def flip: assms(1))
  finally have "map (\<lambda>(n, rows). (n, if n \<in> set ns then [] else rows)) db = map (\<lambda>n. (n, [])) names" .
  moreover have "list_all (\<lambda>n. n \<in> set (map fst db)) ns" using all by (simp add: list_all_iff)
  ultimately show ?thesis by (simp only: truncate_tables_def if_True)
qed

lemma starts_cleanI:
  assumes "initialize test migrations = Some ts" and "initialize app migrations = Some ts"
    and "before_each = truncate_tables (map table_name ts)"
  shows "starts_clean test app migrations before_each"
  unfolding starts_clean_def assms by (auto simp: truncate_all [OF _ order_refl order_refl] comp_def)

lemma initialized:
  "initialize (auth_connection d env) auth_up = Some [derived_table user_entity]"
  "initialize (catalog_connection d env) catalog_up = Some [derived_table product_entity]"
  "initialize (order_connection d env) order_up = Some [derived_table order_entity, derived_table outbox_entity]"
  "initialize (payment_connection d env) payment_up = Some [derived_table payment_entity]"
  "initialize (inventory_connection d env) inventory_up = Some [derived_table stock_entity, derived_table reservation_entity]"
  "initialize (auth_test_source container) up = Some [derived_table user_entity]"
  "initialize (catalog_test_source container) up = Some [derived_table product_entity]"
  "initialize (order_test_source container) up = Some [derived_table order_entity, derived_table outbox_entity]"
  "initialize (payment_test_source container) up = Some [derived_table payment_entity]"
  "initialize (inventory_test_source container) up = Some [derived_table stock_entity, derived_table reservation_entity]"
  by (simp_all add: initialize_def connection_defs test_source_defs tables_of_def entity_class_def migrated)

lemma entity_tables:
  "table_name (derived_table user_entity) = ''users''" "table_name (derived_table product_entity) = ''products''"
  "table_name (derived_table order_entity) = ''orders''" "table_name (derived_table outbox_entity) = ''outbox_events''"
  "table_name (derived_table payment_entity) = ''payments''" "table_name (derived_table stock_entity) = ''stock_items''"
  "table_name (derived_table reservation_entity) = ''reservations''"
  by (simp_all add: derived_table_def user_entity_def product_entity_def order_entity_def outbox_entity_def payment_entity_def
      stock_entity_def reservation_entity_def)

text \<open>The tests of every service run on the tables the application runs on: although the suites build them
  from the entities and the applications from the migrations, the two are equal in every column; and each
  test finds them all empty, so that a suite's outcome does not depend on the order of its tests.\<close>
theorem integration_tests_start_clean:
  "starts_clean (auth_test_source container) (auth_connection d env) auth_up auth_before_each \<and>
   starts_clean (catalog_test_source container) (catalog_connection d env) catalog_up catalog_before_each \<and>
   starts_clean (order_test_source container) (order_connection d env) order_up order_before_each \<and>
   starts_clean (payment_test_source container) (payment_connection d env) payment_up payment_before_each \<and>
   starts_clean (inventory_test_source container) (inventory_connection d env) inventory_up inventory_before_each"
  by (intro conjI starts_cleanI [OF initialized(6) initialized(1)] starts_cleanI [OF initialized(7) initialized(2)]
      starts_cleanI [OF initialized(8) initialized(3)] starts_cleanI [OF initialized(9) initialized(4)]
      starts_cleanI [OF initialized(10) initialized(5)])
    (simp_all add: before_each_defs entity_tables)

end
