(* ===== verification/Shutdown.thy ===== *)
theory Shutdown
  imports Gateway_Bootstrap Relay
begin

text \<open>
  How a process ends. \<open>tracer.ts\<close> starts the tracing SDK and listens for \<open>SIGTERM\<close>: it shuts the SDK down and
  then exits. \<open>main.ts\<close> creates the application and listens. Nest calls \<open>onModuleDestroy\<close> when the application
  is closed, by the program or, after \<open>enableShutdownHooks\<close>, by a signal. The process here is that of the
  order service, which hosts the relay of \<open>Relay\<close>; the libraries have no listeners of their own. The promise of
  \<open>sdk.shutdown()\<close> is the library's: it may be fulfilled, be rejected or never settle.
\<close>

section \<open>The process\<close>

datatype listener = ShutDownTracing | NestShutdownHook

record service_process =
  sdk :: "tracer option"
  sigterm_listeners :: "listener list"
  shutdowns :: nat
  app_closing :: bool
  exit_code :: "nat option"
  hosted :: relay_state

definition node_process :: "relay_state \<Rightarrow> service_process" where
  "node_process s = \<lparr>sdk = None, sigterm_listeners = [], shutdowns = 0, app_closing = False, exit_code = None, hosted = s\<rparr>"

text \<open>The end of each \<open>tracer.ts\<close>: \<open>sdk.start()\<close> and the listener.\<close>

definition auth_tracing :: "process_env \<Rightarrow> service_process \<Rightarrow> service_process" where
  "auth_tracing env p = p\<lparr>sdk := Some (auth_tracer env), sigterm_listeners := sigterm_listeners p @ [ShutDownTracing]\<rparr>"

definition catalog_tracing :: "process_env \<Rightarrow> service_process \<Rightarrow> service_process" where
  "catalog_tracing env p = p\<lparr>sdk := Some (catalog_tracer env), sigterm_listeners := sigterm_listeners p @ [ShutDownTracing]\<rparr>"

definition order_tracing :: "process_env \<Rightarrow> service_process \<Rightarrow> service_process" where
  "order_tracing env p = p\<lparr>sdk := Some (order_tracer env), sigterm_listeners := sigterm_listeners p @ [ShutDownTracing]\<rparr>"

definition payment_tracing :: "process_env \<Rightarrow> service_process \<Rightarrow> service_process" where
  "payment_tracing env p = p\<lparr>sdk := Some (payment_tracer env), sigterm_listeners := sigterm_listeners p @ [ShutDownTracing]\<rparr>"

definition inventory_tracing :: "process_env \<Rightarrow> service_process \<Rightarrow> service_process" where
  "inventory_tracing env p = p\<lparr>sdk := Some (inventory_tracer env), sigterm_listeners := sigterm_listeners p @ [ShutDownTracing]\<rparr>"

definition notification_tracing :: "process_env \<Rightarrow> service_process \<Rightarrow> service_process" where
  "notification_tracing env p = p\<lparr>sdk := Some (notification_tracer env), sigterm_listeners := sigterm_listeners p @ [ShutDownTracing]\<rparr>"

definition gateway_tracing :: "process_env \<Rightarrow> service_process \<Rightarrow> service_process" where
  "gateway_tracing env p = p\<lparr>sdk := Some (gateway_tracer env), sigterm_listeners := sigterm_listeners p @ [ShutDownTracing]\<rparr>"

text \<open>What can be called on the application that bears on its end, and what the \<open>bootstrap\<close> of the order service
  calls; those of the other services call no more.\<close>

datatype app_call = Create | EnableShutdownHooks | Listen | Close

fun app_effect :: "app_call \<Rightarrow> service_process \<Rightarrow> service_process" where
  "app_effect EnableShutdownHooks p = p\<lparr>sigterm_listeners := sigterm_listeners p @ [NestShutdownHook]\<rparr>"
| "app_effect Close p = p\<lparr>app_closing := True\<rparr>"
| "app_effect _ p = p"

definition bootstrap_calls :: "app_call list" where
  "bootstrap_calls = [Create, Listen]"

definition started_with :: "app_call list \<Rightarrow> process_env \<Rightarrow> service_process" where
  "started_with made env = fold app_effect made (order_tracing env (node_process new_relay))"

section \<open>Signals and exit\<close>

text \<open>\<open>sdk.shutdown().finally(() => process.exit(0))\<close>, up to the promise.\<close>

fun on_sigterm :: "listener \<Rightarrow> service_process \<Rightarrow> service_process" where
  "on_sigterm ShutDownTracing p = p\<lparr>shutdowns := Suc (shutdowns p)\<rparr>"
| "on_sigterm NestShutdownHook p = p\<lparr>app_closing := True\<rparr>"

text \<open>Its end: \<open>finally\<close> runs for a fulfilled and a rejected promise alike.\<close>

definition shutdown_settled :: "bool \<Rightarrow> service_process \<Rightarrow> service_process" where
  "shutdown_settled fulfilled p = p\<lparr>shutdowns := shutdowns p - 1, exit_code := Some 0\<rparr>"

datatype process_event = Sigterm | ShutdownSettles bool | Runs relay_event

text \<open>A signal without a listener ends the process by itself. While the process is there, the relay goes on; its
  module is destroyed only when the application is closed.\<close>

definition process_next :: "process_event \<Rightarrow> service_process \<Rightarrow> service_process option" where
  "process_next e p = (if exit_code p \<noteq> None then None else case e of
     Sigterm \<Rightarrow> Some (if sigterm_listeners p = [] then p\<lparr>exit_code := Some 143\<rparr> else fold on_sigterm (sigterm_listeners p) p)
   | ShutdownSettles fulfilled \<Rightarrow> (if 0 < shutdowns p then Some (shutdown_settled fulfilled p) else None)
   | Runs re \<Rightarrow> (if re = OnModuleDestroy \<and> \<not> app_closing p then None
       else map_option (\<lambda>s. p\<lparr>hosted := s\<rparr>) (relay_next re (hosted p))))"

inductive process_step :: "service_process \<Rightarrow> process_event \<Rightarrow> service_process \<Rightarrow> bool" where
  "process_next e p = Some q \<Longrightarrow> process_step p e q"

inductive_simps process_step_iff: "process_step p e q"

section \<open>What every running process keeps\<close>

definition process_inv :: "service_process \<Rightarrow> bool" where
  "process_inv p \<longleftrightarrow> sigterm_listeners p = [ShutDownTracing] \<and> \<not> app_closing p \<and> exit_code p \<in> {None, Some 0} \<and>
     relay_inv (hosted p) \<and> \<not> destroyed (hosted p)"

lemma relay_alive:
  assumes "relay_next e s = Some t" and "e \<noteq> OnModuleDestroy" and "relay_inv s" and "\<not> destroyed s"
  shows "relay_inv t \<and> \<not> destroyed t"
proof
  show "relay_inv t"
    using relay.kept_by_step [OF assms(3), of e t] assms(1) by (simp add: relay_step_iff)
  show "\<not> destroyed t"
    using assms by (cases e) (auto simp: onModuleInit_def on_crash_def attempt_ends_def connectWithRetry_def
        split: if_splits phase.splits option.splits)
qed

interpretation order_process: inductive_invariant "\<lambda>p. p = started_with bootstrap_calls env" process_step process_inv
proof
  show "process_inv p" if "p = started_with bootstrap_calls env" for p
    using that by (simp add: process_inv_def started_with_def bootstrap_calls_def order_tracing_def node_process_def
        relay_inv_def new_relay_def)
  show "process_inv q" if "process_inv p" and "process_step p e q" for p e q
    using that relay_alive [of _ "hosted p"]
    by (cases e) (auto simp: process_step_iff process_next_def process_inv_def shutdown_settled_def split: if_splits)
qed

lemma signalled:
  assumes "process_inv p" and "exit_code p = None"
  shows "process_next Sigterm p = Some (p\<lparr>shutdowns := Suc (shutdowns p)\<rparr>)"
  using assms by (simp add: process_next_def process_inv_def)

lemma settled:
  assumes "exit_code p = None" and "0 < shutdowns p"
  shows "process_next (ShutdownSettles fulfilled) p = Some (shutdown_settled fulfilled p)"
  using assms by (simp add: process_next_def)

lemma exits_by_settling:
  assumes "process_inv p" and "process_step p e q" and "exit_code q \<noteq> None"
  shows "\<exists>fulfilled. e = ShutdownSettles fulfilled"
  using assms by (cases e) (auto simp: process_step_iff process_next_def process_inv_def split: if_splits)

text \<open>C25: A signal ends the order service with its relay in mid-flow. In every state the process can reach, the relay's module
  is not destroyed and the relay has not stopped: \<open>onModuleDestroy\<close> is never called, since neither
  \<open>enableShutdownHooks\<close> nor \<open>close\<close> is. From every such state a \<open>SIGTERM\<close> leaves the process running, and once the
  shutdown of the SDK settles, well or not, the process exits with code 0 with the relay as it was. Nothing else
  ends it: while the promise is open, no number of signals does.\<close>
theorem sigterm_never_closes_the_relay:
  assumes "reachable (\<lambda>p. p = started_with bootstrap_calls env) process_step p"
  shows "\<not> destroyed (hosted p) \<and> phase (hosted p) \<noteq> Stopped \<and>
    (exit_code p = None \<longrightarrow> (\<exists>q. process_step p Sigterm q \<and> exit_code q = None \<and> hosted q = hosted p \<and>
       (\<forall>fulfilled. \<exists>r. process_step q (ShutdownSettles fulfilled) r \<and> exit_code r = Some 0 \<and> hosted r = hosted p))) \<and>
    (\<forall>e q. process_step p e q \<and> exit_code q \<noteq> None \<longrightarrow> (\<exists>fulfilled. e = ShutdownSettles fulfilled \<and> exit_code q = Some 0))"
proof -
  have inv: "process_inv p" using assms by (rule order_process.holds_when_reachable)
  have ends: "exit_code q = Some 0" if "process_step p e q" "exit_code q \<noteq> None" for e q
    using order_process.kept_by_step [OF inv that(1)] that(2) by (auto simp: process_inv_def)
  have "\<exists>q. process_step p Sigterm q \<and> exit_code q = None \<and> hosted q = hosted p \<and>
      (\<forall>fulfilled. \<exists>r. process_step q (ShutdownSettles fulfilled) r \<and> exit_code r = Some 0 \<and> hosted r = hosted p)"
    if "exit_code p = None"
    using signalled [OF inv that] settled [of "p\<lparr>shutdowns := Suc (shutdowns p)\<rparr>"] that
    by (intro exI [of _ "p\<lparr>shutdowns := Suc (shutdowns p)\<rparr>"]) (simp add: process_step_iff shutdown_settled_def)
  moreover have "\<not> destroyed (hosted p)" and "phase (hosted p) \<noteq> Stopped"
    using inv by (auto simp: process_inv_def relay_inv_def)
  moreover have "\<exists>fulfilled. e = ShutdownSettles fulfilled \<and> exit_code q = Some 0"
    if "process_step p e q \<and> exit_code q \<noteq> None" for e q
    using that ends exits_by_settling [OF inv] by blast
  ultimately show ?thesis by blast
qed

text \<open>A relay that is consuming when the signal comes.\<close>

definition consuming_process :: service_process where
  "consuming_process = (started_with bootstrap_calls no_variables)\<lparr>hosted := \<lparr>destroyed = False, phase = Consuming, waited = 0\<rparr>\<rparr>"

lemma consuming_reachable:
  "reachable (\<lambda>p. p = started_with bootstrap_calls no_variables) process_step consuming_process"
proof -
  let ?p = "started_with bootstrap_calls no_variables"
  let ?q = "?p\<lparr>hosted := \<lparr>destroyed = False, phase = Connecting 0, waited = 0\<rparr>\<rparr>"
  have start: "exit_code ?p = None" "hosted ?p = new_relay" "\<not> app_closing ?p"
    by (simp_all add: started_with_def bootstrap_calls_def order_tracing_def node_process_def)
  have "process_step ?p (Runs OnModuleInit) ?q"
    using relay_starts start by (simp add: process_step_iff process_next_def del: relay_next.simps)
  moreover have "process_step ?q (Runs (AttemptEnds None)) consuming_process"
    using start by (simp add: process_step_iff process_next_def consuming_process_def attempt_ends_def)
  moreover have "reachable (\<lambda>p. p = ?p) process_step ?p" by (rule reachable_init) (rule refl)
  ultimately show ?thesis by (blast intro: reachable_step)
qed

theorem sigterm_never_closes_the_relay_witness:
  "\<exists>q r. process_step consuming_process Sigterm q \<and> process_step q (ShutdownSettles False) r \<and> exit_code r = Some 0 \<and>
     phase (hosted r) = Consuming"
proof -
  have "exit_code consuming_process = None" "phase (hosted consuming_process) = Consuming"
    by (simp_all add: consuming_process_def started_with_def bootstrap_calls_def order_tracing_def node_process_def)
  then show ?thesis using sigterm_never_closes_the_relay [OF consuming_reachable] by metis
qed

text \<open>With the hooks enabled the relay's module would be destroyed before the process exits.\<close>

lemma hooks_would_close_the_relay:
  "\<exists>p q. process_next Sigterm (started_with [Create, EnableShutdownHooks, Listen] env) = Some p \<and>
     process_next (Runs OnModuleDestroy) p = Some q \<and> destroyed (hosted q) \<and> exit_code q = None"
  by (simp add: process_next_def started_with_def order_tracing_def node_process_def onModuleDestroy_def)

text \<open>The tracing of all services is set up alike: each process reports under its own name and gets the one listener.\<close>

lemma tracing_alike:
  "list_all (\<lambda>(tracing, t). sdk (tracing env p) = Some (t env) \<and>
       sigterm_listeners (tracing env p) = sigterm_listeners p @ [ShutDownTracing])
     [(auth_tracing, auth_tracer), (catalog_tracing, catalog_tracer), (order_tracing, order_tracer),
      (payment_tracing, payment_tracer), (inventory_tracing, inventory_tracer),
      (notification_tracing, notification_tracer), (gateway_tracing, gateway_tracer)]"
  by (simp add: auth_tracing_def catalog_tracing_def order_tracing_def payment_tracing_def inventory_tracing_def
      notification_tracing_def gateway_tracing_def)

end
