(* ===== verification/Connector.thy ===== *)
theory Connector
  imports Wire Schema
begin

text \<open>
  From the outbox table to the relay: the connector that captures the table
  (\<open>manifests/outbox-connector-job.yaml\<close>, and the copy the system test registers), and the Kafka client of
  \<open>outbox-relay.service.ts\<close>. Debezium is the library: its event router is an argument with its documented law.
\<close>

section \<open>The connector\<close>

type_synonym connector_config = "(string \<times> string) list"

definition deployed_connector :: connector_config where
  "deployed_connector = [
     (''connector.class'', ''io.debezium.connector.postgresql.PostgresConnector''),
     (''database.hostname'', ''order-db''), (''database.port'', ''5432''), (''database.user'', ''postgres''),
     (''database.password'', ''postgres''), (''database.dbname'', ''order_db''),
     (''topic.prefix'', ''outboxcdc''), (''table.include.list'', ''public.outbox_events''),
     (''plugin.name'', ''pgoutput''), (''slot.name'', ''debezium_outbox_slot''),
     (''publication.name'', ''dbz_outbox_publication''), (''publication.autocreate.mode'', ''filtered''),
     (''time.precision.mode'', ''connect''),
     (''key.converter'', ''org.apache.kafka.connect.json.JsonConverter''),
     (''value.converter'', ''org.apache.kafka.connect.json.JsonConverter''),
     (''key.converter.schemas.enable'', ''false''), (''value.converter.schemas.enable'', ''false''),
     (''transforms'', ''outbox''), (''transforms.outbox.type'', ''io.debezium.transforms.outbox.EventRouter''),
     (''transforms.outbox.table.field.event.id'', ''id''),
     (''transforms.outbox.table.field.event.key'', ''aggregateId''),
     (''transforms.outbox.table.field.event.type'', ''eventType''),
     (''transforms.outbox.table.field.event.payload'', ''payload''),
     (''transforms.outbox.route.by.field'', ''aggregateType''),
     (''transforms.outbox.route.topic.replacement'', ''outbox.event.${routedByValue}'')]"

definition e2e_connector :: connector_config where
  "e2e_connector = [
     (''connector.class'', ''io.debezium.connector.postgresql.PostgresConnector''),
     (''database.hostname'', ''order-db''), (''database.port'', ''5432''), (''database.user'', ''postgres''),
     (''database.password'', ''postgres''), (''database.dbname'', ''order_db''),
     (''topic.prefix'', ''outboxcdc''), (''table.include.list'', ''public.outbox_events''),
     (''plugin.name'', ''pgoutput''), (''slot.name'', ''debezium_outbox_slot''),
     (''publication.name'', ''dbz_outbox_publication''), (''publication.autocreate.mode'', ''filtered''),
     (''time.precision.mode'', ''connect''),
     (''key.converter'', ''org.apache.kafka.connect.json.JsonConverter''),
     (''value.converter'', ''org.apache.kafka.connect.json.JsonConverter''),
     (''key.converter.schemas.enable'', ''false''), (''value.converter.schemas.enable'', ''false''),
     (''transforms'', ''outbox''), (''transforms.outbox.type'', ''io.debezium.transforms.outbox.EventRouter''),
     (''transforms.outbox.table.field.event.id'', ''id''),
     (''transforms.outbox.table.field.event.key'', ''aggregateId''),
     (''transforms.outbox.table.field.event.type'', ''eventType''),
     (''transforms.outbox.table.field.event.payload'', ''payload''),
     (''transforms.outbox.route.by.field'', ''aggregateType''),
     (''transforms.outbox.route.topic.replacement'', ''outbox.event.${routedByValue}'')]"

definition setting :: "connector_config \<Rightarrow> string \<Rightarrow> string option" where
  "setting cfg = map_of cfg"

section \<open>The event router\<close>

record kafka_message =
  kafka_topic :: string
  kafka_key :: string
  kafka_value :: string

text \<open>A captured row is its columns as text; a \<open>jsonb\<close> column as the text PostgreSQL prints.\<close>

type_synonym captured_row = "(string \<times> string) list"

definition outbox_columns :: "OutboxEvent \<Rightarrow> string \<Rightarrow> captured_row" where
  "outbox_columns row payload_text = [(''id'', outbox_id row), (''aggregateType'', aggregateType row),
     (''aggregateId'', aggregateId row), (''eventType'', eventType row), (''payload'', payload_text)]"

text \<open>The placeholder of a topic replaced.\<close>

function substitute :: "string \<Rightarrow> string \<Rightarrow> string \<Rightarrow> string" where
  "substitute pat r [] = []"
| "substitute pat r (c # cs) = (if pat \<noteq> [] \<and> take (length pat) (c # cs) = pat
     then r @ substitute pat r (drop (length pat) (c # cs)) else c # substitute pat r cs)"
  by pat_completeness auto

termination
  by (relation "measure (\<lambda>(pat, r, s). length s)") (auto simp: Suc_diff_le)

text \<open>Documented behaviour of the router: topic, key and value of a message come from the columns its settings
  name; the value is the payload's text, as it is or as a JSON string.\<close>

definition event_router_law :: "(connector_config \<Rightarrow> captured_row \<Rightarrow> kafka_message option) \<Rightarrow> bool" where
  "event_router_law router \<longleftrightarrow> (\<forall>cfg cols replacement by_field r key_field k payload_field p.
     setting cfg ''transforms.outbox.type'' = Some ''io.debezium.transforms.outbox.EventRouter'' \<and>
     setting cfg ''transforms.outbox.route.topic.replacement'' = Some replacement \<and>
     setting cfg ''transforms.outbox.route.by.field'' = Some by_field \<and> map_of cols by_field = Some r \<and>
     setting cfg ''transforms.outbox.table.field.event.key'' = Some key_field \<and> map_of cols key_field = Some k \<and>
     setting cfg ''transforms.outbox.table.field.event.payload'' = Some payload_field \<and> map_of cols payload_field = Some p \<longrightarrow>
     (\<exists>w \<in> set (wire_forms p). router cfg cols =
        Some \<lparr>kafka_topic = substitute ''${routedByValue}'' r replacement, kafka_key = k, kafka_value = w\<rparr>))"

section \<open>The relay's end\<close>

record kafka_client =
  clientId :: string
  brokers :: "string list"

definition relay_kafka :: "string option \<Rightarrow> kafka_client" where
  "relay_kafka env = \<lparr>clientId = ''order-service-outbox-relay'', brokers = [config_string env ''localhost:9092'']\<rparr>"

definition relay_topic :: string where
  "relay_topic = ''outbox.event.Order''"

record subscription =
  groupId :: string
  sub_topic :: string
  fromBeginning :: bool

definition relay_subscription :: subscription where
  "relay_subscription = \<lparr>groupId = ''outbox-relay'', sub_topic = relay_topic, fromBeginning = False\<rparr>"

text \<open>The values the consumer is handed of a topic.\<close>

definition handed_over :: "subscription \<Rightarrow> kafka_message list \<Rightarrow> string option list" where
  "handed_over sub ms = map (\<lambda>m. Some (kafka_value m)) (filter (\<lambda>m. kafka_topic m = sub_topic sub) ms)"

section \<open>They fit\<close>

lemma connectors_agree: "e2e_connector = deployed_connector"
  unfolding e2e_connector_def deployed_connector_def by (rule refl)

lemma settings:
  "setting deployed_connector ''table.include.list'' = Some ''public.outbox_events''"
  "setting deployed_connector ''transforms.outbox.type'' = Some ''io.debezium.transforms.outbox.EventRouter''"
  "setting deployed_connector ''transforms.outbox.table.field.event.id'' = Some ''id''"
  "setting deployed_connector ''transforms.outbox.table.field.event.type'' = Some ''eventType''"
  "setting deployed_connector ''transforms.outbox.route.topic.replacement'' = Some ''outbox.event.${routedByValue}''"
  "setting deployed_connector ''transforms.outbox.route.by.field'' = Some ''aggregateType''"
  "setting deployed_connector ''transforms.outbox.table.field.event.key'' = Some ''aggregateId''"
  "setting deployed_connector ''transforms.outbox.table.field.event.payload'' = Some ''payload''"
  by (simp_all add: setting_def deployed_connector_def)

lemma routed_topic: "substitute ''${routedByValue}'' ''Order'' ''outbox.event.${routedByValue}'' = relay_topic"
  by (simp add: relay_topic_def)

text \<open>The settings name the table of the outbox entity and columns it has.\<close>

lemma settings_name_columns:
  "''public.'' @ entity_table outbox_entity = the (setting deployed_connector ''table.include.list'') \<and>
   list_all (\<lambda>k. the (setting deployed_connector k) \<in> set (map column_name (columns (derived_table outbox_entity))))
     [''transforms.outbox.table.field.event.id'', ''transforms.outbox.table.field.event.key'',
      ''transforms.outbox.table.field.event.type'', ''transforms.outbox.table.field.event.payload'',
      ''transforms.outbox.route.by.field'']"
  by (simp add: settings outbox_entity_def derived_table_def)

lemma captured_routed:
  assumes "event_router_law router" and "aggregateType row = ''Order''"
  obtains w where "w \<in> set (wire_forms t)" and "router deployed_connector (outbox_columns row t) =
    Some \<lparr>kafka_topic = relay_topic, kafka_key = aggregateId row, kafka_value = w\<rparr>"
proof -
  have cols: "map_of (outbox_columns row t) ''aggregateType'' = Some ''Order''"
    "map_of (outbox_columns row t) ''aggregateId'' = Some (aggregateId row)"
    "map_of (outbox_columns row t) ''payload'' = Some t"
    using assms(2) by (simp_all add: outbox_columns_def)
  show ?thesis
    using assms(1) [unfolded event_router_law_def, rule_format, OF conjI, OF settings(2) conjI, OF settings(5) conjI,
        OF settings(6) conjI, OF cols(1) conjI, OF settings(7) conjI, OF cols(2) conjI, OF settings(8) cols(3)] that
    unfolding routed_topic by blast
qed

text \<open>C33: The event of an accepted order arrives: the connector of the manifests (and of the system test, which is the
  same) captures the entity's table, its settings name columns of it, and the row written with the order
  becomes a message of the topic the relay subscribes to, keyed by the order. Handed that message the relay
  publishes \<open>order.created\<close> once, and what the saga reads of it is the event that was stored, in whatever field
  order the database prints it. Assumed of the event router: what its documentation says of its settings.\<close>
theorem order_event_reaches_the_saga:
  assumes "event_router_law router" and "createOrder fire env dto db = (Inr order, db')"
    and "JSON_parse t = Inr j" and "same_value (event_json (event_of order)) j"
  shows "e2e_connector = deployed_connector \<and>
    setting deployed_connector ''table.include.list'' = Some (''public.'' @ entity_table outbox_entity) \<and>
    (\<exists>row m. outbox_events db' = outbox_events db @ [row] \<and> router deployed_connector (outbox_columns row t) = Some m \<and>
       kafka_key m = order_id order \<and>
       consume exchange [None] (handed_over relay_subscription [m]) sent =
         ([], sent @ [(relay_exchange exchange, ''order.created'', j)]) \<and>
       read_order_created j = Some (event_of order))"
proof -
  let ?row = "outbox_of (new_outbox_id env) order"
  have row: "outbox_events db' = outbox_events db @ [?row]"
    using assms(2) by (auto simp: createOrder_def split: sum.splits prod.splits dest: order_tx_Inr(3))
  have "aggregateType ?row = ''Order''" by (simp add: outbox_of_def)
  then obtain w where w: "w \<in> set (wire_forms t)" "router deployed_connector (outbox_columns ?row t) =
      Some \<lparr>kafka_topic = relay_topic, kafka_key = aggregateId ?row, kafka_value = w\<rparr>"
    by (rule captured_routed [OF assms(1)])
  have "aggregateId ?row = order_id order" by (simp add: outbox_of_def)
  moreover have "handed_over relay_subscription [\<lparr>kafka_topic = relay_topic, kafka_key = k, kafka_value = w\<rparr>] = [Some w]" for k
    by (simp add: handed_over_def relay_subscription_def)
  moreover have "setting deployed_connector ''table.include.list'' = Some (''public.'' @ entity_table outbox_entity)"
    using settings_name_columns settings(1) by simp
  ultimately show ?thesis
    using order_event_survives_the_wire [where exchange = exchange and sent = sent, OF assms(2-4) w(1)] row w(2) connectors_agree by auto
qed

text \<open>A router that keeps the law, writing the payload as a JSON string.\<close>

definition plain_router :: "connector_config \<Rightarrow> captured_row \<Rightarrow> kafka_message option" where
  "plain_router cfg cols = (case (setting cfg ''transforms.outbox.route.topic.replacement'', setting cfg ''transforms.outbox.route.by.field'',
       setting cfg ''transforms.outbox.table.field.event.key'', setting cfg ''transforms.outbox.table.field.event.payload'') of
     (Some replacement, Some by_field, Some key_field, Some payload_field) \<Rightarrow>
       (case (map_of cols by_field, map_of cols key_field, map_of cols payload_field) of
         (Some r, Some k, Some p) \<Rightarrow> Some \<lparr>kafka_topic = substitute ''${routedByValue}'' r replacement, kafka_key = k,
           kafka_value = JSON_stringify (JString p)\<rparr>
       | _ \<Rightarrow> None)
   | _ \<Rightarrow> None)"

lemma plain_router_law: "event_router_law plain_router"
  unfolding event_router_law_def plain_router_def wire_forms_def by (simp del: JSON_stringify.simps)

theorem order_event_reaches_the_saga_witness:
  "let j = event_json (event_of one_item_order) in
   consume None [None] (handed_over relay_subscription [the (plain_router deployed_connector
     (outbox_columns (outbox_of ''e1'' one_item_order) (JSON_stringify j)))]) [] = ([], [(''ecommerce.events'', ''order.created'', j)])"
proof -
  let ?j = "event_json (event_of one_item_order)"
  obtain row m where r: "outbox_events \<lparr>orders = [one_item_order], outbox_events = [outbox_of ''e1'' one_item_order]\<rparr> =
        outbox_events \<lparr>orders = [], outbox_events = []\<rparr> @ [row]"
      "plain_router deployed_connector (outbox_columns row (JSON_stringify ?j)) = Some m"
      "consume None [None] (handed_over relay_subscription [m]) [] = ([], [] @ [(relay_exchange None, ''order.created'', ?j)])"
    using order_event_reaches_the_saga [where exchange = None and sent = "[]", OF plain_router_law one_item_created parse_stringify [OF one_item_json_ok]
        same_value_refl [OF one_item_json_ok]] by blast
  then have "row = outbox_of ''e1'' one_item_order" by simp
  with r(2,3) show ?thesis unfolding Let_def by (simp add: relay_exchange_def config_string_def)
qed

end
