(* ===== verification/Registration_Races.thy ===== *)
theory Registration_Races
  imports Http_Api
begin

text \<open>
  Registrations that overlap. \<open>register\<close> of \<open>auth.service.ts\<close> and \<open>create\<close> of \<open>catalog.service.ts\<close> look for a row
  with the key and then insert one, in two statements: another request may run in between. Here any number of
  such requests are interleaved statement by statement. The locale \<open>check_then_insert\<close> is what the two
  operations have in common; it is interpreted on both.
\<close>

section \<open>Requests and turns\<close>

datatype ('q, 'a) client = Asked 'q | Checked 'q | Finished 'q "'a result"

record ('q, 'a, 'db) race =
  clients :: "('q, 'a) client list"
  rows :: 'db

text \<open>One statement of one client: the lookup, then the insert.\<close>

fun take_turn :: "('q \<Rightarrow> 'db \<Rightarrow> unit result) \<Rightarrow> ('q \<Rightarrow> 'db \<Rightarrow> 'a result \<times> 'db) \<Rightarrow> ('q, 'a) client \<Rightarrow> 'db \<Rightarrow> ('q, 'a) client \<times> 'db" where
  "take_turn check save (Asked q) db = (case check q db of Inl e \<Rightarrow> (Finished q (Inl e), db) | Inr _ \<Rightarrow> (Checked q, db))"
| "take_turn check save (Checked q) db = (case save q db of (r, db') \<Rightarrow> (Finished q r, db'))"
| "take_turn check save (Finished q r) db = (Finished q r, db)"

definition turn_of :: "('q \<Rightarrow> 'db \<Rightarrow> unit result) \<Rightarrow> ('q \<Rightarrow> 'db \<Rightarrow> 'a result \<times> 'db) \<Rightarrow> nat \<Rightarrow> ('q, 'a, 'db) race \<Rightarrow> ('q, 'a, 'db) race" where
  "turn_of check save i s = (if i < length (clients s)
     then (case take_turn check save (clients s ! i) (rows s) of (c, db) \<Rightarrow> \<lparr>clients = (clients s)[i := c], rows = db\<rparr>)
     else s)"

text \<open>A schedule says whose turn it is.\<close>

definition run_race :: "('q \<Rightarrow> 'db \<Rightarrow> unit result) \<Rightarrow> ('q \<Rightarrow> 'db \<Rightarrow> 'a result \<times> 'db) \<Rightarrow> 'q list \<Rightarrow> nat list \<Rightarrow> 'db \<Rightarrow> ('q, 'a, 'db) race" where
  "run_race check save qs schedule db = fold (turn_of check save) schedule \<lparr>clients = map Asked qs, rows = db\<rparr>"

fun request_of :: "('q, 'a) client \<Rightarrow> 'q" where
  "request_of (Asked q) = q"
| "request_of (Checked q) = q"
| "request_of (Finished q r) = q"

fun answer_to :: "('q, 'a) client \<Rightarrow> 'a result option" where
  "answer_to (Finished q r) = Some r"
| "answer_to _ = None"

definition accepted :: "('q, 'a) client \<Rightarrow> bool" where
  "accepted c \<longleftrightarrow> (case answer_to c of Some (Inr _) \<Rightarrow> True | _ \<Rightarrow> False)"

text \<open>The accepted requests for a key.\<close>

definition winners :: "('q \<Rightarrow> 'k) \<Rightarrow> 'k \<Rightarrow> ('q, 'a, 'db) race \<Rightarrow> ('q, 'a) client list" where
  "winners key k s = filter (\<lambda>c. accepted c \<and> key (request_of c) = k) (clients s)"

lemma length_filter_update:
  "i < length xs \<Longrightarrow> \<not> P (xs ! i) \<Longrightarrow> length (filter P (xs[i := x])) = length (filter P xs) + (if P x then 1 else 0)"
proof (induction xs arbitrary: i)
  case (Cons y ys)
  then show ?case by (cases i) auto
qed simp

section \<open>What every schedule keeps\<close>

locale check_then_insert =
  fixes key :: "'q \<Rightarrow> 'k" and find :: "'k \<Rightarrow> 'db \<Rightarrow> 'r option"
    and check :: "'q \<Rightarrow> 'db \<Rightarrow> unit result" and save :: "'q \<Rightarrow> 'db \<Rightarrow> 'a result \<times> 'db"
  assumes save_new: "save q db = (Inr a, db') \<Longrightarrow> find (key q) db = None \<and> find (key q) db' \<noteq> None"
    and save_refused: "save q db = (Inl e, db') \<Longrightarrow> db' = db"
    and save_other: "save q db = (r, db') \<Longrightarrow> k \<noteq> key q \<Longrightarrow> find k db' = find k db"
begin

definition won_once :: "'db \<Rightarrow> ('q, 'a, 'db) race \<Rightarrow> bool" where
  "won_once start s \<longleftrightarrow> (\<forall>k. length (winners key k s) =
     (if find k start = None \<and> find k (rows s) \<noteq> None then 1 else 0) \<and>
     (find k start \<noteq> None \<longrightarrow> find k (rows s) = find k start))"

lemma winners_turn:
  assumes "i < length (clients s)" and "answer_to (clients s ! i) = None"
  shows "length (winners key k \<lparr>clients = (clients s)[i := c], rows = db\<rparr>) =
    length (winners key k s) + (if accepted c \<and> key (request_of c) = k then 1 else 0)"
  using length_filter_update [OF assms(1), of "\<lambda>c. accepted c \<and> key (request_of c) = k" c] assms(2)
  by (simp add: winners_def accepted_def)

lemma won_once_turn:
  assumes "won_once start s"
  shows "won_once start (turn_of check save i s)"
proof (cases "i < length (clients s) \<and> answer_to (clients s ! i) = None")
  case False
  then have "turn_of check save i s = s"
    by (cases s, cases "clients s ! i") (auto simp: turn_of_def list_update_same_conv)
  with assms show ?thesis by simp
next
  case i: True
  show ?thesis
  proof (cases "clients s ! i")
    case (Asked q)
    have "turn_of check save i s = \<lparr>clients = (clients s)[i := fst (take_turn check save (Asked q) (rows s))], rows = rows s\<rparr>"
      using i Asked by (simp add: turn_of_def split: sum.split)
    moreover have "\<not> accepted (fst (take_turn check save (Asked q) (rows s)))"
      by (simp add: accepted_def split: sum.split)
    ultimately show ?thesis using assms winners_turn [of i s _ _ "rows s"] i by (simp add: won_once_def)
  next
    case (Checked q)
    obtain r db' where r: "save q (rows s) = (r, db')" by force
    then have turn: "turn_of check save i s = \<lparr>clients = (clients s)[i := Finished q r], rows = db'\<rparr>"
      using i Checked by (simp add: turn_of_def)
    have count: "length (winners key k (turn_of check save i s)) =
        length (winners key k s) + (if (\<exists>a. r = Inr a) \<and> key q = k then 1 else 0)" for k
      unfolding turn using winners_turn [of i s k "Finished q r" db'] i
      by (simp add: accepted_def split: sum.split)
    show ?thesis
    proof (cases r)
      case (Inl e)
      with save_refused [of q "rows s" e db'] r turn count assms show ?thesis by (simp add: won_once_def)
    next
      case (Inr a)
      note new = save_new [OF r [unfolded Inr]] and others = save_other [OF r]
      show ?thesis
        unfolding won_once_def
      proof (intro allI conjI impI)
        fix k
        show "length (winners key k (turn_of check save i s)) =
            (if find k start = None \<and> find k (rows (turn_of check save i s)) \<noteq> None then 1 else 0)"
          using count [of k] assms [unfolded won_once_def, rule_format, of k] new others [of k] Inr turn
          by (cases "k = key q") auto
        show "find k (rows (turn_of check save i s)) = find k start" if "find k start \<noteq> None"
          using that assms [unfolded won_once_def, rule_format, of k] new others [of k] turn by (cases "k = key q") auto
      qed
    qed
  qed (use i in simp)
qed

lemma race_won_once: "won_once db (run_race check save qs schedule db)"
proof -
  have start: "won_once db \<lparr>clients = map Asked qs, rows = db\<rparr>"
    by (simp add: won_once_def winners_def accepted_def comp_def filter_map del: not_None_eq)
  have "won_once db s \<Longrightarrow> won_once db (fold (turn_of check save) schedule s)" for s
    by (induction schedule arbitrary: s) (auto intro: won_once_turn)
  from this [OF start] show ?thesis by (simp only: run_race_def)
qed

lemma requests_stay: "map request_of (clients (run_race check save qs schedule db)) = qs"
proof -
  have turn: "map request_of (clients (turn_of check save i s)) = map request_of (clients s)" for i s
  proof (cases "i < length (clients s)")
    case True
    have "request_of (fst (take_turn check save c db)) = request_of c" for c db
      by (cases c) (auto split: sum.split prod.split)
    with True show ?thesis
      by (simp add: turn_of_def map_update list_update_same_conv split: prod.split) (metis fst_conv)
  qed (simp add: turn_of_def)
  have "map request_of (clients (fold (turn_of check save) schedule s)) = map request_of (clients s)" for s
    by (induction schedule arbitrary: s) (simp_all add: turn)
  then show ?thesis by (simp add: run_race_def comp_def)
qed

lemma race_keeps:
  assumes "P db" and "\<And>q db r db'. P db \<Longrightarrow> save q db = (r, db') \<Longrightarrow> P db'"
  shows "P (rows (run_race check save qs schedule db))"
proof -
  have turn: "P (rows (turn_of check save i s))" if "P (rows s)" for i s
    using that assms(2) by (cases "clients s ! i") (auto simp: turn_of_def split: sum.split prod.split)
  have "P (rows s) \<Longrightarrow> P (rows (fold (turn_of check save) schedule s))" for s
    by (induction schedule arbitrary: s) (simp_all add: turn)
  with assms(1) show ?thesis by (simp add: run_race_def)
qed

lemma winners_at_most_one: "length (winners key k (run_race check save qs schedule db)) \<le> 1"
  using race_won_once [of db qs schedule] by (simp add: won_once_def)

lemma taken_stays:
  "find k db \<noteq> None \<Longrightarrow> winners key k (run_race check save qs schedule db) = [] \<and>
     find k (rows (run_race check save qs schedule db)) = find k db"
  using race_won_once [of db qs schedule] unfolding won_once_def
  by (metis (no_types, lifting) length_0_conv)

end

text \<open>Requests none of whose statements fails for another reason are refused only because their key is taken.\<close>

locale reliable_check_then_insert = check_then_insert key find check save
  for key :: "'q \<Rightarrow> 'k" and find :: "'k \<Rightarrow> 'db \<Rightarrow> 'r option"
    and check :: "'q \<Rightarrow> 'db \<Rightarrow> unit result" and save :: "'q \<Rightarrow> 'db \<Rightarrow> 'a result \<times> 'db" +
  fixes sound :: "'q \<Rightarrow> bool"
  assumes check_free: "sound q \<Longrightarrow> find (key q) db = None \<Longrightarrow> \<exists>u. check q db = Inr u"
    and save_free: "sound q \<Longrightarrow> find (key q) db = None \<Longrightarrow> \<exists>a db'. save q db = (Inr a, db')"
begin

definition answered_taken :: "('q, 'a, 'db) race \<Rightarrow> bool" where
  "answered_taken s \<longleftrightarrow> (\<forall>c \<in> set (clients s). sound (request_of c) \<longrightarrow> answer_to c \<noteq> None \<longrightarrow>
     find (key (request_of c)) (rows s) \<noteq> None)"

lemma take_turn_taken:
  assumes "take_turn check save c db = (c', db')" and "answer_to c = None"
  shows "(sound (request_of c') \<longrightarrow> answer_to c' \<noteq> None \<longrightarrow> find (key (request_of c')) db' \<noteq> None) \<and>
    (\<forall>k. find k db \<noteq> None \<longrightarrow> find k db' \<noteq> None)"
proof (cases c)
  case (Asked q)
  then show ?thesis using assms(1) check_free [of q db] by (cases "find (key q) db") (auto split: sum.splits)
next
  case (Checked q)
  then obtain r where r: "save q db = (r, db')" "c' = Finished q r" using assms(1) by (auto split: prod.splits)
  show ?thesis
  proof (cases r)
    case (Inl e)
    with save_refused [of q db e db'] save_free [of q db] r show ?thesis by (cases "find (key q) db") auto
  next
    case (Inr a)
    with save_new [of q db a db'] save_other [of q db r db'] r show ?thesis by (metis request_of.simps(3))
  qed
qed (use assms(2) in simp)

lemma answered_taken_turn:
  assumes "answered_taken s"
  shows "answered_taken (turn_of check save i s)"
proof (cases "i < length (clients s) \<and> answer_to (clients s ! i) = None")
  case False
  then have "turn_of check save i s = s"
    by (cases s, cases "clients s ! i") (auto simp: turn_of_def list_update_same_conv)
  with assms show ?thesis by simp
next
  case True
  obtain c db where t: "take_turn check save (clients s ! i) (rows s) = (c, db)" by force
  note taken = take_turn_taken [OF t conjunct2 [OF True]]
  have "turn_of check save i s = \<lparr>clients = (clients s)[i := c], rows = db\<rparr>"
    using True t by (simp add: turn_of_def)
  then show ?thesis
    using taken assms set_update_subset_insert [of "clients s" i c] unfolding answered_taken_def by auto
qed

lemma race_answered_taken: "answered_taken (run_race check save qs schedule db)"
proof -
  have "answered_taken s \<Longrightarrow> answered_taken (fold (turn_of check save) schedule s)" for s
    by (induction schedule arbitrary: s) (auto intro: answered_taken_turn)
  moreover have "answered_taken \<lparr>clients = map Asked qs, rows = db\<rparr>" by (simp add: answered_taken_def)
  ultimately show ?thesis by (simp add: run_race_def)
qed

text \<open>Of the requests for a free key that have all been answered exactly one was accepted.\<close>

lemma one_winner:
  assumes "q \<in> set qs" and "sound q" and "find (key q) db = None"
    and "\<And>c. c \<in> set (clients (run_race check save qs schedule db)) \<Longrightarrow> answer_to c \<noteq> None"
  shows "length (winners key (key q) (run_race check save qs schedule db)) = 1"
proof -
  obtain c where c: "c \<in> set (clients (run_race check save qs schedule db))" "request_of c = q"
    using assms(1) requests_stay [of qs schedule db] by (metis imageE set_map)
  then have "find (key q) (rows (run_race check save qs schedule db)) \<noteq> None"
    using race_answered_taken [of qs schedule db] assms(2,4) c by (auto simp: answered_taken_def)
  then show ?thesis using race_won_once [of db qs schedule] assms(3) by (simp add: won_once_def)
qed

end

section \<open>Registering a user\<close>

text \<open>The lookup of \<open>register\<close>, and the rest of it: the hash and the insert.\<close>

definition register_check :: "register_env \<times> Credentials \<Rightarrow> User list \<Rightarrow> unit result" where
  "register_check q users = (case q of (env, dto) \<Rightarrow>
     (case attempt (user_lookup_fault env) (Inr (find_user (cred_email dto) users)) of
        Inl e \<Rightarrow> Inl e
      | Inr (Some _) \<Rightarrow> Inl (ConflictException ''Email already registered'')
      | Inr None \<Rightarrow> Inr ()))"

definition register_save :: "(string \<Rightarrow> string) \<Rightarrow> register_env \<times> Credentials \<Rightarrow> User list \<Rightarrow> Profile result \<times> User list" where
  "register_save h q users = (case q of (env, dto) \<Rightarrow>
     (case attempt (hash_fault env) (Inr (new_user h env dto)) of
        Inl e \<Rightarrow> (Inl e, users)
      | Inr user \<Rightarrow> (case attempt (user_save_fault env) (insert_row user_email user users) of
          Inl e \<Rightarrow> (Inl e, users)
        | Inr users' \<Rightarrow> (Inr (profile_of user), users'))))"

lemma register_in_two: "register h env dto users =
    (case register_check (env, dto) users of Inl e \<Rightarrow> (Inl e, users) | Inr _ \<Rightarrow> register_save h (env, dto) users)"
  by (auto simp: register_def register_check_def register_save_def split: sum.split option.split)

definition sound_env :: "register_env \<Rightarrow> bool" where
  "sound_env env \<longleftrightarrow> user_lookup_fault env = None \<and> hash_fault env = None \<and> user_save_fault env = None"

lemma register_save_Inr:
  "register_save h q users = (Inr pr, users') \<Longrightarrow> cred_email (snd q) \<notin> user_email ` set users \<and>
     users' = users @ [new_user h (fst q) (snd q)]"
  by (auto simp: register_save_def attempt_Inr insert_row_Inr new_user_def split: prod.splits sum.splits)

lemma register_save_Inl: "register_save h q users = (Inl e, users') \<Longrightarrow> users' = users"
  by (auto simp: register_save_def split: prod.splits sum.splits)

interpretation registration: reliable_check_then_insert "cred_email \<circ> snd" find_user register_check "register_save h" "sound_env \<circ> fst"
proof
  fix q users users' k r a
  show "find_user ((cred_email \<circ> snd) q) users = None \<and> find_user ((cred_email \<circ> snd) q) users' \<noteq> None"
    if "register_save h q users = (Inr a, users')"
    using register_save_Inr [OF that] by (simp add: find_row_append find_row_notin new_user_def)
  show "find_user k users' = find_user k users" if "register_save h q users = (r, users')" "k \<noteq> (cred_email \<circ> snd) q"
    using that register_save_Inr [of h q users] register_save_Inl [of h q users]
    by (cases r) (auto simp: find_row_append new_user_def split: option.split)
  show "\<exists>u. register_check q users = Inr u" if "(sound_env \<circ> fst) q" "find_user ((cred_email \<circ> snd) q) users = None"
    using that by (cases q) (simp add: register_check_def sound_env_def)
  show "\<exists>a users'. register_save h q users = (Inr a, users')"
    if "(sound_env \<circ> fst) q" "find_user ((cred_email \<circ> snd) q) users = None"
    using that by (cases q) (simp add: register_save_def sound_env_def insert_row_def new_user_def find_row_None_iff)
qed (rule register_save_Inl)

section \<open>Registering a product\<close>

type_synonym product_request = "(exn option \<times> exn option \<times> string) \<times> CreateProductDto"

definition product_check :: "product_request \<Rightarrow> Product list \<Rightarrow> unit result" where
  "product_check q products = (case q of ((lookup, save, pk), dto) \<Rightarrow> check_unregistered lookup dto products)"

definition product_save :: "product_request \<Rightarrow> Product list \<Rightarrow> Product result \<times> Product list" where
  "product_save q products = (case q of ((lookup, save, pk), dto) \<Rightarrow> save_product save pk dto products)"

lemma create_in_two: "create lookup save pk dto products = (case product_check ((lookup, save, pk), dto) products of
    Inl e \<Rightarrow> (Inl e, products) | Inr _ \<Rightarrow> product_save ((lookup, save, pk), dto) products)"
  by (simp add: create_def product_check_def product_save_def split: sum.split)

lemma product_save_Inr:
  "product_save q products = (Inr p, products') \<Longrightarrow> dto_productId (snd q) \<notin> product_productId ` set products \<and>
     products' = products @ [product_of_dto (snd (snd (fst q))) (snd q)]"
  by (auto simp: product_save_def save_product_def attempt_Inr insert_row_Inr product_of_dto_def split: prod.splits sum.splits)

lemma product_save_Inl: "product_save q products = (Inl e, products') \<Longrightarrow> products' = products"
  by (auto simp: product_save_def save_product_def split: prod.splits sum.splits)

definition sound_request :: "product_request \<Rightarrow> bool" where
  "sound_request q \<longleftrightarrow> fst (fst q) = None \<and> fst (snd (fst q)) = None"

interpretation products: reliable_check_then_insert "dto_productId \<circ> snd" "find_row product_productId" product_check product_save sound_request
proof
  fix q products products' k r a
  show "find_row product_productId ((dto_productId \<circ> snd) q) products = None \<and>
      find_row product_productId ((dto_productId \<circ> snd) q) products' \<noteq> None" if "product_save q products = (Inr a, products')"
    using product_save_Inr [OF that] by (simp add: find_row_append find_row_notin product_of_dto_def)
  show "find_row product_productId k products' = find_row product_productId k products"
    if "product_save q products = (r, products')" "k \<noteq> (dto_productId \<circ> snd) q"
    using that product_save_Inr [of q products] product_save_Inl [of q products]
    by (cases r) (auto simp: find_row_append product_of_dto_def split: option.split)
  show "\<exists>u. product_check q products = Inr u"
    if "sound_request q" "find_row product_productId ((dto_productId \<circ> snd) q) products = None"
    using that by (cases q) (auto simp: product_check_def check_unregistered_def sound_request_def)
  show "\<exists>a products'. product_save q products = (Inr a, products')"
    if "sound_request q" "find_row product_productId ((dto_productId \<circ> snd) q) products = None"
    using that by (cases q) (auto simp: product_save_def save_product_def sound_request_def insert_row_def product_of_dto_def find_row_None_iff)
qed (rule product_save_Inl)

section \<open>Races\<close>

lemma new_email:
  assumes "sound_env env" and "find_user (cred_email dto) users = None"
  shows "register_check (env, dto) users = Inr ()"
    and "register_save h (env, dto) users = (Inr (profile_of (new_user h env dto)), users @ [new_user h env dto])"
proof -
  have "insert_row user_email (new_user h env dto) users = Inr (users @ [new_user h env dto])"
    using assms(2) by (intro insert_row_fresh) (simp add: new_user_def find_row_None_iff)
  then show "register_check (env, dto) users = Inr ()"
    "register_save h (env, dto) users = (Inr (profile_of (new_user h env dto)), users @ [new_user h env dto])"
    using assms by (simp_all add: register_check_def register_save_def sound_env_def)
qed

lemma registered_email:
  assumes "sound_env env" and "cred_email dto \<in> user_email ` set users"
  shows "register_check (env, dto) users = Inl (ConflictException ''Email already registered'')"
    and "register_save h (env, dto) users = (Inl (Error ''duplicate key value violates unique constraint''), users)"
proof -
  have "insert_row user_email (new_user h env dto) users = Inl (Error ''duplicate key value violates unique constraint'')"
    using assms(2) by (auto simp: insert_row_def new_user_def)
  moreover obtain u where "find_user (cred_email dto) users = Some u"
    using assms(2) find_row_None_iff [of user_email "cred_email dto" users] by (cases "find_user (cred_email dto) users") auto
  ultimately show "register_check (env, dto) users = Inl (ConflictException ''Email already registered'')"
    "register_save h (env, dto) users = (Inl (Error ''duplicate key value violates unique constraint''), users)"
    using assms(1) by (simp_all add: register_check_def register_save_def sound_env_def)
qed

text \<open>C38: However registrations overlap, an email is registered once: whatever the schedule and whatever fails, no email
  gets two accounts or two answers with a profile, and a registered user keeps the row it had; and when all have
  been answered, each new email that a request without faults asked for has exactly one. But the loser of a race
  is not told what a late comer is told: after both have looked, the second insert meets the unique column, and
  the answer is \<open>500\<close> where a registration after the other is answered \<open>409\<close>.\<close>
theorem racing_registrations:
  assumes "users_inv users" and "find_user (cred_email dto) users = None" and "cred_email dto' = cred_email dto"
    and "sound_env env" and "sound_env env'"
  shows "(let s = run_race register_check (register_save h) qs schedule users in
      distinct (map user_email (rows s)) \<and>
      (\<forall>email. length (winners (cred_email \<circ> snd) email s) \<le> 1 \<and>
         (find_user email users \<noteq> None \<longrightarrow> winners (cred_email \<circ> snd) email s = [] \<and> find_user email (rows s) = find_user email users)) \<and>
      (list_all (\<lambda>c. answer_to c \<noteq> None) (clients s) \<longrightarrow> (\<forall>(e, d) \<in> set qs. sound_env e \<and> find_user (cred_email d) users = None \<longrightarrow>
         length (winners (cred_email \<circ> snd) (cred_email d) s) = 1))) \<and>
    map (map_option (map_sum nest_status id) \<circ> answer_to)
      (clients (run_race register_check (register_save h) [(env, dto), (env', dto')] [0, 1, 0, 1] users)) =
      [Some (Inr (profile_of (new_user h env dto))), Some (Inl 500)] \<and>
    map (map_option (map_sum nest_status id) \<circ> answer_to)
      (clients (run_race register_check (register_save h) [(env, dto), (env', dto')] [0, 0, 1, 1] users)) =
      [Some (Inr (profile_of (new_user h env dto))), Some (Inl 409)]"
proof -
  let ?s = "run_race register_check (register_save h) qs schedule users"
  have member: "cred_email dto' \<in> user_email ` set (users @ [new_user h env dto])"
    using assms(3) by (simp add: new_user_def)
  note taken = registered_email(1) [OF assms(5) member] registered_email(2) [OF assms(5) member, of h]
  note first = new_email(1) [OF assms(4,2)] new_email(2) [OF assms(4,2), of h]
    and second = new_email(1) [OF assms(5), of dto' users, unfolded assms(3), OF assms(2)]
  have keeps: "distinct (map user_email users')"
    if "distinct (map user_email us)" "register_save h q us = (r, users')" for us q r users'
    using that register_save_Inr [of h q us] register_save_Inl [of h q us]
    by (cases r) (auto simp: new_user_def)
  have "distinct (map user_email (rows ?s))"
    by (rule registration.race_keeps [of "\<lambda>us. distinct (map user_email us)"])
      (use assms(1) keeps in \<open>auto simp: users_inv_def\<close>)
  moreover have "length (winners (cred_email \<circ> snd) email ?s) \<le> 1" for email
    by (rule registration.winners_at_most_one)
  moreover have "winners (cred_email \<circ> snd) email ?s = [] \<and> find_user email (rows ?s) = find_user email users"
    if "find_user email users \<noteq> None" for email
    using registration.taken_stays [OF that] .
  moreover have "length (winners (cred_email \<circ> snd) (cred_email d) ?s) = 1"
    if "list_all (\<lambda>c. answer_to c \<noteq> None) (clients ?s)" "(e, d) \<in> set qs" "sound_env e" "find_user (cred_email d) users = None" for e d
    using registration.one_winner [where db = users and h = h and schedule = schedule, OF that(2)] that(1,3,4) by (simp add: list_all_iff)
  moreover have "map (map_option (map_sum nest_status id) \<circ> answer_to)
      (clients (run_race register_check (register_save h) [(env, dto), (env', dto')] [0, 1, 0, 1] users)) =
      [Some (Inr (profile_of (new_user h env dto))), Some (Inl 500)]"
    "map (map_option (map_sum nest_status id) \<circ> answer_to)
      (clients (run_race register_check (register_save h) [(env, dto), (env', dto')] [0, 0, 1, 1] users)) =
      [Some (Inr (profile_of (new_user h env dto))), Some (Inl 409)]"
    by (simp_all add: run_race_def turn_of_def first second taken)
  ultimately show ?thesis unfolding Let_def by (intro conjI allI impI ballI) (blast | auto)+
qed

theorem racing_registrations_witness:
  "let qs = [(no_register_faults ''u1'', a_user), (no_register_faults ''u2'', a_user)]; go = run_race register_check (register_save mark_hash) qs in
   length (winners (cred_email \<circ> snd) ''a@b.c'' (go [1, 0, 1, 0] [])) \<le> 1 \<and>
   map (map_option (map_sum nest_status id) \<circ> answer_to) (clients (go [0, 1, 0, 1] [])) =
     [Some (Inr (profile_of (new_user mark_hash (no_register_faults ''u1'') a_user))), Some (Inl 500)]"
proof -
  let ?qs = "[(no_register_faults ''u1'', a_user), (no_register_faults ''u2'', a_user)]"
  have "users_inv []" "find_user (cred_email a_user) [] = None" "sound_env (no_register_faults u)" for u
    by (simp_all add: users_inv_def sound_env_def no_register_faults_def)
  note race = racing_registrations [where env = "no_register_faults ''u1''" and env' = "no_register_faults ''u2''" and h = mark_hash
      and qs = ?qs and schedule = "[1, 0, 1, 0]", OF this(1,2) refl this(3,3)]
  then show ?thesis unfolding Let_def by blast
qed

text \<open>Products likewise: one row for each \<open>productId\<close> under every schedule.\<close>

theorem racing_products:
  assumes "catalog_inv products"
  shows "let s = run_race product_check product_save qs schedule products in
    catalog_inv (rows s) \<and> (\<forall>pid. length (winners (dto_productId \<circ> snd) pid s) \<le> 1 \<and>
      (find_row product_productId pid products \<noteq> None \<longrightarrow> find_row product_productId pid (rows s) = find_row product_productId pid products))"
proof -
  have keeps: "catalog_inv products'" if "catalog_inv ps" "product_save q ps = (r, products')" for ps q r products'
    using that product_save_Inr [of q ps] product_save_Inl [of q ps]
    by (cases r) (auto simp: catalog_inv_def product_of_dto_def)
  have "catalog_inv (rows (run_race product_check product_save qs schedule products))"
    by (rule products.race_keeps [of catalog_inv]) (use assms keeps in blast)+
  then show ?thesis
    using products.winners_at_most_one products.taken_stays by (simp add: Let_def)
qed

end
