(* ===== verification/Spec2Isabelle.thy ===== *)
theory Spec2Isabelle
  imports Row_Progress Saga_Props System_Props Notification Relay Delivery Integration_Specs Http_Ownership Config Topology
    Schema Settings Health Metrics Gateway_Bootstrap Payment_Retries E2e_Specs Saga_E2e Test_Databases Shutdown Connector
    Registration_Races
begin

text \<open>
  A verification development of the e-commerce services.

  \<^bold>\<open>The program.\<close> Seven NestJS services talk over one RabbitMQ topic exchange. A client reaches the
  auth, order and catalog services through the gateway. The order service prices an order by an RPC to
  the catalog and writes the order with its \<open>order.created\<close> event in one transaction; a relay carries
  the event from the outbox table over Kafka to the exchange. The saga in the order service reserves
  the items by an RPC to the inventory, asks the payment service to charge the customer, and on its
  result confirms or releases the reservation. The notification service tells the customer of the
  final status.

  \<^bold>\<open>Theories and the code they model.\<close>
  \<^item> \<open>Prelude\<close>, \<open>JS_Number\<close>, \<open>Tables\<close>: exceptions and results, the JavaScript number (a double with its
    rounding), \<open>Map\<close>, tables with unique and 32-bit columns, transactions, reachability. The locales
    \<open>row_store\<close> and \<open>unique_store\<close> are the repository interface, interpreted for every table;
    \<open>inductive_invariant\<close> is interpreted for each step relation.
  \<^item> \<open>Inventory\<close>: \<open>inventory.service.ts\<close> with its entities; the handlers \<open>reserve\<close>, \<open>confirm\<close> and
    \<open>release\<close> are \<open>reserve\<close>, \<open>confirm\<close> and \<open>release\<close>, each a lookup followed by a transaction.
    \<open>Inventory_Correct\<close> has the statements on stock rows, \<open>Inventory_Ledger\<close> the abstract ledger and the
    refinement, \<open>Inventory_Props\<close> the properties, \<open>Inventory_Concurrency\<close> the handlers interleaved between
    lookup and transaction. \<open>Row_Versions\<close> has the transactions as the statements they send and the row
    versions these write, \<open>Row_Locks\<close> any number of transactions interleaved statement by statement, with
    row locks on the tables as committed, \<open>Row_Interleaving\<close> their serializability and the refinement of the
    whole transactions, \<open>Row_Progress\<close> when they all end and how they deadlock.
  \<^item> \<open>Catalog\<close>: \<open>catalog.service.ts\<close> and \<open>catalog.controller.ts\<close>. The locale \<open>price_source\<close> is the contract
    of the price RPC, interpreted on \<open>getPrices\<close>.
  \<^item> \<open>Order\<close>: \<open>order.service.ts\<close> with the order and outbox entities; \<open>createOrder\<close>, \<open>priceItems\<close>.
  \<^item> \<open>Messages\<close>: the payloads on the exchange. \<open>Payment\<close> and \<open>Payment_Props\<close>: \<open>payment.service.ts\<close> and the retry
    queues of its \<open>rabbitmq.module.ts\<close>; \<open>Payment_Retries\<close>: a request going round through these queues while the
    gateway is down, and the failure rate read from the environment.
  \<^item> \<open>Saga\<close> and \<open>Saga_Props\<close>: \<open>saga-orchestrator.service.ts\<close>. The locale \<open>inventory_port\<close> is what the saga
    relies on, interpreted on the inventory model behind a call that may be lost or answered late.
  \<^item> \<open>System\<close> and \<open>System_Props\<close>: all of these as one step relation, its invariant and what follows for
    completed orders, payments and stock.
  \<^item> \<open>Doubles\<close>, \<open>Number_Text\<close>, \<open>JSON\<close>, \<open>JSON_Roundtrip\<close>: the language's numbers as text in both directions,
    \<open>JSON.stringify\<close> and \<open>JSON.parse\<close>, and that parsing what was written gives the value back.
  \<^item> \<open>Relay\<close>: \<open>outbox-relay.service.ts\<close>, the callback of a message and the life of the module (start,
    attempts to connect, waits, crashes, shutdown) as a step relation.
  \<^item> \<open>Wire\<close>: the interfaces of the payloads (\<open>events.ts\<close>, \<open>rpc.ts\<close>, \<open>*.event.ts\<close> and the interfaces in the
    services) as TypeScript types, the JSON each service builds, and the way of an order's event from the
    outbox row to the consumer. \<open>Delivery\<close>: the broker's text between client and handler; the locale \<open>codec\<close>
    is interpreted for every payload.
  \<^item> \<open>Connector\<close>: the settings of the Debezium connector (\<open>manifests/outbox-connector-job.yaml\<close>, and the copy in the
    system test), the relay's Kafka client, and the way of an outbox row between the two.
  \<^item> \<open>Integration_Specs\<close>: the five \<open>*.integration-spec.ts\<close>, each test as an evaluation of the model;
    \<open>Test_Databases\<close>: the databases they build and empty; \<open>E2e_Specs\<close>: the six \<open>app.e2e-spec.ts\<close>; \<open>Saga_E2e\<close>: the system
    test \<open>saga.e2e-spec.ts\<close>, over any reachable state.
  \<^item> \<open>Registration_Races\<close>: any number of registrations of users or products whose two statements interleave; the
    locale \<open>check_then_insert\<close> is interpreted on both services.
  \<^item> \<open>Shutdown\<close>: the listener of \<open>tracer.ts\<close> for \<open>SIGTERM\<close>, the calls of \<open>main.ts\<close>, and the end of the process that
    hosts the relay.
  \<^item> \<open>Nest_Modules\<close>: \<open>*.module.ts\<close> and \<open>app.module.ts\<close>, with the container's resolution of constructor
    parameters; \<open>Settings\<close>: \<open>data-source.ts\<close>, the connections of \<open>app.module.ts\<close> and \<open>rabbitmq.module.ts\<close>,
    \<open>tracer.ts\<close>, \<open>main.ts\<close>; \<open>Environment\<close>: \<open>Number\<close> of a variable; \<open>Health\<close>: \<open>health.controller.ts\<close> and
    \<open>rabbitmq.health.ts\<close>; \<open>Metrics\<close>: \<open>metrics.registry.ts\<close> and \<open>metrics.middleware.ts\<close>;
    \<open>Gateway_Bootstrap\<close>: the gateway's \<open>main.ts\<close> with its rate limiter.
  \<^item> \<open>Notification\<close>: \<open>notification.service.ts\<close>; \<open>Auth\<close>:
    \<open>auth.service.ts\<close>, \<open>jwt.strategy.ts\<close>, \<open>jwt-auth.guard.ts\<close>; \<open>Gateway\<close>: \<open>proxy.setup.ts\<close>; \<open>Config\<close>: the
    RPC timeouts read from the environment; \<open>Topology\<close>: decorators, exchanges and queues; \<open>Api\<close>: the token
    checks of each service; \<open>Http_Routes\<close>: the controllers, the routes they have through the modules and behind
    the gateway's proxies; \<open>Http_Api\<close>: a request of the auth, order and catalog services from its text to the
    answer; \<open>Http_Props\<close> and \<open>Http_Ownership\<close>: what such requests can do; \<open>Schema\<close>: the migrations and the entity decorators.

  \<^bold>\<open>Conventions.\<close> A table is the list of its rows, in the order they were inserted. Generated columns
  that are never read are left out; keys and times that the database generates are arguments. Every
  statement that may reject has a fault in the arguments of the handler, so each \<open>catch\<close>, each
  escaping exception and each rollback is a branch of the model. Logging is left out. A third-party
  library is an argument: the circuit breaker and its RPC (\<open>fire\<close>), bcrypt, the token library, the
  broker's dead-lettering, the rate limiter and its store, the health service, the exports of the
  libraries' modules, the router and the body parser, the connector's event router, the SDK of the tracing. Where a property assumes something of one, the assumption is a
  hypothesis of the theorem.

  \<^bold>\<open>What the lemmas show.\<close> For the inventory: an invariant (unique rows, quantities in range, the reserved
  quantity of a product is the sum of its open reservations) that every call in turn keeps under
  any fault, a refinement to the ledger, all-or-nothing reservation, compensation, idempotence, and
  safety of overlapping reservations. For the whole: under duplicated, reordered and late messages and
  arbitrary faults, a completed order has exactly one successful payment of its total and a confirmed
  reservation of its items, nobody is charged twice, and no stock is oversold, as long as each
  handler runs without interruption. Where the code does not keep this up, a closed theorem shows
  it: overlapping confirmations or charges, a confirmation after a release, a timed-out reservation,
  two orders that deadlock, a product seeded twice, two registrations of one email, a duplicate \<open>order.created\<close>, a lost payment result, the retry counter, the concatenated timeout, an
  exchange renamed in the environment, a relay that is never shut down, and a customer who sets the price of a product. Around the core: every payload has the type its consumer
  declares, and the event of an order survives the outbox, Kafka and the relay unchanged; the saga
  behaves over text as with direct calls; the relay consumes again after any failure; a payment request
  outlives any outage of the gateway; a product registered and ordered over HTTP is sold at its catalog price; the tests of
  the repository hold of the model, but for two expectations the code does not meet; every
  application starts, talks to one database whose tables are those of its entities, reports the
  state of exactly its connections and counts every finished request once; the gateway refuses
  exactly what exceeds its limit and nothing when Redis fails; and requests change tables only with an
  answer 201.

  \<^bold>\<open>Bounds.\<close> \<open>int4_max\<close> is the largest value of an \<open>integer\<close> column; totals are exact below \<open>2 ^ 53\<close>.
  Most recursions are structural or have a measure. \<open>JSON_parse\<close> has fuel, one more than twice the
  length of the text; \<open>parse_enough\<close> shows that this always gives an answer and \<open>parse_more\<close> that more
  fuel changes nothing. Text is a list of characters with codes up to 255. A number is written with
  the fewest digits that read back to it.

  \<^bold>\<open>Not modelled.\<close> The inside of libraries: offsets and rebalancing of the Kafka consumer, the HTTP
  proxy, the registry and text format of the metrics, the tracing SDK. Logging, bodies of
  requests whose values have other types than the code declares (but for missing or null items), the
  starting of containers and processes by the tests, the unit tests with mocked repositories (\<open>*.service.spec.ts\<close>),
  Kubernetes manifests but for the connector (their values are quoted where a finding needs them), and
  files that are no part of the services.
\<close>

end
